(* ===== verification/Prelude.thy ===== *)
theory Prelude
  imports Main "HOL-Library.Word" "HOL-Library.List_Lexorder"
begin

text \<open>
  Shared vocabulary of the Gale link development: the machine types of
  \<^verbatim>\<open>gale/types.h\<close> (\<open>u32\<close>, a byte, a 16-bit wide character), the two buffer
  types of \<^verbatim>\<open>libgale\<close> (\<open>gale_data\<close> is a byte string, \<open>gale_text\<close> a string of wide
  characters), the error value that stands for a failed C \<^verbatim>\<open>assert\<close>, the
  collections of facts the component theories feed to the simplifier, and the
  arithmetic on bytes that the codec proofs share.
\<close>

type_synonym byte = "8 word"
type_synonym u32 = "32 word"
type_synonym wch = "16 word"
type_synonym gdata = "byte list"
type_synonym gtext = "wch list"

text \<open>
  A C \<^verbatim>\<open>assert\<close> that fails aborts the process; the model returns
  \<open>Inl (Assert_fail f)\<close>, \<open>f\<close> naming the C function whose assertion failed.
  \<open>Bad_pointer f\<close> stands for a dereference in \<open>f\<close> of a pointer that points to no
  live object (undefined behaviour in C).
\<close>

datatype error = Assert_fail string | Bad_pointer string

type_synonym 'a result = "error + 'a"

named_theorems wire_simps "evaluation rules of the wire codec"
named_theorems opcode_simps "values of the protocol constants"
named_theorems machine_defs "state transformers of the input and output machines"

text \<open>
  C's integer division truncates towards zero; HOL's \<open>div\<close> on \<open>int\<close> rounds towards
  minus infinity. \<open>trunc_div\<close> is C's \<^verbatim>\<open>/\<close> on signed operands.
\<close>

definition trunc_div :: "int \<Rightarrow> int \<Rightarrow> int" where
  "trunc_div a b = sgn a * sgn b * (\<bar>a\<bar> div \<bar>b\<bar>)"

subsection \<open>Byte arithmetic\<close>

lemma unat_byte_lt [simp]: "unat (b :: byte) < 256"
  using unsigned_less [of b] by simp

lemma unat_wch_lt [simp]: "unat (c :: wch) < 65536"
  using unsigned_less [of c] by simp

lemma unat_u32_lt: "unat (x :: u32) < 4294967296"
  using unsigned_less [of x] by simp

lemma unat_of_nat_byte [simp]: "unat (word_of_nat (n mod 256) :: byte) = n mod 256"
  by (simp add: unat_of_nat)

lemma byte_of_unat [simp]: "(word_of_nat (unat (b :: byte)) :: byte) = b"
  by simp

text \<open>Splitting a number below \<open>256 * k\<close> into a high and a low byte and back.\<close>

lemma split_high_low:
  fixes n :: nat
  shows "n div 256 * 256 + n mod 256 = n"
  by simp

lemma div_mod_256_recombine:
  fixes a b :: nat
  assumes "b < 256"
  shows "(a * 256 + b) div 256 = a" and "(a * 256 + b) mod 256 = b"
  using assms by simp_all

lemma trunc_div_nonneg: "0 \<le> a \<Longrightarrow> 0 < b \<Longrightarrow> trunc_div a b = a div b"
  by (cases "a = 0") (simp_all add: trunc_div_def)

lemma int_div_bounds:
  fixes a b :: int
  assumes "0 < b"
  shows "b * (a div b) \<le> a" and "a < b * (a div b) + b"
  using mult_div_mod_eq [of b a] pos_mod_bound [OF assms, of a] pos_mod_sign [OF assms, of a]
  by linarith+

subsection \<open>Lists\<close>

lemma take_append_exact [simp]: "length xs = n \<Longrightarrow> take n (xs @ ys) = xs"
  by simp

lemma drop_append_exact [simp]: "length xs = n \<Longrightarrow> drop n (xs @ ys) = ys"
  by simp

end
