(* ===== verification/Wire.thy ===== *)
theory Wire
  imports Prelude
begin

text \<open>
  The wire codec of \<^verbatim>\<open>libgale\<close> (\<^verbatim>\<open>gale_pack_u32\<close>, \<^verbatim>\<open>gale_unpack_u32\<close>,
  \<^verbatim>\<open>gale_pack_text_len\<close>, \<^verbatim>\<open>gale_unpack_text_len\<close>, \<^verbatim>\<open>gale_pack_text\<close> and the size
  functions). Their C source is not part of \<^verbatim>\<open>src/\<close>; they are modelled from the
  specification (section 4.1): a \<open>u32\<close> is four bytes in network order, a wide
  character two, a text is its characters without a length field unless packed by
  \<^verbatim>\<open>gale_pack_text\<close>, which puts the character count in front. Packing returns the
  bytes it appends; unpacking takes the bytes from the front of a buffer and returns
  what is left, \<open>None\<close> when the buffer is too short.
\<close>

definition gale_u32_size :: nat where
  "gale_u32_size = 4"

definition gale_wch_size :: nat where
  "gale_wch_size = 2"

declare gale_u32_size_def [wire_simps, simp] gale_wch_size_def [wire_simps, simp]

definition gale_pack_u32 :: "u32 \<Rightarrow> gdata" where
  "gale_pack_u32 x =
     (let n = unat x in
      [word_of_nat (n div 16777216 mod 256), word_of_nat (n div 65536 mod 256),
       word_of_nat (n div 256 mod 256), word_of_nat (n mod 256)])"

fun gale_unpack_u32 :: "gdata \<Rightarrow> (u32 \<times> gdata) option" where
  "gale_unpack_u32 (a # b # c # d # r) =
     Some (word_of_nat (((unat a * 256 + unat b) * 256 + unat c) * 256 + unat d), r)"
| "gale_unpack_u32 _ = None"

definition gale_pack_wch :: "wch \<Rightarrow> gdata" where
  "gale_pack_wch c = [word_of_nat (unat c div 256), word_of_nat (unat c mod 256)]"

fun gale_unpack_wch :: "gdata \<Rightarrow> (wch \<times> gdata) option" where
  "gale_unpack_wch (a # b # r) = Some (word_of_nat (unat a * 256 + unat b), r)"
| "gale_unpack_wch _ = None"

definition gale_pack_text_len :: "gtext \<Rightarrow> gdata" where
  "gale_pack_text_len t = concat (map gale_pack_wch t)"

definition gale_text_len_size :: "gtext \<Rightarrow> nat" where
  "gale_text_len_size t = length t * gale_wch_size"

fun gale_unpack_text_len :: "nat \<Rightarrow> gdata \<Rightarrow> (gtext \<times> gdata) option" where
  "gale_unpack_text_len 0 d = Some ([], d)"
| "gale_unpack_text_len (Suc n) d =
     (case gale_unpack_wch d of
        None \<Rightarrow> None
      | Some (c, d') \<Rightarrow>
          (case gale_unpack_text_len n d' of
             None \<Rightarrow> None
           | Some (t, r) \<Rightarrow> Some (c # t, r)))"

definition gale_pack_text :: "gtext \<Rightarrow> gdata" where
  "gale_pack_text t = gale_pack_u32 (of_nat (length t)) @ gale_pack_text_len t"

definition gale_text_size :: "gtext \<Rightarrow> nat" where
  "gale_text_size t = gale_u32_size + gale_text_len_size t"

text \<open>
  \<^verbatim>\<open>gale_text_as_data\<close> and \<^verbatim>\<open>gale_text_from_data\<close> view a text as the bytes of
  its characters and back; the output machine uses them for the keys of its maps.
  \<^verbatim>\<open>gale_text_from_data\<close> reads as many whole characters as the bytes hold.
\<close>

definition gale_text_as_data :: "gtext \<Rightarrow> gdata" where
  "gale_text_as_data t = gale_pack_text_len t"

definition gale_text_from_data :: "gdata \<Rightarrow> gtext" where
  "gale_text_from_data d =
     (case gale_unpack_text_len (length d div gale_wch_size) d of
        Some (t, _) \<Rightarrow> t
      | None \<Rightarrow> [])"

subsection \<open>Sizes\<close>

lemma length_gale_pack_u32 [simp]: "length (gale_pack_u32 x) = 4"
  by (simp add: gale_pack_u32_def Let_def)

lemma length_gale_pack_wch [simp]: "length (gale_pack_wch c) = 2"
  by (simp add: gale_pack_wch_def)

lemma length_gale_pack_text_len [simp]:
  "length (gale_pack_text_len t) = 2 * length t"
  by (induction t) (simp_all add: gale_pack_text_len_def)

lemma gale_pack_text_len_Nil [simp]: "gale_pack_text_len [] = []"
  by (simp add: gale_pack_text_len_def)

lemma gale_pack_text_len_Cons [simp]:
  "gale_pack_text_len (c # t) = gale_pack_wch c @ gale_pack_text_len t"
  by (simp add: gale_pack_text_len_def)

lemma gale_text_len_size_eq [simp]: "gale_text_len_size t = 2 * length t"
  by (simp add: gale_text_len_size_def)

subsection \<open>Decoding what was encoded\<close>

lemma u32_bytes_recombine:
  fixes n :: nat
  assumes "n < 4294967296"
  shows "((n div 16777216 mod 256 * 256 + n div 65536 mod 256) * 256 + n div 256 mod 256) * 256
           + n mod 256 = n"
proof -
  have a: "n div 16777216 mod 256 = n div 16777216"
    using assms by simp
  have e1: "n div 65536 div 256 = n div 16777216"
    using div_mult2_eq [of n 65536 256] by simp
  have e2: "n div 256 div 256 = n div 65536"
    using div_mult2_eq [of n 256 256] by simp
  have b: "n div 16777216 * 256 + n div 65536 mod 256 = n div 65536"
    using split_high_low [of "n div 65536"] by (simp only: e1)
  have c: "n div 65536 * 256 + n div 256 mod 256 = n div 256"
    using split_high_low [of "n div 256"] by (simp only: e2)
  show ?thesis
    by (simp only: a b c split_high_low)
qed

lemma gale_unpack_pack_u32 [wire_simps, simp]:
  "gale_unpack_u32 (gale_pack_u32 x @ r) = Some (x, r)"
proof -
  have lt: "unat x < 4294967296"
    by (rule unat_u32_lt)
  have "gale_unpack_u32 (gale_pack_u32 x @ r) =
      Some (word_of_nat (((unat x div 16777216 mod 256 * 256 + unat x div 65536 mod 256) * 256
        + unat x div 256 mod 256) * 256 + unat x mod 256), r)"
    by (simp only: gale_pack_u32_def Let_def append_Cons append_Nil gale_unpack_u32.simps
        unat_of_nat_byte)
  then show ?thesis
    by (simp only: u32_bytes_recombine [OF lt] of_nat_unat ucast_id)
qed

lemma gale_unpack_pack_wch [wire_simps, simp]:
  "gale_unpack_wch (gale_pack_wch c @ r) = Some (c, r)"
proof -
  have hi: "unat c div 256 < 256"
    using unat_wch_lt [of c] by arith
  have "gale_unpack_wch (gale_pack_wch c @ r) =
      Some (word_of_nat (unat c div 256 * 256 + unat c mod 256), r)"
    using hi by (simp add: gale_pack_wch_def unat_of_nat)
  then show ?thesis
    by (simp only: split_high_low of_nat_unat ucast_id)
qed

lemma gale_unpack_pack_text_len [wire_simps, simp]:
  "gale_unpack_text_len (length t) (gale_pack_text_len t @ r) = Some (t, r)"
  by (induction t) simp_all

lemma gale_text_from_as_data [wire_simps, simp]:
  "gale_text_from_data (gale_text_as_data t) = t"
  using gale_unpack_pack_text_len [of t "[]"]
  by (simp add: gale_text_from_data_def gale_text_as_data_def)

subsection \<open>Shape of a decoded \<open>u32\<close>\<close>

lemma gale_unpack_u32_None_iff: "gale_unpack_u32 d = None \<longleftrightarrow> length d < 4"
  by (cases d rule: gale_unpack_u32.cases) auto

lemma gale_unpack_u32_Some_drop: "gale_unpack_u32 d = Some (x, r) \<Longrightarrow> 4 \<le> length d \<and> r = drop 4 d"
  by (cases d rule: gale_unpack_u32.cases) auto

subsection \<open>A \<open>u32\<close> read as two characters\<close>

lemma mod_65536_div_256: "(n::nat) mod 65536 div 256 = n div 256 mod 256"
proof -
  have "n mod (256 * 256) = 256 * (n div 256 mod 256) + n mod 256"
    by (rule mod_mult2_eq)
  then show ?thesis by simp
qed

lemma gale_pack_u32_as_text:
  "gale_pack_u32 x = gale_pack_text_len [word_of_nat (unat x div 65536), word_of_nat (unat x mod 65536)]"
proof -
  have hi: "unat (word_of_nat (unat x div 65536) :: wch) = unat x div 65536"
    using unat_u32_lt [of x] by (simp add: unat_of_nat)
  have lo: "unat (word_of_nat (unat x mod 65536) :: wch) = unat x mod 65536"
    by (simp add: unat_of_nat)
  have b1: "unat x div 65536 div 256 = unat x div 16777216 mod 256"
    using div_mult2_eq [of "unat x" 65536 256] unat_u32_lt [of x] by simp
  have b4: "unat x mod 65536 mod 256 = unat x mod 256"
    by (simp add: mod_mod_cancel)
  show ?thesis
    by (simp add: gale_pack_u32_def gale_pack_wch_def Let_def hi lo b1 b4 mod_65536_div_256)
qed

end
