(* ===== verification/Time.thy ===== *)
theory Time
  imports Wire
begin

text \<open>
  Timestamps of \<^verbatim>\<open>src/libgale/misc_time.c\<close>. A \<open>gale_time\<close> is a 128-bit fixed
  point number of seconds: a signed 32-bit high second word, an unsigned low second
  word and two unsigned fraction words (the fraction counts units of
  \<open>2 ^ -64\<close> seconds). The link stamps queued messages with it (\<^verbatim>\<open>link_put\<close>,
  \<^verbatim>\<open>link_queue_time\<close>).

  \<^verbatim>\<open>struct timeval\<close> is the record \<open>timeval\<close> (both fields C \<^verbatim>\<open>long\<close>, so
  \<open>int\<close>). \<open>gale_time_now\<close> takes the reading of \<^verbatim>\<open>gettimeofday\<close> as an argument and
  threads the function's \<^verbatim>\<open>static last\<close> explicitly: it returns the time and the
  new value of \<open>last\<close>. \<open>gale_time_to\<close> also returns whether it raised its
  \<^verbatim>\<open>gale_alert\<close> warning. The borrow and carry flags of \<^verbatim>\<open>subtract\<close> and \<^verbatim>\<open>add\<close>
  (C \<^verbatim>\<open>int\<close> set to 0 or 1) are booleans. \<^verbatim>\<open>gale_time_seconds\<close> leaves the fraction
  words of its local uninitialised; the model takes their indeterminate contents as
  the arguments \<open>fh\<close> and \<open>fl\<close>. \<^verbatim>\<open>gale_time_format\<close> reads the environment and calls
  \<^verbatim>\<open>gmtime\<close>, \<^verbatim>\<open>localtime\<close> and \<^verbatim>\<open>strftime\<close>, and is not modelled.

  The reference values: \<open>time_val\<close> reads all 128 bits as an unsigned number,
  \<open>time_sval\<close> as a signed one (\<^verbatim>\<open>sec_high\<close> in two's complement).
\<close>

record gale_time =
  sec_high :: u32
  sec_low :: u32
  frac_high :: u32
  frac_low :: u32

record timeval =
  tv_sec :: int
  tv_usec :: int

definition gale_time_zero :: gale_time where
  "gale_time_zero = \<lparr>sec_high = word_of_int (-2147483648), sec_low = 0, frac_high = 0, frac_low = 0\<rparr>"

definition gale_time_forever :: gale_time where
  "gale_time_forever =
     \<lparr>sec_high = 2147483647, sec_low = 4294967295, frac_high = 4294967295, frac_low = 4294967295\<rparr>"

text \<open>\<^verbatim>\<open>sec_high\<close> is a C \<^verbatim>\<open>int\<close>: its comparison is signed (\<open>sint\<close>); the others are unsigned.\<close>

definition gale_time_compare :: "gale_time \<Rightarrow> gale_time \<Rightarrow> int" where
  "gale_time_compare one two =
     (if sint (sec_high one) < sint (sec_high two) then -1
      else if sint (sec_high one) > sint (sec_high two) then 1
      else if sec_low one < sec_low two then -1
      else if sec_low one > sec_low two then 1
      else if frac_high one < frac_high two then -1
      else if frac_high one > frac_high two then 1
      else if frac_low one < frac_low two then -1
      else if frac_low one > frac_low two then 1
      else 0)"

definition gale_time_to :: "timeval \<Rightarrow> gale_time \<Rightarrow> timeval \<times> bool" where
  "gale_time_to tv time =
     (let warn = (sec_high time \<noteq> 0);
          tv1 = (if warn then tv\<lparr>tv_sec := 4294967295, tv_usec := 0\<rparr> else tv) in
      (tv1\<lparr>tv_sec := uint (sec_low time),
           tv_usec := uint (frac_high time div 16384 * 15625 div 4096)\<rparr>, warn))"

definition gale_time_from :: "timeval \<Rightarrow> gale_time" where
  "gale_time_from tv =
     \<lparr>sec_high = 0, sec_low = word_of_int (tv_sec tv),
      frac_high = word_of_int (trunc_div (tv_usec tv * 4096) 15625 * 16384), frac_low = 0\<rparr>"

text \<open>
  \<^verbatim>\<open>gale_time_now\<close>: \<open>last_t\<close> is the static variable \<^verbatim>\<open>last\<close>, \<open>tv\<close> the reading of
  \<^verbatim>\<open>gettimeofday\<close>; the result is the returned time and the new value of \<open>last\<close>.
\<close>

definition gale_time_now :: "gale_time \<Rightarrow> timeval \<Rightarrow> gale_time \<times> gale_time" where
  "gale_time_now last_t tv =
     (let time = gale_time_from tv in
      if gale_time_compare last_t time < 0 then (time, time)
      else let last' = last_t\<lparr>frac_low := frac_low last_t + 1\<rparr> in (last', last'))"

definition gale_time_seconds :: "int \<Rightarrow> u32 \<Rightarrow> u32 \<Rightarrow> gale_time" where
  "gale_time_seconds sec fh fl =
     (if sec < 0 then \<lparr>sec_high = word_of_int (-1), sec_low = word_of_int sec, frac_high = fh, frac_low = fl\<rparr>
      else \<lparr>sec_high = 0, sec_low = word_of_int sec, frac_high = fh, frac_low = fl\<rparr>)"

definition subtract :: "u32 \<Rightarrow> u32 \<Rightarrow> bool \<Rightarrow> u32 \<times> bool" where
  "subtract one two borrow =
     (let result = one - two - (if borrow then 1 else 0) in
      (result, result > one \<or> (two \<noteq> 0 \<and> result = one)))"

definition gale_time_diff :: "gale_time \<Rightarrow> gale_time \<Rightarrow> gale_time" where
  "gale_time_diff one two =
     (let (fl, b1) = subtract (frac_low one) (frac_low two) False;
          (fh, b2) = subtract (frac_high one) (frac_high two) b1;
          (sl, b3) = subtract (sec_low one) (sec_low two) b2;
          (sh, _) = subtract (sec_high one) (sec_high two) b3 in
      \<lparr>sec_high = sh, sec_low = sl, frac_high = fh, frac_low = fl\<rparr>)"

definition add :: "u32 \<Rightarrow> u32 \<Rightarrow> bool \<Rightarrow> u32 \<times> bool" where
  "add one two carry =
     (let result = one + two + (if carry then 1 else 0) in
      (result, result < one \<or> (two \<noteq> 0 \<and> result = one)))"

definition gale_time_add :: "gale_time \<Rightarrow> gale_time \<Rightarrow> gale_time" where
  "gale_time_add one two =
     (let (fl, c1) = add (frac_low one) (frac_low two) False;
          (fh, c2) = add (frac_high one) (frac_high two) c1;
          (sl, c3) = add (sec_low one) (sec_low two) c2;
          (sh, _) = add (sec_high one) (sec_high two) c3 in
      \<lparr>sec_high = sh, sec_low = sl, frac_high = fh, frac_low = fl\<rparr>)"

definition gale_pack_time :: "gale_time \<Rightarrow> gdata" where
  "gale_pack_time time =
     gale_pack_u32 (sec_high time) @ gale_pack_u32 (sec_low time) @ gale_pack_u32 (frac_high time)
     @ gale_pack_u32 (frac_low time)"

text \<open>
  \<^verbatim>\<open>gale_unpack_time\<close> stops at the first field that does not fit; the C function
  then returns 0 with the fields before it written, the model returns \<open>None\<close>.
\<close>

definition gale_unpack_time :: "gdata \<Rightarrow> (gale_time \<times> gdata) option" where
  "gale_unpack_time d =
     (case gale_unpack_u32 d of
        None \<Rightarrow> None
      | Some (sh, d1) \<Rightarrow>
          (case gale_unpack_u32 d1 of
             None \<Rightarrow> None
           | Some (sl, d2) \<Rightarrow>
               (case gale_unpack_u32 d2 of
                  None \<Rightarrow> None
                | Some (fh, d3) \<Rightarrow>
                    (case gale_unpack_u32 d3 of
                       None \<Rightarrow> None
                     | Some (fl, d4) \<Rightarrow>
                         Some (\<lparr>sec_high = sh, sec_low = sl, frac_high = fh, frac_low = fl\<rparr>, d4)))))"

subsection \<open>Reference values\<close>

definition time_val :: "gale_time \<Rightarrow> int" where
  "time_val t = ((uint (sec_high t) * 4294967296 + uint (sec_low t)) * 4294967296 + uint (frac_high t))
                * 4294967296 + uint (frac_low t)"

definition time_sval :: "gale_time \<Rightarrow> int" where
  "time_sval t = ((sint (sec_high t) * 4294967296 + uint (sec_low t)) * 4294967296 + uint (frac_high t))
                 * 4294967296 + uint (frac_low t)"

subsection \<open>Carries and borrows of one word\<close>

lemma mod_2_32_cases:
  fixes S :: nat
  assumes "S < 2 * 2 ^ 32"
  shows "S mod 2 ^ 32 = (if S < 2 ^ 32 then S else S - 2 ^ 32)"
  using assms by (simp add: mod_if le_mod_geq)

lemma unat_add3:
  "unat (a + b + (if c then 1 else 0) :: u32) = (unat a + unat b + (if c then 1 else 0)) mod 2 ^ 32"
  by (cases c) (simp_all add: unat_word_ariths mod_add_left_eq mod_Suc_eq)

lemma add_carry:
  "unat (fst (add a b c)) + (if snd (add a b c) then 2 ^ 32 else 0) = unat a + unat b + (if c then 1 else 0)"
proof -
  define A B C where "A = unat a" and "B = unat b" and "C = (if c then 1 else 0 :: nat)"
  have lt: "A < 2 ^ 32" "B < 2 ^ 32" "C \<le> 1"
    using unsigned_less [of a] unsigned_less [of b] by (simp_all add: A_def B_def C_def)
  let ?r = "a + b + (if c then 1 else 0)"
  have r: "unat ?r = (if A + B + C < 2 ^ 32 then A + B + C else A + B + C - 2 ^ 32)"
    using unat_add3 [of a b c] mod_2_32_cases [of "A + B + C"] lt by (simp add: A_def B_def C_def)
  have f1: "?r < a \<longleftrightarrow> unat ?r < A"
    by (simp add: word_less_nat_alt A_def)
  have f2: "?r = a \<longleftrightarrow> unat ?r = A"
    unfolding A_def by (rule word_unat_eq_iff)
  have f3: "b \<noteq> 0 \<longleftrightarrow> B \<noteq> 0"
    by (simp add: B_def unat_eq_zero)
  have flag: "snd (add a b c) \<longleftrightarrow> unat ?r < A \<or> (B \<noteq> 0 \<and> unat ?r = A)"
    unfolding add_def Let_def snd_conv f1 f2 f3 ..
  have fst: "fst (add a b c) = ?r"
    by (simp add: add_def Let_def)
  have "unat ?r + (if unat ?r < A \<or> (B \<noteq> 0 \<and> unat ?r = A) then 2 ^ 32 else 0) = A + B + C"
  proof (cases "A + B + C < 2 ^ 32")
    case True
    then have "unat ?r = A + B + C" using r by simp
    moreover have "\<not> (A + B + C < A \<or> (B \<noteq> 0 \<and> A + B + C = A))" by linarith
    ultimately show ?thesis by simp
  next
    case False
    then have "unat ?r = A + B + C - 2 ^ 32" using r by simp
    moreover have "A + B + C - 2 ^ 32 < A \<or> (B \<noteq> 0 \<and> A + B + C - 2 ^ 32 = A)"
    proof (cases "B = 0")
      case True
      have "(2::nat) ^ 32 = 4294967296" by simp
      then show ?thesis using True False lt by linarith
    next
      case False
      then show ?thesis using lt by linarith
    qed
    ultimately show ?thesis using False by simp
  qed
  then show ?thesis
    unfolding fst flag A_def B_def C_def .
qed

lemma add_limb:
  "uint (fst (add a b c)) + (if snd (add a b c) then 4294967296 else 0) =
   uint a + uint b + (if c then 1 else 0)"
proof -
  have p: "(2::nat) ^ 32 = 4294967296" by simp
  have e: "unat (fst (add a b c)) + (if snd (add a b c) then 4294967296 else 0) =
           unat a + unat b + (if c then 1 else 0)"
    using add_carry [of a b c] unfolding p .
  show ?thesis
  proof (cases c; cases "snd (add a b c)")
  qed (use e in \<open>simp_all add: uint_nat del: of_nat_unat\<close>)
qed

lemma uint_limb: "0 \<le> uint (x :: u32)" "uint x < 4294967296"
  using uint_lt2p [of x] by simp_all

lemma uint_sub3:
  "uint (a - b - (if c then 1 else 0) :: u32) = (uint a - uint b - (if c then 1 else 0)) mod 4294967296"
  by (cases c) (simp_all add: uint_word_ariths mod_diff_left_eq)

lemma subtract_limb:
  "uint (fst (subtract a b c)) - (if snd (subtract a b c) then 4294967296 else 0) =
   uint a - uint b - (if c then 1 else 0)"
proof -
  define A B C where "A = uint a" and "B = uint b" and "C = (if c then 1 else 0 :: int)"
  have lt: "0 \<le> A" "A < 4294967296" "0 \<le> B" "B < 4294967296" "0 \<le> C" "C \<le> 1"
    using uint_lt2p [of a] uint_lt2p [of b] by (simp_all add: A_def B_def C_def)
  let ?r = "a - b - (if c then 1 else 0)"
  have u: "uint ?r = (A - B - C) mod 4294967296"
    using uint_sub3 [of a b c] by (simp add: A_def B_def C_def)
  have r: "uint ?r = (if 0 \<le> A - B - C then A - B - C else A - B - C + 4294967296)"
  proof (cases "0 \<le> A - B - C")
    case True
    have "(A - B - C) mod 4294967296 = A - B - C"
      using True lt by (intro mod_pos_pos_trivial) linarith+
    then show ?thesis using u True by simp
  next
    case False
    have "(A - B - C) mod 4294967296 = (A - B - C + 4294967296) mod 4294967296" by simp
    also have "\<dots> = A - B - C + 4294967296" using False lt by (intro mod_pos_pos_trivial) linarith+
    finally show ?thesis using u False by simp
  qed
  have f1: "?r > a \<longleftrightarrow> uint ?r > A"
    by (simp add: word_less_def A_def)
  have f2: "?r = a \<longleftrightarrow> uint ?r = A"
    unfolding A_def by (rule word_uint_eq_iff)
  have f3: "b \<noteq> 0 \<longleftrightarrow> B \<noteq> 0"
    by (simp add: B_def uint_0_iff)
  have flag: "snd (subtract a b c) \<longleftrightarrow> uint ?r > A \<or> (B \<noteq> 0 \<and> uint ?r = A)"
    unfolding subtract_def Let_def snd_conv f1 f2 f3 ..
  have fst: "fst (subtract a b c) = ?r"
    by (simp add: subtract_def Let_def)
  have "uint ?r - (if uint ?r > A \<or> (B \<noteq> 0 \<and> uint ?r = A) then 4294967296 else 0) = A - B - C"
  proof (cases "0 \<le> A - B - C")
    case True
    then have "uint ?r = A - B - C" using r by simp
    moreover have "\<not> (A - B - C > A \<or> (B \<noteq> 0 \<and> A - B - C = A))" using True lt by linarith
    ultimately show ?thesis by simp
  next
    case False
    then have "uint ?r = A - B - C + 4294967296" using r by simp
    moreover have "A - B - C + 4294967296 > A \<or> (B \<noteq> 0 \<and> A - B - C + 4294967296 = A)"
    proof (cases "B = 0")
      case True
      then show ?thesis using False lt by linarith
    next
      case False
      then show ?thesis using lt by linarith
    qed
    ultimately show ?thesis by simp
  qed
  then show ?thesis
    unfolding fst flag A_def B_def C_def .
qed

subsection \<open>Lexicographic order of the words\<close>

lemma lex_less:
  fixes h1 h2 l1 l2 :: int
  assumes "0 \<le> l1" "l1 < 4294967296" "0 \<le> l2" "l2 < 4294967296"
  shows "h1 * 4294967296 + l1 < h2 * 4294967296 + l2 \<longleftrightarrow> h1 < h2 \<or> (h1 = h2 \<and> l1 < l2)"
proof (cases h1 h2 rule: linorder_cases)
  case less
  then have "h1 * 4294967296 + l1 < h2 * 4294967296 + l2" using assms by linarith
  then show ?thesis using less by simp
next
  case greater
  then have "\<not> h1 * 4294967296 + l1 < h2 * 4294967296 + l2" using assms by linarith
  then show ?thesis using greater by simp
qed simp

lemma lex_eq:
  fixes h1 h2 l1 l2 :: int
  assumes "0 \<le> l1" "l1 < 4294967296" "0 \<le> l2" "l2 < 4294967296"
  shows "h1 * 4294967296 + l1 = h2 * 4294967296 + l2 \<longleftrightarrow> h1 = h2 \<and> l1 = l2"
proof (cases h1 h2 rule: linorder_cases)
  case less
  then have "h1 * 4294967296 + l1 < h2 * 4294967296 + l2" using assms by linarith
  then show ?thesis using less by simp
next
  case greater
  then have "h2 * 4294967296 + l2 < h1 * 4294967296 + l1" using assms by linarith
  then show ?thesis using greater by simp
qed simp

lemma word_less_succ: "(x :: u32) < x + 1 \<longleftrightarrow> x \<noteq> -1"
proof -
  have u: "unat (x + 1) = (unat x + 1) mod 4294967296"
    by (simp add: unat_word_ariths)
  have m: "unat (- 1 :: u32) = 4294967295"
    by (simp add: unsigned_minus_1_eq_mask mask_eq_exp_minus_1)
  have e: "x = -1 \<longleftrightarrow> unat x = 4294967295"
    using word_unat_eq_iff [of x "-1"] unfolding m .
  have l: "unat x < 4294967296"
    using unsigned_less [of x] by simp
  show ?thesis
  proof (cases "unat x = 4294967295")
    case True
    then show ?thesis by (simp add: word_less_nat_alt u e)
  next
    case False
    then have "unat x + 1 < 4294967296" using l by linarith
    then show ?thesis using False by (simp add: word_less_nat_alt u e)
  qed
qed

lemma sint_minus_one_u32 [simp]: "sint (word_of_int (-1) :: u32) = -1"
  by simp

text \<open>
  C15. \<^verbatim>\<open>gale_time_add\<close>, which adds the four words from the lowest with the
  carry of \<^verbatim>\<open>add\<close>, is addition of the 128-bit values modulo \<open>2 ^ 128\<close>.
\<close>

theorem gale_time_add_val:
  "time_val (gale_time_add a b) = (time_val a + time_val b) mod 2 ^ 128"
proof -
  let ?p1 = "add (frac_low a) (frac_low b) False"
  let ?p2 = "add (frac_high a) (frac_high b) (snd ?p1)"
  let ?p3 = "add (sec_low a) (sec_low b) (snd ?p2)"
  let ?p4 = "add (sec_high a) (sec_high b) (snd ?p3)"
  have t: "gale_time_add a b = \<lparr>sec_high = fst ?p4, sec_low = fst ?p3, frac_high = fst ?p2, frac_low = fst ?p1\<rparr>"
    by (simp add: gale_time_add_def Let_def split_def)
  have e1: "uint (fst ?p1) + (if snd ?p1 then 4294967296 else 0) = uint (frac_low a) + uint (frac_low b)"
    using add_limb [of "frac_low a" "frac_low b" False] by simp
  note e2 = add_limb [of "frac_high a" "frac_high b" "snd ?p1"]
  note e3 = add_limb [of "sec_low a" "sec_low b" "snd ?p2"]
  note e4 = add_limb [of "sec_high a" "sec_high b" "snd ?p3"]
  define k where "k = (if snd ?p4 then 1 else 0 :: int)"
  have sum: "time_val a + time_val b = time_val (gale_time_add a b) + k * 2 ^ 128"
    using e1 e2 e3 e4 unfolding t time_val_def k_def by (simp split: if_splits)
  have lt: "0 \<le> time_val (gale_time_add a b)" "time_val (gale_time_add a b) < 2 ^ 128"
    using uint_limb [of "fst ?p1"] uint_limb [of "fst ?p2"] uint_limb [of "fst ?p3"]
      uint_limb [of "fst ?p4"]
    unfolding t time_val_def by simp_all
  have "(time_val (gale_time_add a b) + k * 2 ^ 128) mod 2 ^ 128 = time_val (gale_time_add a b) mod 2 ^ 128"
    by (rule mod_mult_self1)
  also have "\<dots> = time_val (gale_time_add a b)"
    using lt by (rule mod_pos_pos_trivial)
  finally show ?thesis
    unfolding sum by (rule sym)
qed

text \<open>
  C16. \<^verbatim>\<open>gale_time_diff\<close>, with the borrow of \<^verbatim>\<open>subtract\<close>, is subtraction of the
  128-bit values modulo \<open>2 ^ 128\<close>.
\<close>

theorem gale_time_diff_val:
  "time_val (gale_time_diff a b) = (time_val a - time_val b) mod 2 ^ 128"
proof -
  let ?p1 = "subtract (frac_low a) (frac_low b) False"
  let ?p2 = "subtract (frac_high a) (frac_high b) (snd ?p1)"
  let ?p3 = "subtract (sec_low a) (sec_low b) (snd ?p2)"
  let ?p4 = "subtract (sec_high a) (sec_high b) (snd ?p3)"
  have t: "gale_time_diff a b = \<lparr>sec_high = fst ?p4, sec_low = fst ?p3, frac_high = fst ?p2, frac_low = fst ?p1\<rparr>"
    by (simp add: gale_time_diff_def Let_def split_def)
  have e1: "uint (fst ?p1) - (if snd ?p1 then 4294967296 else 0) = uint (frac_low a) - uint (frac_low b)"
    using subtract_limb [of "frac_low a" "frac_low b" False] by simp
  note e2 = subtract_limb [of "frac_high a" "frac_high b" "snd ?p1"]
  note e3 = subtract_limb [of "sec_low a" "sec_low b" "snd ?p2"]
  note e4 = subtract_limb [of "sec_high a" "sec_high b" "snd ?p3"]
  define k where "k = (if snd ?p4 then 1 else 0 :: int)"
  have sum: "time_val a - time_val b = time_val (gale_time_diff a b) - k * 2 ^ 128"
    using e1 e2 e3 e4 unfolding t time_val_def k_def by (simp split: if_splits)
  have lt: "0 \<le> time_val (gale_time_diff a b)" "time_val (gale_time_diff a b) < 2 ^ 128"
    using uint_limb [of "fst ?p1"] uint_limb [of "fst ?p2"] uint_limb [of "fst ?p3"]
      uint_limb [of "fst ?p4"]
    unfolding t time_val_def by simp_all
  have "time_val (gale_time_diff a b) - k * 2 ^ 128 = time_val (gale_time_diff a b) + (- k) * 2 ^ 128"
    by simp
  then have "(time_val (gale_time_diff a b) - k * 2 ^ 128) mod 2 ^ 128 = time_val (gale_time_diff a b) mod 2 ^ 128"
    by (simp only: mod_mult_self1)
  also have "\<dots> = time_val (gale_time_diff a b)"
    using lt by (rule mod_pos_pos_trivial)
  finally show ?thesis
    unfolding sum by (rule sym)
qed

text \<open>
  C17. \<^verbatim>\<open>gale_time_compare\<close> compares the signed 128-bit values: it returns
  the sign of their difference, so it is a total order on times.
\<close>

theorem gale_time_compare_sval:
  "gale_time_compare a b = sgn (time_sval a - time_sval b)"
proof -
  have lim: "0 \<le> uint (x :: u32)" "uint x < 4294967296" for x
    using uint_lt2p [of x] by simp_all
  have sg: "sgn (x - y) = (if x < y then -1 else if y < x then 1 else 0)" for x y :: int
    by (simp add: sgn_if)
  show ?thesis
    unfolding time_sval_def sg
    by (simp only: lex_less lex_eq lim simp_thms)
       (auto simp: gale_time_compare_def word_less_def word_uint_eq_iff)
qed

text \<open>
  C18. The time \<^verbatim>\<open>gale_time_now\<close> returns is later than the previous one
  (\<^verbatim>\<open>last\<close>) except in one case: the clock has not advanced past \<^verbatim>\<open>last\<close> and the
  lowest word of \<^verbatim>\<open>last\<close> is all ones. Then \<^verbatim>\<open>++last.frac_low\<close> wraps to zero
  without a carry into \<^verbatim>\<open>frac_high\<close> and time goes backwards, against the comment
  "Ensure monotonicity".
\<close>

theorem gale_time_now_advances:
  "gale_time_compare last_t (fst (gale_time_now last_t tv)) < 0 \<longleftrightarrow>
   \<not> (0 \<le> gale_time_compare last_t (gale_time_from tv) \<and> frac_low last_t = -1)"
proof (cases "gale_time_compare last_t (gale_time_from tv) < 0")
  case True
  then show ?thesis by (simp add: gale_time_now_def Let_def)
next
  case False
  have "gale_time_compare last_t (last_t\<lparr>frac_low := frac_low last_t + 1\<rparr>) < 0 \<longleftrightarrow>
        frac_low last_t \<noteq> -1"
    using word_less_succ [of "frac_low last_t"]
    by (auto simp: gale_time_compare_def)
  then show ?thesis
    using False by (simp add: gale_time_now_def Let_def)
qed

text \<open>
  C19. A \<^verbatim>\<open>struct timeval\<close> with seconds in the range of \<open>sec_low\<close> and
  microseconds below a million survives \<^verbatim>\<open>gale_time_from\<close> then \<^verbatim>\<open>gale_time_to\<close>
  without a warning, with its seconds exact and its microseconds at most 4 lower.
\<close>

theorem gale_time_to_from:
  assumes sec: "0 \<le> tv_sec tv" "tv_sec tv < 4294967296"
    and usec: "0 \<le> tv_usec tv" "tv_usec tv < 1000000"
  shows "\<not> snd (gale_time_to tv0 (gale_time_from tv))
         \<and> tv_sec (fst (gale_time_to tv0 (gale_time_from tv))) = tv_sec tv
         \<and> tv_usec tv - 4 \<le> tv_usec (fst (gale_time_to tv0 (gale_time_from tv)))
         \<and> tv_usec (fst (gale_time_to tv0 (gale_time_from tv))) \<le> tv_usec tv"
proof -
  define u where "u = tv_usec tv"
  define a where "a = (u * 4096) div 15625"
  have a1: "15625 * a \<le> u * 4096" and a2: "u * 4096 < 15625 * a + 15625"
    unfolding a_def using int_div_bounds [of 15625 "u * 4096"] by simp_all
  have a0: "0 \<le> a" and a3: "a \<le> 262143"
    using usec a1 a2 unfolding u_def by linarith+
  have fh: "uint (frac_high (gale_time_from tv)) = a * 16384"
  proof -
    have "trunc_div (tv_usec tv * 4096) 15625 * 16384 = a * 16384"
      using usec by (simp add: trunc_div_nonneg a_def u_def)
    moreover have "(a * 16384) mod 4294967296 = a * 16384"
      using a0 a3 by (intro mod_pos_pos_trivial) linarith+
    ultimately show ?thesis
      by (simp add: gale_time_from_def uint_word_of_int_eq take_bit_eq_mod del: of_int_mult)
  qed
  define r where "r = (a * 15625) div 4096"
  have us: "uint (frac_high (gale_time_from tv) div 16384 * 15625 div 4096) = r"
  proof -
    have "(a * 15625) mod 4294967296 = a * 15625"
      using a0 a3 by (intro mod_pos_pos_trivial) linarith+
    then show ?thesis
      using fh by (simp add: uint_div_distrib uint_word_ariths r_def)
  qed
  have r1: "4096 * r \<le> 15625 * a" and r2: "15625 * a < 4096 * r + 4096"
    unfolding r_def using int_div_bounds [of 4096 "a * 15625"] by (simp_all add: mult.commute)
  have "uint (sec_low (gale_time_from tv)) = tv_sec tv"
  proof -
    have "tv_sec tv mod 4294967296 = tv_sec tv"
      using sec by (intro mod_pos_pos_trivial) linarith+
    then show ?thesis by (simp add: gale_time_from_def uint_word_of_int_eq take_bit_eq_mod)
  qed
  moreover have "u - 4 \<le> r" and "r \<le> u"
    using a1 a2 r1 r2 by linarith+
  ultimately show ?thesis
    using us by (simp add: gale_time_to_def gale_time_from_def Let_def u_def)
qed

theorem gale_time_to_from_witness:
  "\<not> snd (gale_time_to \<lparr>tv_sec = 0, tv_usec = 0\<rparr> (gale_time_from \<lparr>tv_sec = 0, tv_usec = 7\<rparr>))
   \<and> tv_sec (fst (gale_time_to \<lparr>tv_sec = 0, tv_usec = 0\<rparr> (gale_time_from \<lparr>tv_sec = 0, tv_usec = 7\<rparr>))) = 0
   \<and> 3 \<le> tv_usec (fst (gale_time_to \<lparr>tv_sec = 0, tv_usec = 0\<rparr> (gale_time_from \<lparr>tv_sec = 0, tv_usec = 7\<rparr>)))"
  using gale_time_to_from [of "\<lparr>tv_sec = 0, tv_usec = 7\<rparr>" "\<lparr>tv_sec = 0, tv_usec = 0\<rparr>"] by simp

text \<open>
  C20. \<^verbatim>\<open>gale_time_to\<close> warns when \<^verbatim>\<open>sec_high\<close> is non-zero and stores
  \<^verbatim>\<open>UINT_MAX\<close>, but then overwrites both fields: the timeval it produces does not
  depend on \<^verbatim>\<open>sec_high\<close> at all, so a time past 2106 (or before 1970) is converted to
  its low 32 bits of seconds.
\<close>

theorem gale_time_to_ignores_sec_high:
  "fst (gale_time_to tv t) = fst (gale_time_to tv (t\<lparr>sec_high := 0\<rparr>))"
  by (simp add: gale_time_to_def Let_def)

text \<open>
  C21. For every C \<^verbatim>\<open>int\<close> \<open>sec\<close>, \<^verbatim>\<open>gale_time_seconds\<close> gives a time in
  \<open>[sec, sec + 1)\<close> seconds, whatever the uninitialised fraction words hold; the
  fraction itself is indeterminate.
\<close>

theorem gale_time_seconds_bounds:
  assumes "-2147483648 \<le> sec" and "sec < 2147483648"
  shows "sec * 18446744073709551616 \<le> time_sval (gale_time_seconds sec fh fl)
         \<and> time_sval (gale_time_seconds sec fh fl) < (sec + 1) * 18446744073709551616"
proof -
  have hi: "sint (sec_high (gale_time_seconds sec fh fl)) * 4294967296 + uint (sec_low (gale_time_seconds sec fh fl))
            = sec"
  proof (cases "sec < 0")
    case True
    have "sec mod 4294967296 = (sec + 4294967296) mod 4294967296" by simp
    also have "\<dots> = sec + 4294967296"
      using True assms by (intro mod_pos_pos_trivial) linarith+
    finally have "uint (word_of_int sec :: u32) = sec + 4294967296"
      by (simp add: uint_word_of_int_eq take_bit_eq_mod)
    then show ?thesis using True by (simp add: gale_time_seconds_def)
  next
    case False
    have "sec mod 4294967296 = sec"
      using False assms by (intro mod_pos_pos_trivial) linarith+
    then have "uint (word_of_int sec :: u32) = sec"
      by (simp add: uint_word_of_int_eq take_bit_eq_mod)
    then show ?thesis using False by (simp add: gale_time_seconds_def)
  qed
  have "time_sval (gale_time_seconds sec fh fl) = (sec * 4294967296 + uint fh) * 4294967296 + uint fl"
    using hi unfolding time_sval_def by (simp add: gale_time_seconds_def)
  then show ?thesis
    using uint_limb [of fh] uint_limb [of fl] by simp
qed

theorem gale_time_seconds_bounds_witness:
  "-18446744073709551616 \<le> time_sval (gale_time_seconds (-1) 0 0)
   \<and> time_sval (gale_time_seconds (-1) 0 0) < 0"
  using gale_time_seconds_bounds [of "-1" 0 0] by simp

text \<open>
  C22. \<^verbatim>\<open>gale_unpack_time\<close> reads back what \<^verbatim>\<open>gale_pack_time\<close> wrote and
  leaves the rest of the buffer.
\<close>

theorem gale_unpack_pack_time: "gale_unpack_time (gale_pack_time t @ r) = Some (t, r)"
  by (simp add: gale_unpack_time_def gale_pack_time_def)

text \<open>
  C23. \<^verbatim>\<open>gale_unpack_time\<close> fails exactly on buffers shorter than the sixteen
  bytes of a time.
\<close>

theorem gale_unpack_time_None: "gale_unpack_time d = None \<longleftrightarrow> length d < 16"
  by (auto simp: gale_unpack_time_def gale_unpack_u32_None_iff split: option.splits
      dest!: gale_unpack_u32_Some_drop)

end
