(* ===== verification/Link.thy ===== *)
theory Link
  imports Wire Time
begin

text \<open>
  The data of \<^verbatim>\<open>src/libgale/core_link.c\<close> (lines 11--113 and 627--668): the
  protocol constants, the packet, the state of the two protocol machines, the
  \<^verbatim>\<open>struct gale_link\<close> of one session and its constructor \<^verbatim>\<open>new_link\<close>, and the
  map type of \<^verbatim>\<open>libgale\<close> that holds the pending version-1 output.

  The C machines keep their state as a pair of function pointers (\<^verbatim>\<open>next\<close> and
  \<^verbatim>\<open>ready\<close>) and a requested length; the model names each function a pointer may
  hold by a constructor of \<open>ifn\<close>, \<open>iready\<close>, \<open>ofn\<close> and \<open>oready\<close>. The two
  pointers \<^verbatim>\<open>in_text\<close> and \<^verbatim>\<open>in_cid\<close> into the link's own fields are the slot
  names \<open>text_slot\<close> and \<open>cid_slot\<close>. The outgoing queue, a circular singly linked
  list of \<^verbatim>\<open>struct link\<close> nodes, lives in an explicit heap \<open>qheap\<close> of node
  addresses; \<open>qalloc\<close> is the allocator's next fresh address. A callback is modelled
  by whether it is registered (\<^verbatim>\<open>NULL\<close> or not). The pointers \<^verbatim>\<open>input\<close> and
  \<^verbatim>\<open>output\<close> to the two buffers are the fields \<open>input_buf\<close> and \<open>output_buf\<close>.
\<close>

subsection \<open>Protocol constants\<close>

definition opcode_puff :: u32 where "opcode_puff = 0"
definition opcode_will :: u32 where "opcode_will = 1"
definition opcode_gimme :: u32 where "opcode_gimme = 2"
definition opcode_publish :: u32 where "opcode_publish = 3"
definition opcode_watch :: u32 where "opcode_watch = 4"
definition opcode_forget :: u32 where "opcode_forget = 5"
definition opcode_complete :: u32 where "opcode_complete = 6"
definition opcode_assert :: u32 where "opcode_assert = 7"
definition opcode_retract :: u32 where "opcode_retract = 8"
definition opcode_fetch :: u32 where "opcode_fetch = 9"
definition opcode_miss :: u32 where "opcode_miss = 10"
definition opcode_supply :: u32 where "opcode_supply = 11"

definition SIZE_LIMIT :: nat where "SIZE_LIMIT = 262144"
definition PROTOCOL_VERSION :: nat where "PROTOCOL_VERSION = 1"
definition CID_LENGTH :: nat where "CID_LENGTH = 20"

declare opcode_puff_def [opcode_simps] opcode_will_def [opcode_simps]
  opcode_gimme_def [opcode_simps] opcode_publish_def [opcode_simps]
  opcode_watch_def [opcode_simps] opcode_forget_def [opcode_simps]
  opcode_complete_def [opcode_simps] opcode_assert_def [opcode_simps]
  opcode_retract_def [opcode_simps] opcode_fetch_def [opcode_simps]
  opcode_miss_def [opcode_simps] opcode_supply_def [opcode_simps]
  SIZE_LIMIT_def [opcode_simps] PROTOCOL_VERSION_def [opcode_simps]
  CID_LENGTH_def [opcode_simps]

subsection \<open>Packets and pending-output maps\<close>

record gale_packet =
  routing :: gtext
  content :: gdata

definition message_size :: "gale_packet \<Rightarrow> nat" where
  "message_size m = gale_u32_size + length (content m) + length (routing m) * gale_wch_size"

text \<open>
  The values stored in the output maps: the sentinels \<^verbatim>\<open>st_yes\<close> and \<^verbatim>\<open>st_no\<close>
  and, in \<^verbatim>\<open>out_supply\<close>, a pointer to the supplied data.
\<close>

datatype mval = St_yes | St_no | St_data gdata

text \<open>
  \<^verbatim>\<open>struct gale_map\<close> (C source not under \<^verbatim>\<open>src/\<close>, modelled from its use): a
  finite map from byte strings, as an association list with distinct keys.
  \<^verbatim>\<open>gale_map_add m k NULL\<close> removes \<open>k\<close>; \<^verbatim>\<open>gale_map_walk m NULL\<close> yields the first
  entry, the one with the least key.
\<close>

type_synonym gale_map = "(gdata \<times> mval) list"

definition gale_make_map :: gale_map where
  "gale_make_map = []"

definition gale_map_add :: "gale_map \<Rightarrow> gdata \<Rightarrow> mval option \<Rightarrow> gale_map" where
  "gale_map_add m k v =
     (let m' = filter (\<lambda>e. fst e \<noteq> k) m in
      case v of None \<Rightarrow> m' | Some x \<Rightarrow> (k, x) # m')"

definition gale_map_walk :: "gale_map \<Rightarrow> (gdata \<times> mval) option" where
  "gale_map_walk m = (case sort_key fst m of [] \<Rightarrow> None | e # _ \<Rightarrow> Some e)"

subsection \<open>The machine states\<close>

datatype ifn = Ifn_version | Ifn_opcode | Ifn_category_len | Ifn_message_category
  | Ifn_message_body | Ifn_text | Ifn_cid | Ifn_supply_data | Ifn_unknown

datatype iready = Input_always_ready | Ifn_message_ready | Ifn_text_ready | Ifn_cid_ready

text \<open>
  \<^verbatim>\<open>struct input_state\<close>: \<open>idata_len\<close> is the requested \<^verbatim>\<open>data.l\<close>, \<open>ibuf\<close> the
  bytes the input buffer has gathered towards it.
\<close>

record input_state =
  inext :: ifn
  iready :: iready
  idata_len :: nat
  ibuf :: gdata

datatype ofn = Ofn_version | Ofn_idle | Ofn_message | Ofn_msg_data | Ofn_text | Ofn_cid | Ofn_data

datatype oready = Output_always_ready | Ofn_idle_ready

record output_state =
  onext :: ofn
  oready :: oready

datatype text_slot = In_gimme | In_publish | In_watch | In_forget | In_complete
  | In_assert_cat | In_retract_cat

datatype cid_slot = In_assert_cid | In_retract_cid | In_fetch_cid | In_miss_cid | In_supply_cid

datatype shutdown_phase = No_shutdown | Do_shutdown | Done_shutdown

text \<open>\<^verbatim>\<open>struct link\<close>, a node of the outgoing queue.\<close>

record qnode =
  qmsg :: gale_packet
  qnext :: nat
  qwhen :: gale_time

subsection \<open>The link\<close>

record gale_link =
  fd :: int
  on_error :: bool
  on_empty :: bool
  on_message :: bool
  on_will :: bool
  on_subscribe :: bool
  input_buf :: "input_state option"
  in_opcode :: u32
  in_length :: u32
  in_msg :: "gale_packet option"
  in_puff :: "gale_packet option"
  in_will :: "gale_packet option"
  in_gimme :: gtext
  in_text :: text_slot
  in_version :: int
  in_publish :: gtext
  in_watch :: gtext
  in_forget :: gtext
  in_complete :: gtext
  in_assert_cid :: gdata
  in_assert_cat :: gtext
  in_retract_cid :: gdata
  in_retract_cat :: gtext
  in_fetch_cid :: gdata
  in_miss_cid :: gdata
  in_supply_cid :: gdata
  in_cid :: cid_slot
  in_supply_data :: gdata
  output_buf :: "output_state option"
  out_msg :: "gale_packet option"
  out_will :: "gale_packet option"
  out_text :: gtext
  out_gimme :: gtext
  out_queue :: "nat option"
  qheap :: "nat \<Rightarrow> qnode option"
  qalloc :: nat
  out_shutdown :: shutdown_phase
  queue_num :: int
  queue_mem :: nat
  out_publish :: gtext
  out_watch :: gale_map
  out_complete :: gale_map
  out_assert :: gale_map
  out_fetch :: gale_map
  out_supply :: gale_map
  out_cid :: gdata
  out_data :: gdata

text \<open>
  \<^verbatim>\<open>new_link\<close>. The C leaves \<^verbatim>\<open>in_text\<close>, \<^verbatim>\<open>in_cid\<close>, \<^verbatim>\<open>in_opcode\<close> and
  \<^verbatim>\<open>in_length\<close> uninitialised (the input machine sets them before any use) and
  zero-fills \<^verbatim>\<open>in_assert.cid\<close> and \<^verbatim>\<open>in_retract.cid\<close> through \<^verbatim>\<open>gale_create\<close>;
  the model fixes them to the first slot and to zero.
\<close>

definition new_link :: gale_link where
  "new_link = \<lparr>fd = -1,
     on_error = False, on_empty = False, on_message = False, on_will = False,
     on_subscribe = False,
     input_buf = None, in_opcode = 0, in_length = 0,
     in_msg = None, in_puff = None, in_will = None, in_gimme = [],
     in_text = In_gimme, in_version = -1,
     in_publish = [], in_watch = [], in_forget = [], in_complete = [],
     in_assert_cid = [], in_assert_cat = [], in_retract_cid = [], in_retract_cat = [],
     in_fetch_cid = [], in_miss_cid = [], in_supply_cid = [], in_cid = In_assert_cid,
     in_supply_data = [],
     output_buf = None, out_msg = None, out_will = None, out_text = [], out_gimme = [],
     out_queue = None, qheap = Map.empty, qalloc = 0, out_shutdown = No_shutdown,
     queue_num = 0, queue_mem = 0,
     out_publish = [], out_watch = gale_make_map, out_complete = gale_make_map,
     out_assert = gale_make_map, out_fetch = gale_make_map, out_supply = gale_make_map,
     out_cid = [], out_data = []\<rparr>"

subsection \<open>The slots behind \<^verbatim>\<open>in_text\<close> and \<^verbatim>\<open>in_cid\<close>\<close>

fun text_slot_get :: "gale_link \<Rightarrow> text_slot \<Rightarrow> gtext" where
  "text_slot_get l In_gimme = in_gimme l"
| "text_slot_get l In_publish = in_publish l"
| "text_slot_get l In_watch = in_watch l"
| "text_slot_get l In_forget = in_forget l"
| "text_slot_get l In_complete = in_complete l"
| "text_slot_get l In_assert_cat = in_assert_cat l"
| "text_slot_get l In_retract_cat = in_retract_cat l"

fun text_slot_set :: "gale_link \<Rightarrow> text_slot \<Rightarrow> gtext \<Rightarrow> gale_link" where
  "text_slot_set l In_gimme t = l\<lparr>in_gimme := t\<rparr>"
| "text_slot_set l In_publish t = l\<lparr>in_publish := t\<rparr>"
| "text_slot_set l In_watch t = l\<lparr>in_watch := t\<rparr>"
| "text_slot_set l In_forget t = l\<lparr>in_forget := t\<rparr>"
| "text_slot_set l In_complete t = l\<lparr>in_complete := t\<rparr>"
| "text_slot_set l In_assert_cat t = l\<lparr>in_assert_cat := t\<rparr>"
| "text_slot_set l In_retract_cat t = l\<lparr>in_retract_cat := t\<rparr>"

fun cid_slot_get :: "gale_link \<Rightarrow> cid_slot \<Rightarrow> gdata" where
  "cid_slot_get l In_assert_cid = in_assert_cid l"
| "cid_slot_get l In_retract_cid = in_retract_cid l"
| "cid_slot_get l In_fetch_cid = in_fetch_cid l"
| "cid_slot_get l In_miss_cid = in_miss_cid l"
| "cid_slot_get l In_supply_cid = in_supply_cid l"

fun cid_slot_set :: "gale_link \<Rightarrow> cid_slot \<Rightarrow> gdata \<Rightarrow> gale_link" where
  "cid_slot_set l In_assert_cid d = l\<lparr>in_assert_cid := d\<rparr>"
| "cid_slot_set l In_retract_cid d = l\<lparr>in_retract_cid := d\<rparr>"
| "cid_slot_set l In_fetch_cid d = l\<lparr>in_fetch_cid := d\<rparr>"
| "cid_slot_set l In_miss_cid d = l\<lparr>in_miss_cid := d\<rparr>"
| "cid_slot_set l In_supply_cid d = l\<lparr>in_supply_cid := d\<rparr>"

subsection \<open>Map facts\<close>

lemma gale_map_walk_None_iff [simp]: "gale_map_walk m = None \<longleftrightarrow> m = []"
proof -
  have "sort_key fst m = [] \<longleftrightarrow> m = []"
    by (metis length_0_conv length_sort)
  then show ?thesis
    unfolding gale_map_walk_def by (cases "sort_key fst m") auto
qed

lemma gale_map_walk_in: "gale_map_walk m = Some e \<Longrightarrow> e \<in> set m"
proof -
  assume "gale_map_walk m = Some e"
  then obtain xs where "sort_key fst m = e # xs"
    unfolding gale_map_walk_def by (cases "sort_key fst m") auto
  then have "e \<in> set (sort_key fst m)"
    by simp
  then show ?thesis by (simp only: set_sort)
qed

lemma map_of_gale_map_add [simp]:
  "map_of (gale_map_add m k v) k' = (if k' = k then v else map_of m k')"
proof -
  have "\<And>j. map_of (filter (\<lambda>e. fst e \<noteq> k) m) j = (if j = k then None else map_of m j)"
    by (induction m) auto
  then show ?thesis
    by (simp add: gale_map_add_def Let_def split: option.splits)
qed

lemma gale_map_add_None_Nil [simp]:
  "gale_map_add m k None = [] \<longleftrightarrow> (\<forall>e\<in>set m. fst e = k)"
  by (auto simp: gale_map_add_def filter_empty_conv)

lemma gale_map_add_Some_nonempty [simp]: "gale_map_add m k (Some v) \<noteq> []"
  by (simp add: gale_map_add_def)

end
