(* ===== verification/Input.thy ===== *)
theory Input
  imports Link
begin

text \<open>
  The input state machine of \<^verbatim>\<open>src/libgale/core_link.c\<close> (lines 115--406) and the
  input buffer that drives it. Each \<^verbatim>\<open>ist_*\<close> function sets the machine up to wait
  for a number of bytes; each \<^verbatim>\<open>ifn_*\<close> function consumes them once gathered. The
  model gives both the link and the machine state (\<^verbatim>\<open>inp\<close> and \<^verbatim>\<open>inp->private\<close>)
  and returns both, or the failed assertion.

  The input buffer (\<^verbatim>\<open>io.c\<close>, not under \<^verbatim>\<open>src/\<close>) is modelled from the
  specification (section 4.3): it gathers the requested bytes one at a time while the
  state's \<^verbatim>\<open>ready\<close> function allows it, and calls \<^verbatim>\<open>next\<close> on them when they are
  complete and the state is ready (\<open>input_settle\<close>); \<open>input_feed\<close> offers a byte
  string and returns what it could not take.
\<close>

subsection \<open>The slots an opcode writes\<close>

definition text_slot_of :: "u32 \<Rightarrow> text_slot option" where
  "text_slot_of op =
     (if op = opcode_gimme then Some In_gimme
      else if op = opcode_publish then Some In_publish
      else if op = opcode_watch then Some In_watch
      else if op = opcode_forget then Some In_forget
      else if op = opcode_complete then Some In_complete
      else if op = opcode_assert then Some In_assert_cat
      else if op = opcode_retract then Some In_retract_cat
      else None)"

definition cid_slot_of :: "u32 \<Rightarrow> cid_slot option" where
  "cid_slot_of op =
     (if op = opcode_assert then Some In_assert_cid
      else if op = opcode_retract then Some In_retract_cid
      else if op = opcode_fetch then Some In_fetch_cid
      else if op = opcode_miss then Some In_miss_cid
      else if op = opcode_supply then Some In_supply_cid
      else None)"

subsection \<open>Setting up a state: \<^verbatim>\<open>ist_*\<close>\<close>

definition ist_version :: "input_state \<Rightarrow> input_state" where
  "ist_version inp = inp\<lparr>inext := Ifn_version, iready := Input_always_ready,
                         idata_len := gale_u32_size\<rparr>"

definition ist_idle :: "gale_link \<Rightarrow> input_state \<Rightarrow> (gale_link \<times> input_state) result" where
  "ist_idle l inp =
     (if in_length l \<noteq> 0 then Inl (Assert_fail ''ist_idle'')
      else Inr (l, inp\<lparr>inext := Ifn_opcode, iready := Input_always_ready,
                       idata_len := 2 * gale_u32_size\<rparr>))"

definition ist_unknown :: "gale_link \<Rightarrow> input_state \<Rightarrow> (gale_link \<times> input_state) result" where
  "ist_unknown l inp =
     (if in_length l = 0 then ist_idle l inp
      else Inr (l, inp\<lparr>inext := Ifn_unknown, iready := Input_always_ready,
                       idata_len := min (unat (in_length l)) SIZE_LIMIT\<rparr>))"

definition ist_message :: "gale_link \<Rightarrow> input_state \<Rightarrow> (gale_link \<times> input_state) result" where
  "ist_message l inp =
     (if gale_u32_size > unat (in_length l) then ist_unknown l inp
      else Inr (l, inp\<lparr>inext := Ifn_category_len, idata_len := gale_u32_size,
                       iready := (if in_opcode l = opcode_puff then Ifn_message_ready
                                  else Input_always_ready)\<rparr>))"

definition ist_text :: "gale_link \<Rightarrow> input_state \<Rightarrow> (gale_link \<times> input_state) result" where
  "ist_text l inp =
     (case text_slot_of (in_opcode l) of
        None \<Rightarrow> Inl (Assert_fail ''ist_text'')
      | Some s \<Rightarrow> Inr (l\<lparr>in_text := s\<rparr>,
                      inp\<lparr>inext := Ifn_text, iready := Ifn_text_ready,
                          idata_len := unat (in_length l)\<rparr>))"

definition ist_cid :: "gale_link \<Rightarrow> input_state \<Rightarrow> (gale_link \<times> input_state) result" where
  "ist_cid l inp =
     (if unat (in_length l) < CID_LENGTH then ist_unknown l inp
      else case cid_slot_of (in_opcode l) of
        None \<Rightarrow> Inl (Assert_fail ''ist_cid'')
      | Some s \<Rightarrow> Inr (l\<lparr>in_cid := s\<rparr>,
                      inp\<lparr>inext := Ifn_cid, iready := Ifn_cid_ready, idata_len := CID_LENGTH\<rparr>))"

subsection \<open>Consuming the gathered bytes: \<^verbatim>\<open>ifn_*\<close>\<close>

text \<open>\<open>d\<close> is the gathered \<^verbatim>\<open>inp->data\<close>; \<open>l - d\<close> is \<^verbatim>\<open>l->in_length -= inp->data.l\<close>.\<close>

definition consume :: "gale_link \<Rightarrow> gdata \<Rightarrow> gale_link" where
  "consume l d = l\<lparr>in_length := in_length l - of_nat (length d)\<rparr>"

definition ifn_version :: "gale_link \<Rightarrow> input_state \<Rightarrow> gdata \<Rightarrow> (gale_link \<times> input_state) result" where
  "ifn_version l inp d =
     (case gale_unpack_u32 d of
        Some (v, []) \<Rightarrow>
          ist_idle (l\<lparr>in_version := (if unat v > PROTOCOL_VERSION then int PROTOCOL_VERSION
                                      else int (unat v)),
                      in_length := 0\<rparr>) inp
      | _ \<Rightarrow> Inl (Assert_fail ''ifn_version''))"

definition ifn_opcode :: "gale_link \<Rightarrow> input_state \<Rightarrow> gdata \<Rightarrow> (gale_link \<times> input_state) result" where
  "ifn_opcode l inp d =
     (case gale_unpack_u32 d of
        Some (op, d1) \<Rightarrow>
          (case gale_unpack_u32 d1 of
             Some (len, []) \<Rightarrow>
               (let l' = l\<lparr>in_opcode := op, in_length := len\<rparr> in
                if unat len > SIZE_LIMIT then ist_unknown l' inp
                else if op = opcode_puff \<or> op = opcode_will then ist_message l' inp
                else if op = opcode_gimme \<or> op = opcode_publish \<or> op = opcode_watch
                        \<or> op = opcode_forget \<or> op = opcode_complete then ist_text l' inp
                else if op = opcode_assert \<or> op = opcode_retract \<or> op = opcode_fetch
                        \<or> op = opcode_miss \<or> op = opcode_supply then ist_cid l' inp
                else ist_unknown l' inp)
           | _ \<Rightarrow> Inl (Assert_fail ''ifn_opcode''))
      | None \<Rightarrow> Inl (Assert_fail ''ifn_opcode''))"

definition ifn_category_len ::
  "gale_link \<Rightarrow> input_state \<Rightarrow> gdata \<Rightarrow> (gale_link \<times> input_state) result" where
  "ifn_category_len l inp d =
     (if length d > unat (in_length l) then Inl (Assert_fail ''ifn_category_len'')
      else let l1 = consume l d in
        case gale_unpack_u32 d of
          Some (u, []) \<Rightarrow>
            (if in_msg l1 \<noteq> None then Inl (Assert_fail ''ifn_category_len'')
             else if unat u > unat (in_length l1) then ist_unknown l1 inp
             else Inr (l1, inp\<lparr>inext := Ifn_message_category, idata_len := unat u\<rparr>))
        | _ \<Rightarrow> Inl (Assert_fail ''ifn_category_len''))"

definition ifn_message_category ::
  "gale_link \<Rightarrow> input_state \<Rightarrow> gdata \<Rightarrow> (gale_link \<times> input_state) result" where
  "ifn_message_category l inp d =
     (if length d > unat (in_length l) then Inl (Assert_fail ''ifn_message_category'')
      else let l1 = consume l d in
        case gale_unpack_text_len (length d div gale_wch_size) d of
          Some (t, _) \<Rightarrow>
            Inr (l1\<lparr>in_msg := Some \<lparr>routing = t, content = []\<rparr>\<rparr>,
                 inp\<lparr>inext := Ifn_message_body, idata_len := unat (in_length l1),
                     iready := Input_always_ready\<rparr>)
        | None \<Rightarrow> ist_unknown (l1\<lparr>in_msg := None\<rparr>) inp)"

text \<open>
  The body: a reserved \<open>u32\<close> (a non-zero value only draws a warning) and the
  content, the rest of the frame. A body shorter than four bytes leaves the reserved
  field unread and the whole body becomes the content.
\<close>

definition ifn_message_body ::
  "gale_link \<Rightarrow> input_state \<Rightarrow> gdata \<Rightarrow> (gale_link \<times> input_state) result" where
  "ifn_message_body l inp d =
     (let l1 = consume l d in
      if in_length l1 \<noteq> 0 then Inl (Assert_fail ''ifn_message_body'')
      else case in_msg l1 of
        None \<Rightarrow> Inl (Assert_fail ''ifn_message_body'')
      | Some m \<Rightarrow>
          (let m' = m\<lparr>content := (case gale_unpack_u32 d of Some (_, r) \<Rightarrow> r | None \<Rightarrow> d)\<rparr> in
           if in_opcode l1 = opcode_puff then
             (if in_puff l1 \<noteq> None then Inl (Assert_fail ''ifn_message_body'')
              else ist_idle (l1\<lparr>in_puff := Some m', in_msg := None\<rparr>) inp)
           else if in_opcode l1 = opcode_will then
             ist_idle (l1\<lparr>in_will := Some m', in_msg := None\<rparr>) inp
           else Inl (Assert_fail ''ifn_message_body'')))"

definition ifn_text :: "gale_link \<Rightarrow> input_state \<Rightarrow> gdata \<Rightarrow> (gale_link \<times> input_state) result" where
  "ifn_text l inp d =
     (if unat (in_length l) \<noteq> length d then Inl (Assert_fail ''ifn_text'')
      else let l1 = consume l d in
        case gale_unpack_text_len (length d div gale_wch_size) d of
          Some (t, _) \<Rightarrow> ist_idle (text_slot_set l1 (in_text l1) t) inp
        | None \<Rightarrow> ist_unknown l1 inp)"

definition ifn_supply_data ::
  "gale_link \<Rightarrow> input_state \<Rightarrow> gdata \<Rightarrow> (gale_link \<times> input_state) result" where
  "ifn_supply_data l inp d =
     (if length d \<noteq> unat (in_length l) then Inl (Assert_fail ''ifn_supply_data'')
      else ist_idle ((consume l d)\<lparr>in_supply_data := d\<rparr>) inp)"

definition ifn_cid :: "gale_link \<Rightarrow> input_state \<Rightarrow> gdata \<Rightarrow> (gale_link \<times> input_state) result" where
  "ifn_cid l inp d =
     (if length d \<noteq> CID_LENGTH then Inl (Assert_fail ''ifn_cid'')
      else let l1 = cid_slot_set (consume l d) (in_cid l) d; op = in_opcode l in
        if op = opcode_assert \<or> op = opcode_retract then ist_text l1 inp
        else if op = opcode_fetch \<or> op = opcode_miss then ist_idle l1 inp
        else if op = opcode_supply then
          Inr (l1, inp\<lparr>inext := Ifn_supply_data, idata_len := unat (in_length l1),
                       iready := Input_always_ready\<rparr>)
        else Inl (Assert_fail ''ifn_cid''))"

definition ifn_unknown :: "gale_link \<Rightarrow> input_state \<Rightarrow> gdata \<Rightarrow> (gale_link \<times> input_state) result" where
  "ifn_unknown l inp d =
     (if length d > unat (in_length l) then Inl (Assert_fail ''ifn_unknown'')
      else ist_unknown (consume l d) inp)"

subsection \<open>Readiness: \<^verbatim>\<open>input_always_ready\<close>, \<^verbatim>\<open>ifn_*_ready\<close>\<close>

text \<open>
  Coalescing kinds (\<^verbatim>\<open>gimme\<close>, \<^verbatim>\<open>publish\<close>) are always ready; the other texts,
  the content ids and the puff wait until the caller has drained their slot.
\<close>

definition ifn_message_ready :: "gale_link \<Rightarrow> bool" where
  "ifn_message_ready l = (in_puff l = None)"

definition ifn_text_ready :: "gale_link \<Rightarrow> bool" where
  "ifn_text_ready l =
     (if in_opcode l = opcode_gimme \<or> in_opcode l = opcode_publish then True
      else text_slot_get l (in_text l) = [])"

definition ifn_cid_ready :: "gale_link \<Rightarrow> bool" where
  "ifn_cid_ready l = (cid_slot_get l (in_cid l) = [])"

text \<open>\<^verbatim>\<open>input_buffer_ready\<close>: the state's \<^verbatim>\<open>ready\<close> function applied.\<close>

definition input_ready :: "gale_link \<Rightarrow> input_state \<Rightarrow> bool" where
  "input_ready l inp =
     (case iready inp of
        Input_always_ready \<Rightarrow> True
      | Ifn_message_ready \<Rightarrow> ifn_message_ready l
      | Ifn_text_ready \<Rightarrow> ifn_text_ready l
      | Ifn_cid_ready \<Rightarrow> ifn_cid_ready l)"

subsection \<open>The input buffer\<close>

definition input_fire :: "gale_link \<Rightarrow> input_state \<Rightarrow> (gale_link \<times> input_state) result" where
  "input_fire l inp =
     (let d = ibuf inp; inp0 = inp\<lparr>ibuf := []\<rparr> in
      case inext inp of
        Ifn_version \<Rightarrow> ifn_version l inp0 d
      | Ifn_opcode \<Rightarrow> ifn_opcode l inp0 d
      | Ifn_category_len \<Rightarrow> ifn_category_len l inp0 d
      | Ifn_message_category \<Rightarrow> ifn_message_category l inp0 d
      | Ifn_message_body \<Rightarrow> ifn_message_body l inp0 d
      | Ifn_text \<Rightarrow> ifn_text l inp0 d
      | Ifn_cid \<Rightarrow> ifn_cid l inp0 d
      | Ifn_supply_data \<Rightarrow> ifn_supply_data l inp0 d
      | Ifn_unknown \<Rightarrow> ifn_unknown l inp0 d)"

definition input_full :: "input_state \<Rightarrow> bool" where
  "input_full inp \<longleftrightarrow> length (ibuf inp) = idata_len inp"

text \<open>
  A state whose request is complete fires at once; states requesting no bytes can
  follow one another (an empty category, an empty body), at most three in a row.
  \<open>settle_rank\<close> counts how many more can follow and bounds the loop.
\<close>

fun stage_rank :: "ifn \<Rightarrow> nat" where
  "stage_rank Ifn_text = 1"
| "stage_rank Ifn_message_body = 1"
| "stage_rank Ifn_supply_data = 1"
| "stage_rank Ifn_message_category = 2"
| "stage_rank _ = 3"

definition settle_rank :: "input_state \<Rightarrow> nat" where
  "settle_rank inp = (if input_full inp then stage_rank (inext inp) else 0)"

text \<open>\<open>rank_below k r\<close>: a fired state that does not fail has rank below \<open>k\<close>.\<close>

definition rank_below :: "nat \<Rightarrow> (gale_link \<times> input_state) result \<Rightarrow> bool" where
  "rank_below k r = (case r of Inl _ \<Rightarrow> True | Inr (_, inp') \<Rightarrow> settle_rank inp' < k)"

subsection \<open>Each step lowers the rank\<close>

lemmas ready_defs = input_ready_def ifn_message_ready_def ifn_text_ready_def ifn_cid_ready_def

lemma rank_below_Inl [simp]: "rank_below k (Inl e)"
  by (simp add: rank_below_def)

lemma rank_below_Inr [simp]: "rank_below k (Inr (l, inp)) = (settle_rank inp < k)"
  by (simp add: rank_below_def)

lemma ist_idle_rank [simp]: "ibuf inp = [] \<Longrightarrow> 0 < k \<Longrightarrow> rank_below k (ist_idle l inp)"
  by (simp add: ist_idle_def settle_rank_def input_full_def)

lemma ist_unknown_rank [simp]: "ibuf inp = [] \<Longrightarrow> 0 < k \<Longrightarrow> rank_below k (ist_unknown l inp)"
  by (simp add: ist_unknown_def settle_rank_def input_full_def SIZE_LIMIT_def
      unat_eq_zero min_def)

lemma ist_message_rank [simp]: "ibuf inp = [] \<Longrightarrow> 0 < k \<Longrightarrow> rank_below k (ist_message l inp)"
  by (simp add: ist_message_def settle_rank_def input_full_def)

lemma ist_cid_rank [simp]: "ibuf inp = [] \<Longrightarrow> 0 < k \<Longrightarrow> rank_below k (ist_cid l inp)"
  by (simp add: ist_cid_def settle_rank_def input_full_def CID_LENGTH_def
      split: option.split)

lemma ist_text_rank [simp]: "ibuf inp = [] \<Longrightarrow> 1 < k \<Longrightarrow> rank_below k (ist_text l inp)"
  by (simp add: ist_text_def settle_rank_def input_full_def split: option.split)

lemma rank_below_mono: "rank_below j r \<Longrightarrow> j \<le> k \<Longrightarrow> rank_below k r"
  by (auto simp: rank_below_def split: sum.splits)

lemma ifn_version_rank: "ibuf inp = [] \<Longrightarrow> 1 \<le> k \<Longrightarrow> rank_below k (ifn_version l inp d)"
  by (simp add: ifn_version_def split: option.split prod.split list.split)

lemma ifn_opcode_rank: "ibuf inp = [] \<Longrightarrow> 2 \<le> k \<Longrightarrow> rank_below k (ifn_opcode l inp d)"
  by (simp add: ifn_opcode_def Let_def split: option.split prod.split list.split)

lemma ifn_category_len_rank: "ibuf inp = [] \<Longrightarrow> 3 \<le> k \<Longrightarrow> rank_below k (ifn_category_len l inp d)"
  by (simp add: ifn_category_len_def Let_def settle_rank_def input_full_def
      split: option.split prod.split list.split)

lemma ifn_message_category_rank: "ibuf inp = [] \<Longrightarrow> 2 \<le> k \<Longrightarrow> rank_below k (ifn_message_category l inp d)"
  by (simp add: ifn_message_category_def Let_def settle_rank_def input_full_def
      split: option.split prod.split)

lemma ifn_message_body_rank: "ibuf inp = [] \<Longrightarrow> 1 \<le> k \<Longrightarrow> rank_below k (ifn_message_body l inp d)"
  by (simp add: ifn_message_body_def Let_def split: option.split)

lemma ifn_text_rank: "ibuf inp = [] \<Longrightarrow> 1 \<le> k \<Longrightarrow> rank_below k (ifn_text l inp d)"
  by (simp add: ifn_text_def Let_def split: option.split prod.split)

lemma ifn_supply_data_rank: "ibuf inp = [] \<Longrightarrow> 1 \<le> k \<Longrightarrow> rank_below k (ifn_supply_data l inp d)"
  by (simp add: ifn_supply_data_def)

lemma ifn_cid_rank: "ibuf inp = [] \<Longrightarrow> 3 \<le> k \<Longrightarrow> rank_below k (ifn_cid l inp d)"
  by (simp add: ifn_cid_def Let_def settle_rank_def input_full_def)

lemma ifn_unknown_rank: "ibuf inp = [] \<Longrightarrow> 1 \<le> k \<Longrightarrow> rank_below k (ifn_unknown l inp d)"
  by (simp add: ifn_unknown_def)

lemmas ifn_ranks [simp] = ifn_version_rank ifn_opcode_rank ifn_category_len_rank
  ifn_message_category_rank ifn_message_body_rank ifn_text_rank ifn_supply_data_rank
  ifn_cid_rank ifn_unknown_rank

lemma input_fire_rank: "rank_below (stage_rank (inext inp)) (input_fire l inp)"
  by (cases "inext inp") (simp_all add: input_fire_def Let_def)

end
