(* ===== verification/Input_Buffer.thy ===== *)
theory Input_Buffer
  imports Input
begin

text \<open>
  The input buffer of \<^verbatim>\<open>io.c\<close> (modelled from the specification, section 4.3)
  driving the input machine of \<^verbatim>\<open>core_link.c\<close>: \<open>input_settle\<close> fires the state
  while it is ready and its request is complete; \<open>input_feed\<close> offers bytes one at a
  time and stops at the first byte the machine is not ready for, returning the rest.
  Together they model \<^verbatim>\<open>input_buffer_read\<close> on the bytes the peer has sent.
\<close>

function input_settle :: "gale_link \<Rightarrow> input_state \<Rightarrow> (gale_link \<times> input_state) result" where
  "input_settle l inp =
     (if input_ready l inp \<and> input_full inp then
        (case input_fire l inp of
           Inl e \<Rightarrow> Inl e
         | Inr (l', inp') \<Rightarrow> input_settle l' inp')
      else Inr (l, inp))"
  by pat_completeness auto
termination
proof (relation "measure (\<lambda>(l, inp). settle_rank inp)")
  fix l inp r l' inp'
  assume full: "input_ready l inp \<and> input_full inp" and r: "input_fire l inp = Inr r"
    and lr: "(l', inp') = r"
  have "rank_below (stage_rank (inext inp)) (input_fire l inp)"
    by (rule input_fire_rank)
  with r lr full show "((l', inp'), l, inp) \<in> measure (\<lambda>(l, inp). settle_rank inp)"
    by (auto simp: settle_rank_def)
qed simp


declare input_settle.simps [simp del]

fun input_feed :: "gale_link \<Rightarrow> input_state \<Rightarrow> gdata \<Rightarrow> (gale_link \<times> input_state \<times> gdata) result" where
  "input_feed l inp [] =
     (case input_settle l inp of Inl e \<Rightarrow> Inl e | Inr (l', inp') \<Rightarrow> Inr (l', inp', []))"
| "input_feed l inp (b # bs) =
     (case input_settle l inp of
        Inl e \<Rightarrow> Inl e
      | Inr (l', inp') \<Rightarrow>
          if input_ready l' inp' \<and> length (ibuf inp') < idata_len inp'
          then input_feed l' (inp'\<lparr>ibuf := ibuf inp' @ [b]\<rparr>) bs
          else Inr (l', inp', b # bs))"

text \<open>
  The machine state \<^verbatim>\<open>on_read\<close> creates (\<^verbatim>\<open>ist_version\<close> on a fresh state, lines
  718--723), the state \<^verbatim>\<open>ist_idle\<close> waits in between frames, and the shape of a
  frame on the wire (specification, section 4.2): opcode, body length, body.
\<close>

definition initial_input :: input_state where
  "initial_input = ist_version \<lparr>inext = Ifn_version, iready = Input_always_ready, idata_len = 0,
                                ibuf = []\<rparr>"

definition idle_input :: input_state where
  "idle_input = \<lparr>inext = Ifn_opcode, iready = Input_always_ready, idata_len = 2 * gale_u32_size, ibuf = []\<rparr>"

text \<open>A frame of the protocol generations 0 and 1 as it travels on the wire.\<close>

definition wire_frame :: "u32 \<Rightarrow> gdata \<Rightarrow> gdata" where
  "wire_frame op body = gale_pack_u32 op @ gale_pack_u32 (of_nat (length body)) @ body"

definition is_text_opcode :: "u32 \<Rightarrow> bool" where
  "is_text_opcode op \<longleftrightarrow> op = opcode_gimme \<or> op = opcode_publish \<or> op = opcode_watch
      \<or> op = opcode_forget \<or> op = opcode_complete"

subsection \<open>Feeding bytes\<close>

lemma input_ready_ibuf [simp]: "input_ready l (inp\<lparr>ibuf := b\<rparr>) = input_ready l inp"
  by (simp add: ready_defs)

lemma input_settle_stop:
  "\<not> (input_ready l inp \<and> input_full inp) \<Longrightarrow> input_settle l inp = Inr (l, inp)"
  by (subst input_settle.simps) auto

lemma input_settle_fire:
  "input_ready l inp \<Longrightarrow> input_full inp \<Longrightarrow>
   input_settle l inp = (case input_fire l inp of Inl e \<Rightarrow> Inl e | Inr (l', inp') \<Rightarrow> input_settle l' inp')"
  by (simp add: input_settle.simps)

lemma input_feed_cong:
  "input_settle l inp = input_settle l' inp' \<Longrightarrow> input_feed l inp ys = input_feed l' inp' ys"
  by (cases ys) simp_all

lemma input_feed_append:
  assumes "input_ready l inp" and "length (ibuf inp) + length xs \<le> idata_len inp"
  shows "input_feed l inp (xs @ ys) =
         (if xs = [] then input_feed l inp ys else input_feed l (inp\<lparr>ibuf := ibuf inp @ xs\<rparr>) ys)"
  using assms
proof (induction xs arbitrary: inp)
  case Nil
  then show ?case by simp
next
  case (Cons x xs)
  have nf: "\<not> input_full inp"
    using Cons.prems(2) by (simp add: input_full_def)
  let ?inp = "inp\<lparr>ibuf := ibuf inp @ [x]\<rparr>"
  have "input_feed l inp ((x # xs) @ ys) = input_feed l ?inp (xs @ ys)"
    using Cons.prems(1,2) nf by (simp add: input_settle_stop)
  also have "\<dots> = (if xs = [] then input_feed l ?inp ys
                   else input_feed l (?inp\<lparr>ibuf := ibuf ?inp @ xs\<rparr>) ys)"
    using Cons.prems by (intro Cons.IH) simp_all
  finally show ?case by simp
qed

lemma input_feed_fire:
  assumes "input_ready l inp" and "length (ibuf inp) + length xs = idata_len inp"
    and "input_fire l (inp\<lparr>ibuf := ibuf inp @ xs\<rparr>) = Inr (l', inp')"
  shows "input_feed l inp (xs @ ys) = input_feed l' inp' ys"
proof -
  have full: "input_full (inp\<lparr>ibuf := ibuf inp @ xs\<rparr>)"
    using assms(2) by (simp add: input_full_def)
  have "input_feed l inp (xs @ ys) = input_feed l (inp\<lparr>ibuf := ibuf inp @ xs\<rparr>) ys"
    using input_feed_append [OF assms(1)] assms(2) by (cases "xs = []") simp_all
  also have "\<dots> = input_feed l' inp' ys"
    using assms(1,3) full by (intro input_feed_cong) (simp add: input_settle_fire)
  finally show ?thesis .
qed

lemma input_feed_fire_fail:
  assumes "input_ready l inp" and "length (ibuf inp) + length xs = idata_len inp"
    and "input_fire l (inp\<lparr>ibuf := ibuf inp @ xs\<rparr>) = Inl e"
  shows "input_feed l inp (xs @ ys) = Inl e"
proof -
  have full: "input_full (inp\<lparr>ibuf := ibuf inp @ xs\<rparr>)"
    using assms(2) by (simp add: input_full_def)
  have "input_feed l inp (xs @ ys) = input_feed l (inp\<lparr>ibuf := ibuf inp @ xs\<rparr>) ys"
    using input_feed_append [OF assms(1)] assms(2) by (cases "xs = []") simp_all
  also have "input_settle l (inp\<lparr>ibuf := ibuf inp @ xs\<rparr>) = Inl e"
    using assms(1,3) full by (simp add: input_settle_fire)
  then have "input_feed l (inp\<lparr>ibuf := ibuf inp @ xs\<rparr>) ys = Inl e"
    by (cases ys) simp_all
  finally show ?thesis .
qed

subsection \<open>Decoding whole frames\<close>

lemma idle_input_eq:
  "ibuf inp = [] \<Longrightarrow> inp\<lparr>inext := Ifn_opcode, iready := Input_always_ready, idata_len := 8\<rparr> = idle_input"
  by (cases inp) (simp add: idle_input_def)

lemma ist_idle_zero: "in_length l = 0 \<Longrightarrow> ibuf inp = [] \<Longrightarrow> ist_idle l inp = Inr (l, idle_input)"
  by (simp add: ist_idle_def idle_input_eq)

lemma unat_of_nat_small: "n \<le> SIZE_LIMIT \<Longrightarrow> unat (of_nat n :: u32) = n"
  by (simp add: unat_of_nat SIZE_LIMIT_def)

lemma gale_unpack_pack_text_len_Nil [simp]:
  "gale_unpack_text_len (length t) (gale_pack_text_len t) = Some (t, [])"
  using gale_unpack_pack_text_len [of t "[]"] by simp

lemma text_slot_get_upd [simp]:
  "text_slot_get (l\<lparr>in_opcode := op\<rparr>) s = text_slot_get l s"
  "text_slot_get (l\<lparr>in_length := n\<rparr>) s = text_slot_get l s"
  "text_slot_get (l\<lparr>in_text := s'\<rparr>) s = text_slot_get l s"
  by (cases s; simp)+

lemma text_slot_set_upd [simp]:
  "in_length (text_slot_set l s t) = in_length l"
  "in_opcode (text_slot_set l s t) = in_opcode l"
  "in_text (text_slot_set l s t) = in_text l"
  by (cases s; simp)+

lemma is_text_opcode_not_message:
  "is_text_opcode op \<Longrightarrow> \<not> (op = opcode_puff \<or> op = opcode_will)"
  by (auto simp: is_text_opcode_def opcode_simps)

lemma ifn_opcode_text:
  assumes "is_text_opcode op" and "text_slot_of op = Some s" and "n \<le> SIZE_LIMIT"
  shows "ifn_opcode l inp (gale_pack_u32 op @ gale_pack_u32 (of_nat n)) =
         Inr (l\<lparr>in_opcode := op, in_length := of_nat n, in_text := s\<rparr>,
              inp\<lparr>inext := Ifn_text, iready := Ifn_text_ready, idata_len := n\<rparr>)"
proof -
  have "unat (of_nat n :: u32) = n" using assms(3) by (rule unat_of_nat_small)
  moreover have "\<not> n > SIZE_LIMIT" using assms(3) by simp
  ultimately show ?thesis
    using assms(1,2) is_text_opcode_not_message [OF assms(1)]
    using gale_unpack_pack_u32 [of "of_nat n" "[]"]
    by (simp add: ifn_opcode_def ist_text_def is_text_opcode_def)
qed

lemma input_feed_text_frame:
  assumes op: "is_text_opcode op" and slot: "text_slot_of op = Some s"
    and bound: "2 * length t \<le> SIZE_LIMIT"
    and rdy: "op = opcode_gimme \<or> op = opcode_publish \<or> text_slot_get l s = []"
  shows "input_feed l idle_input (wire_frame op (gale_pack_text_len t) @ ys) =
         input_feed (text_slot_set (l\<lparr>in_opcode := op, in_text := s, in_length := 0\<rparr>) s t)
           idle_input ys"
proof -
  let ?n = "2 * length t"
  let ?hdr = "gale_pack_u32 op @ gale_pack_u32 (of_nat ?n)"
  let ?l1 = "l\<lparr>in_opcode := op, in_length := of_nat ?n, in_text := s\<rparr>"
  let ?T = "idle_input\<lparr>inext := Ifn_text, iready := Ifn_text_ready, idata_len := ?n\<rparr>"
  have n: "unat (of_nat ?n :: u32) = ?n" using bound by (rule unat_of_nat_small)
  have fire1: "input_fire l (idle_input\<lparr>ibuf := ibuf idle_input @ ?hdr\<rparr>) = Inr (?l1, ?T)"
    using ifn_opcode_text [OF op slot bound, of l idle_input]
    by (simp add: input_fire_def idle_input_def)
  have step1: "input_feed l idle_input (?hdr @ gale_pack_text_len t @ ys) =
               input_feed ?l1 ?T (gale_pack_text_len t @ ys)"
    by (rule input_feed_fire [OF _ _ fire1]) (simp_all add: ready_defs idle_input_def)
  have rdyT: "input_ready ?l1 ?T"
    using rdy slot by (auto simp: ready_defs text_slot_of_def split: if_splits)
  have fire2: "input_fire ?l1 (?T\<lparr>ibuf := ibuf ?T @ gale_pack_text_len t\<rparr>) =
      Inr (text_slot_set (l\<lparr>in_opcode := op, in_text := s, in_length := 0\<rparr>) s t, idle_input)"
    using n
    by (simp add: input_fire_def idle_input_def ifn_text_def consume_def ist_idle_def
        idle_input_eq)
  have step2: "input_feed ?l1 ?T (gale_pack_text_len t @ ys) =
      input_feed (text_slot_set (l\<lparr>in_opcode := op, in_text := s, in_length := 0\<rparr>) s t)
        idle_input ys"
    by (rule input_feed_fire [OF rdyT _ fire2]) (simp add: idle_input_def)
  show ?thesis
    using step1 step2 by (simp add: wire_frame_def)
qed


lemma gale_unpack_pack_u32_Nil [simp]: "gale_unpack_u32 (gale_pack_u32 x) = Some (x, [])"
  using gale_unpack_pack_u32 [of x "[]"] by simp

lemma input_feed_idle_Nil [simp]: "input_feed l idle_input [] = Inr (l, idle_input, [])"
  by (simp add: input_settle_stop input_full_def idle_input_def)

lemma input_feed_version:
  "input_feed l initial_input (gale_pack_u32 v @ ys) =
   input_feed (l\<lparr>in_version := (if unat v > PROTOCOL_VERSION then int PROTOCOL_VERSION
                                else int (unat v)), in_length := 0\<rparr>) idle_input ys"
proof (rule input_feed_fire)
  show "input_ready l initial_input"
    by (simp add: ready_defs initial_input_def ist_version_def)
  show "length (ibuf initial_input) + length (gale_pack_u32 v) = idata_len initial_input"
    by (simp add: initial_input_def ist_version_def)
  show "input_fire l (initial_input\<lparr>ibuf := ibuf initial_input @ gale_pack_u32 v\<rparr>) =
    Inr (l\<lparr>in_version := (if unat v > PROTOCOL_VERSION then int PROTOCOL_VERSION
                          else int (unat v)), in_length := 0\<rparr>, idle_input)"
    by (simp add: input_fire_def initial_input_def ist_version_def ifn_version_def ist_idle_def
        idle_input_def)
qed

lemma is_text_opcode_publish [simp]: "is_text_opcode opcode_publish"
  and is_text_opcode_watch [simp]: "is_text_opcode opcode_watch"
  by (simp_all add: is_text_opcode_def)

lemma text_slot_of_publish [simp]: "text_slot_of opcode_publish = Some In_publish"
  and text_slot_of_watch [simp]: "text_slot_of opcode_watch = Some In_watch"
  by (simp_all add: text_slot_of_def opcode_simps)

lemma input_settle_idle [simp]: "input_settle l idle_input = Inr (l, idle_input)"
  by (simp add: input_settle_stop input_full_def idle_input_def)

lemma ifn_opcode_cid:
  assumes "cid_slot_of op = Some s" and "CID_LENGTH \<le> n" and "n \<le> SIZE_LIMIT"
  shows "ifn_opcode l inp (gale_pack_u32 op @ gale_pack_u32 (of_nat n)) =
         Inr (l\<lparr>in_opcode := op, in_length := of_nat n, in_cid := s\<rparr>,
              inp\<lparr>inext := Ifn_cid, iready := Ifn_cid_ready, idata_len := CID_LENGTH\<rparr>)"
proof -
  have n: "unat (of_nat n :: u32) = n" using assms(3) by (rule unat_of_nat_small)
  have op: "op = opcode_assert \<or> op = opcode_retract \<or> op = opcode_fetch \<or> op = opcode_miss
            \<or> op = opcode_supply"
    using assms(1) by (auto simp: cid_slot_of_def split: if_splits)
  show ?thesis
    using op assms n gale_unpack_pack_u32 [of "of_nat n" "[]"]
    by (auto simp: ifn_opcode_def ist_cid_def opcode_simps)
qed

lemma input_feed_assert_cid:
  assumes c: "length c = CID_LENGTH" and bound: "CID_LENGTH + 2 * k \<le> SIZE_LIMIT"
    and slot: "in_assert_cid l = []"
  shows "input_feed l idle_input
           (gale_pack_u32 opcode_assert @ gale_pack_u32 (of_nat (CID_LENGTH + 2 * k)) @ c @ ys) =
         input_feed (l\<lparr>in_opcode := opcode_assert, in_length := of_nat (2 * k), in_cid := In_assert_cid,
                       in_assert_cid := c, in_text := In_assert_cat\<rparr>)
           (idle_input\<lparr>inext := Ifn_text, iready := Ifn_text_ready, idata_len := 2 * k\<rparr>) ys"
proof -
  let ?n = "CID_LENGTH + 2 * k"
  let ?hdr = "gale_pack_u32 opcode_assert @ gale_pack_u32 (of_nat ?n)"
  let ?l1 = "l\<lparr>in_opcode := opcode_assert, in_length := of_nat ?n, in_cid := In_assert_cid\<rparr>"
  let ?C = "idle_input\<lparr>inext := Ifn_cid, iready := Ifn_cid_ready, idata_len := CID_LENGTH\<rparr>"
  have n2: "unat (of_nat (2 * k) :: u32) = 2 * k"
    using bound by (intro unat_of_nat_small) simp
  have fire1: "input_fire l (idle_input\<lparr>ibuf := ibuf idle_input @ ?hdr\<rparr>) = Inr (?l1, ?C)"
    using ifn_opcode_cid [of opcode_assert In_assert_cid ?n l idle_input] bound
    by (simp add: input_fire_def idle_input_def cid_slot_of_def)
  have step1: "input_feed l idle_input (?hdr @ c @ ys) = input_feed ?l1 ?C (c @ ys)"
    by (rule input_feed_fire [OF _ _ fire1]) (simp_all add: ready_defs idle_input_def)
  have len: "(of_nat ?n :: u32) - of_nat (length c) = of_nat (2 * k)"
    using c by simp
  have fire2: "input_fire ?l1 (?C\<lparr>ibuf := ibuf ?C @ c\<rparr>) =
      Inr (l\<lparr>in_opcode := opcode_assert, in_length := of_nat (2 * k), in_cid := In_assert_cid,
             in_assert_cid := c, in_text := In_assert_cat\<rparr>,
           idle_input\<lparr>inext := Ifn_text, iready := Ifn_text_ready, idata_len := 2 * k\<rparr>)"
    using c len n2
    by (simp add: input_fire_def idle_input_def ifn_cid_def ist_text_def consume_def text_slot_of_def
        opcode_simps)
  have step2: "input_feed ?l1 ?C (c @ ys) =
      input_feed (l\<lparr>in_opcode := opcode_assert, in_length := of_nat (2 * k), in_cid := In_assert_cid,
                    in_assert_cid := c, in_text := In_assert_cat\<rparr>)
        (idle_input\<lparr>inext := Ifn_text, iready := Ifn_text_ready, idata_len := 2 * k\<rparr>) ys"
    by (rule input_feed_fire [OF _ _ fire2]) (simp_all add: ready_defs idle_input_def slot c)
  show ?thesis
    using step1 step2 by simp
qed

lemma input_feed_assert_cat:
  assumes bound: "2 * length t \<le> SIZE_LIMIT" and op: "in_opcode l = opcode_assert"
    and tx: "in_text l = In_assert_cat" and len: "in_length l = of_nat (2 * length t)"
    and slot: "in_assert_cat l = []"
  shows "input_feed l (idle_input\<lparr>inext := Ifn_text, iready := Ifn_text_ready, idata_len := 2 * length t\<rparr>)
           (gale_pack_text_len t @ ys) =
         input_feed (l\<lparr>in_length := 0, in_assert_cat := t\<rparr>) idle_input ys"
proof -
  let ?T = "idle_input\<lparr>inext := Ifn_text, iready := Ifn_text_ready, idata_len := 2 * length t\<rparr>"
  have n2: "unat (of_nat (2 * length t) :: u32) = 2 * length t"
    using bound by (rule unat_of_nat_small)
  have fire: "input_fire l (?T\<lparr>ibuf := ibuf ?T @ gale_pack_text_len t\<rparr>) =
      Inr (l\<lparr>in_length := 0, in_assert_cat := t\<rparr>, idle_input)"
    using n2 len tx
    by (simp add: input_fire_def idle_input_def ifn_text_def consume_def ist_idle_def idle_input_eq)
  show ?thesis
    by (rule input_feed_fire [OF _ _ fire])
       (simp_all add: ready_defs idle_input_def slot op tx opcode_simps)
qed

lemma input_feed_assert_frame:
  assumes c: "length c = CID_LENGTH" and bound: "CID_LENGTH + 2 * length t \<le> SIZE_LIMIT"
    and slots: "in_assert_cid l = []" "in_assert_cat l = []"
  shows "input_feed l idle_input (wire_frame opcode_assert (c @ gale_pack_text_len t) @ ys) =
         input_feed (l\<lparr>in_opcode := opcode_assert, in_cid := In_assert_cid, in_assert_cid := c,
                       in_text := In_assert_cat, in_length := 0, in_assert_cat := t\<rparr>)
           idle_input ys"
proof -
  have "wire_frame opcode_assert (c @ gale_pack_text_len t) @ ys =
        gale_pack_u32 opcode_assert @ gale_pack_u32 (of_nat (CID_LENGTH + 2 * length t)) @ c
          @ gale_pack_text_len t @ ys"
    using c by (simp add: wire_frame_def)
  then show ?thesis
    using input_feed_assert_cid [OF c bound slots(1), of "gale_pack_text_len t @ ys"]
      input_feed_assert_cat [of t] bound slots(2) by simp
qed

lemma input_feed_puff_frame:
  assumes puff: "in_puff l = None" and msg: "in_msg l = None"
    and bound: "8 + 2 * length (routing m) + length (content m) \<le> SIZE_LIMIT"
  shows "input_feed l idle_input
           (wire_frame opcode_puff (gale_pack_u32 (of_nat (2 * length (routing m)))
              @ gale_pack_text_len (routing m) @ gale_pack_u32 0 @ content m) @ ys) =
         input_feed (l\<lparr>in_opcode := opcode_puff, in_length := 0, in_puff := Some m, in_msg := None\<rparr>)
           idle_input ys"
proof -
  let ?R = "length (routing m)" and ?C = "length (content m)"
  let ?N = "8 + 2 * ?R + ?C"
  let ?d1 = "gale_pack_u32 (of_nat (2 * ?R))" and ?d2 = "gale_pack_text_len (routing m)"
  let ?d3 = "gale_pack_u32 0 @ content m"
  let ?l1 = "l\<lparr>in_opcode := opcode_puff, in_length := of_nat ?N\<rparr>"
  let ?S1 = "idle_input\<lparr>inext := Ifn_category_len, idata_len := gale_u32_size, iready := Ifn_message_ready\<rparr>"
  let ?l2 = "l\<lparr>in_opcode := opcode_puff, in_length := of_nat (4 + 2 * ?R + ?C)\<rparr>"
  let ?S2 = "?S1\<lparr>inext := Ifn_message_category, idata_len := 2 * ?R\<rparr>"
  let ?l3 = "l\<lparr>in_opcode := opcode_puff, in_length := of_nat (4 + ?C),
                in_msg := Some \<lparr>routing = routing m, content = []\<rparr>\<rparr>"
  let ?S3 = "?S2\<lparr>inext := Ifn_message_body, idata_len := 4 + ?C, iready := Input_always_ready\<rparr>"
  have N: "unat (of_nat ?N :: u32) = ?N" using bound by (rule unat_of_nat_small)
  have N2: "unat (of_nat (4 + 2 * ?R + ?C) :: u32) = 4 + 2 * ?R + ?C"
    using bound by (intro unat_of_nat_small) simp
  have N3: "unat (of_nat (4 + ?C) :: u32) = 4 + ?C"
    using bound by (intro unat_of_nat_small) simp
  have R2: "unat (of_nat (2 * ?R) :: u32) = 2 * ?R"
    using bound by (intro unat_of_nat_small) simp
  have fire0: "input_fire l (idle_input\<lparr>ibuf := ibuf idle_input @ gale_pack_u32 opcode_puff
                  @ gale_pack_u32 (of_nat ?N)\<rparr>) = Inr (?l1, ?S1)"
    using N bound gale_unpack_pack_u32 [of "of_nat ?N" "[]"]
    by (simp add: input_fire_def idle_input_def ifn_opcode_def ist_message_def opcode_simps)
  have e1: "(of_nat ?N :: u32) - 4 = of_nat (4 + 2 * ?R + ?C)"
    by simp
  have e2: "(of_nat (4 + 2 * ?R + ?C) :: u32) - of_nat (2 * ?R) = of_nat (4 + ?C)"
    by simp
  have e3: "(of_nat (4 + ?C) :: u32) - of_nat (4 + ?C) = 0"
    by simp
  have fire1: "input_fire ?l1 (?S1\<lparr>ibuf := ibuf ?S1 @ ?d1\<rparr>) = Inr (?l2, ?S2)"
    using N N2 R2 bound msg e1 gale_unpack_pack_u32 [of "of_nat (2 * ?R)" "[]"]
    by (simp add: input_fire_def idle_input_def ifn_category_len_def consume_def Let_def
        del: of_nat_add of_nat_mult)
  have fire2: "input_fire ?l2 (?S2\<lparr>ibuf := ibuf ?S2 @ ?d2\<rparr>) = Inr (?l3, ?S3)"
    using N2 N3 e2 gale_unpack_pack_text_len_Nil [of "routing m"]
    by (simp add: input_fire_def idle_input_def ifn_message_category_def consume_def Let_def
        del: of_nat_add of_nat_mult)
  have fire3: "input_fire ?l3 (?S3\<lparr>ibuf := ibuf ?S3 @ ?d3\<rparr>) =
      Inr (l\<lparr>in_opcode := opcode_puff, in_length := 0, in_puff := Some m, in_msg := None\<rparr>, idle_input)"
    using puff e3 gale_unpack_pack_u32 [of 0 "content m"]
    by (simp add: input_fire_def idle_input_def ifn_message_body_def consume_def Let_def ist_idle_def
        idle_input_eq del: of_nat_add of_nat_mult)
  have step0: "input_feed l idle_input ((gale_pack_u32 opcode_puff @ gale_pack_u32 (of_nat ?N))
                 @ ?d1 @ ?d2 @ ?d3 @ ys) = input_feed ?l1 ?S1 (?d1 @ ?d2 @ ?d3 @ ys)"
    by (rule input_feed_fire [OF _ _ fire0]) (simp_all add: ready_defs idle_input_def)
  have step1: "input_feed ?l1 ?S1 (?d1 @ ?d2 @ ?d3 @ ys) = input_feed ?l2 ?S2 (?d2 @ ?d3 @ ys)"
    by (rule input_feed_fire [OF _ _ fire1]) (simp_all add: ready_defs idle_input_def puff)
  have step2: "input_feed ?l2 ?S2 (?d2 @ ?d3 @ ys) = input_feed ?l3 ?S3 (?d3 @ ys)"
    by (rule input_feed_fire [OF _ _ fire2]) (simp_all add: ready_defs idle_input_def puff)
  have step3: "input_feed ?l3 ?S3 (?d3 @ ys) =
      input_feed (l\<lparr>in_opcode := opcode_puff, in_length := 0, in_puff := Some m, in_msg := None\<rparr>)
        idle_input ys"
    by (rule input_feed_fire [OF _ _ fire3]) (simp_all add: ready_defs idle_input_def)
  have "wire_frame opcode_puff (?d1 @ ?d2 @ ?d3) @ ys =
        (gale_pack_u32 opcode_puff @ gale_pack_u32 (of_nat ?N)) @ ?d1 @ ?d2 @ ?d3 @ ys"
    by (simp add: wire_frame_def add.assoc)
  then show ?thesis
    using step0 step1 step2 step3 by simp
qed

end
