(* ===== verification/Input_Wf.thy ===== *)
theory Input_Wf
  imports Input_Buffer
begin

text \<open>
  The well-formedness of the input machine: what each state of \<^verbatim>\<open>core_link.c\<close>'s
  input machine expects of the link (the remaining frame length \<^verbatim>\<open>in_length\<close>
  against the request \<^verbatim>\<open>data.l\<close>, the opcode, the slot pointers \<^verbatim>\<open>in_text\<close> and
  \<^verbatim>\<open>in_cid\<close>, the \<^verbatim>\<open>ready\<close> function, and that no message is half built
  outside the body state). Every \<^verbatim>\<open>ist_*\<close> and \<^verbatim>\<open>ifn_*\<close> function keeps it
  when it does not fail, and the only assertion it lets fail is the one of
  \<^verbatim>\<open>ist_idle\<close>. The lifting lemmas carry any property of the link that one firing
  keeps through \<open>input_settle\<close> and \<open>input_feed\<close>.
\<close>

definition msg_op :: "gale_link \<Rightarrow> bool" where
  "msg_op l \<longleftrightarrow> in_opcode l = opcode_puff \<or> in_opcode l = opcode_will"

definition msg_ready_of :: "gale_link \<Rightarrow> iready" where
  "msg_ready_of l = (if in_opcode l = opcode_puff then Ifn_message_ready else Input_always_ready)"

fun stage_ok :: "ifn \<Rightarrow> gale_link \<Rightarrow> input_state \<Rightarrow> bool" where
  "stage_ok Ifn_version l inp \<longleftrightarrow> idata_len inp = 4 \<and> iready inp = Input_always_ready"
| "stage_ok Ifn_opcode l inp \<longleftrightarrow>
     idata_len inp = 8 \<and> iready inp = Input_always_ready \<and> in_length l = 0"
| "stage_ok Ifn_category_len l inp \<longleftrightarrow>
     idata_len inp = 4 \<and> 4 \<le> unat (in_length l) \<and> msg_op l \<and> iready inp = msg_ready_of l"
| "stage_ok Ifn_message_category l inp \<longleftrightarrow>
     idata_len inp \<le> unat (in_length l) \<and> msg_op l \<and> iready inp = msg_ready_of l"
| "stage_ok Ifn_message_body l inp \<longleftrightarrow>
     idata_len inp = unat (in_length l) \<and> msg_op l \<and> in_msg l \<noteq> None
     \<and> iready inp = Input_always_ready \<and> (in_opcode l = opcode_puff \<longrightarrow> in_puff l = None)"
| "stage_ok Ifn_text l inp \<longleftrightarrow>
     idata_len inp = unat (in_length l) \<and> text_slot_of (in_opcode l) = Some (in_text l)
     \<and> iready inp = Ifn_text_ready"
| "stage_ok Ifn_cid l inp \<longleftrightarrow>
     idata_len inp = CID_LENGTH \<and> CID_LENGTH \<le> unat (in_length l)
     \<and> cid_slot_of (in_opcode l) = Some (in_cid l) \<and> iready inp = Ifn_cid_ready"
| "stage_ok Ifn_supply_data l inp \<longleftrightarrow>
     idata_len inp = unat (in_length l) \<and> in_opcode l = opcode_supply
     \<and> iready inp = Input_always_ready"
| "stage_ok Ifn_unknown l inp \<longleftrightarrow>
     idata_len inp = min (unat (in_length l)) SIZE_LIMIT \<and> in_length l \<noteq> 0
     \<and> iready inp = Input_always_ready"

definition input_wf :: "gale_link \<Rightarrow> input_state \<Rightarrow> bool" where
  "input_wf l inp \<longleftrightarrow> length (ibuf inp) \<le> idata_len inp
     \<and> (inext inp \<noteq> Ifn_message_body \<longrightarrow> in_msg l = None) \<and> stage_ok (inext inp) l inp"

definition fire_ok :: "(gale_link \<times> input_state) result \<Rightarrow> bool" where
  "fire_ok r = (case r of Inl e \<Rightarrow> e = Assert_fail ''ist_idle''
                | Inr (l', inp') \<Rightarrow> input_wf l' inp' \<and> ibuf inp' = [])"

definition settle_ok :: "(gale_link \<Rightarrow> bool) \<Rightarrow> (gale_link \<times> input_state) result \<Rightarrow> bool" where
  "settle_ok Q r = (case r of Inl e \<Rightarrow> e = Assert_fail ''ist_idle''
                    | Inr (l', inp') \<Rightarrow> input_wf l' inp' \<and> Q l')"

definition fire_keeps :: "(gale_link \<Rightarrow> bool) \<Rightarrow> bool" where
  "fire_keeps Q \<longleftrightarrow> (\<forall>l inp l' inp'. input_wf l inp \<and> input_ready l inp \<and> input_full inp \<and> Q l
                     \<and> input_fire l inp = Inr (l', inp') \<longrightarrow> Q l')"

definition feed_ok :: "(gale_link \<Rightarrow> bool) \<Rightarrow> (gale_link \<times> input_state \<times> gdata) result \<Rightarrow> bool" where
  "feed_ok Q r = (case r of Inl e \<Rightarrow> e = Assert_fail ''ist_idle''
                  | Inr (l', inp', _) \<Rightarrow> input_wf l' inp' \<and> Q l')"

definition keeps_puff :: "gale_packet option \<Rightarrow> (gale_link \<times> input_state) result \<Rightarrow> bool" where
  "keeps_puff pf r = (case r of Inl _ \<Rightarrow> True | Inr (l', _) \<Rightarrow> in_puff l' = pf)"

lemma fire_ok_Inr [simp]: "fire_ok (Inr (l, inp)) = (input_wf l inp \<and> ibuf inp = [])"
  by (simp add: fire_ok_def)

lemma ist_idle_ok: "in_msg l = None \<Longrightarrow> ibuf inp = [] \<Longrightarrow> fire_ok (ist_idle l inp)"
  by (simp add: ist_idle_def fire_ok_def input_wf_def)

lemma ist_unknown_ok: "in_msg l = None \<Longrightarrow> ibuf inp = [] \<Longrightarrow> fire_ok (ist_unknown l inp)"
  by (simp add: ist_unknown_def ist_idle_ok input_wf_def)

lemma ist_message_ok:
  "in_msg l = None \<Longrightarrow> ibuf inp = [] \<Longrightarrow> msg_op l \<Longrightarrow> fire_ok (ist_message l inp)"
  by (simp add: ist_message_def ist_unknown_ok input_wf_def msg_ready_of_def)

lemma ist_text_ok:
  "in_msg l = None \<Longrightarrow> ibuf inp = [] \<Longrightarrow> text_slot_of (in_opcode l) \<noteq> None \<Longrightarrow>
   fire_ok (ist_text l inp)"
  by (auto simp: ist_text_def input_wf_def)

lemma ist_cid_ok:
  "in_msg l = None \<Longrightarrow> ibuf inp = [] \<Longrightarrow> cid_slot_of (in_opcode l) \<noteq> None \<Longrightarrow>
   fire_ok (ist_cid l inp)"
  by (auto simp: ist_cid_def ist_unknown_ok input_wf_def)

lemma slot_set_fields [simp]:
  "in_msg (text_slot_set l s t) = in_msg l" "in_puff (text_slot_set l s t) = in_puff l"
  "in_msg (cid_slot_set l c d) = in_msg l" "in_puff (cid_slot_set l c d) = in_puff l"
  "in_length (cid_slot_set l c d) = in_length l" "in_opcode (cid_slot_set l c d) = in_opcode l"
  by (cases s; simp; fail)+ (cases c; simp; fail)+

lemma consume_fields [simp]:
  "in_msg (consume l d) = in_msg l" "in_puff (consume l d) = in_puff l"
  "in_opcode (consume l d) = in_opcode l"
  by (simp_all add: consume_def)

lemma unat_consume:
  "length d \<le> unat (in_length l) \<Longrightarrow>
   unat (in_length (consume l d)) = unat (in_length l) - length d"
proof -
  assume le: "length d \<le> unat (in_length l)"
  have lt: "length d < 2 ^ LENGTH(32)"
    using le unat_u32_lt [of "in_length l"] by simp
  have "unat (of_nat (length d) :: u32) = length d"
    using lt by (simp add: unat_of_nat)
  moreover have "of_nat (length d) \<le> in_length l"
    using le lt by (simp add: word_le_nat_alt unat_of_nat)
  ultimately show ?thesis
    by (simp add: consume_def unat_sub)
qed

lemma gale_unpack_u32_length4:
  "length d = 4 \<Longrightarrow> \<exists>v. gale_unpack_u32 d = Some (v, [])"
  by (cases d rule: gale_unpack_u32.cases) auto

lemma gale_unpack_u32_length8:
  "length d = 8 \<Longrightarrow> \<exists>a d1 b. gale_unpack_u32 d = Some (a, d1) \<and> gale_unpack_u32 d1 = Some (b, [])"
  by (cases d rule: gale_unpack_u32.cases) (auto intro: gale_unpack_u32_length4)

lemma ifn_version_ok:
  "length d = 4 \<Longrightarrow> in_msg l = None \<Longrightarrow> ibuf inp = [] \<Longrightarrow> fire_ok (ifn_version l inp d)"
  using gale_unpack_u32_length4 [of d] by (auto simp: ifn_version_def ist_idle_ok)

lemma ifn_opcode_ok:
  "length d = 8 \<Longrightarrow> in_msg l = None \<Longrightarrow> ibuf inp = [] \<Longrightarrow> fire_ok (ifn_opcode l inp d)"
  using gale_unpack_u32_length8 [of d]
  by (auto simp: ifn_opcode_def Let_def ist_unknown_ok ist_message_ok msg_op_def
      intro!: ist_text_ok ist_cid_ok simp: text_slot_of_def cid_slot_of_def)

lemma ifn_category_len_ok:
  "stage_ok Ifn_category_len l inp \<Longrightarrow> length d = 4 \<Longrightarrow> in_msg l = None \<Longrightarrow>
   ibuf inp = [] \<Longrightarrow> fire_ok (ifn_category_len l inp d)"
  using gale_unpack_u32_length4 [of d]
  by (auto simp: ifn_category_len_def Let_def ist_unknown_ok input_wf_def unat_consume
      msg_op_def msg_ready_of_def consume_def)

lemma ifn_message_category_ok:
  "stage_ok Ifn_message_category l inp \<Longrightarrow> length d = idata_len inp \<Longrightarrow> in_msg l = None \<Longrightarrow>
   ibuf inp = [] \<Longrightarrow> input_ready l inp \<Longrightarrow> fire_ok (ifn_message_category l inp d)"
  by (auto simp: ifn_message_category_def Let_def ist_unknown_ok input_wf_def unat_consume
      msg_op_def msg_ready_of_def ready_defs split: option.split if_splits)

lemma ifn_message_body_ok:
  "stage_ok Ifn_message_body l inp \<Longrightarrow> length d = idata_len inp \<Longrightarrow>
   ibuf inp = [] \<Longrightarrow> fire_ok (ifn_message_body l inp d)"
  by (auto simp: ifn_message_body_def Let_def msg_op_def unat_consume consume_def
      intro!: ist_idle_ok split: option.split)

lemma ifn_text_ok:
  "stage_ok Ifn_text l inp \<Longrightarrow> length d = idata_len inp \<Longrightarrow> in_msg l = None \<Longrightarrow>
   ibuf inp = [] \<Longrightarrow> fire_ok (ifn_text l inp d)"
  by (auto simp: ifn_text_def Let_def intro!: ist_idle_ok ist_unknown_ok split: option.split)

lemma ifn_supply_data_ok:
  "stage_ok Ifn_supply_data l inp \<Longrightarrow> length d = idata_len inp \<Longrightarrow> in_msg l = None \<Longrightarrow>
   ibuf inp = [] \<Longrightarrow> fire_ok (ifn_supply_data l inp d)"
  by (auto simp: ifn_supply_data_def consume_def intro!: ist_idle_ok)

lemma ifn_cid_ok:
  "stage_ok Ifn_cid l inp \<Longrightarrow> length d = idata_len inp \<Longrightarrow> in_msg l = None \<Longrightarrow>
   ibuf inp = [] \<Longrightarrow> fire_ok (ifn_cid l inp d)"
  by (auto simp: ifn_cid_def Let_def input_wf_def unat_consume cid_slot_of_def text_slot_of_def
      intro!: ist_idle_ok ist_text_ok split: if_splits)

lemma ifn_unknown_ok:
  "stage_ok Ifn_unknown l inp \<Longrightarrow> length d = idata_len inp \<Longrightarrow> in_msg l = None \<Longrightarrow>
   ibuf inp = [] \<Longrightarrow> fire_ok (ifn_unknown l inp d)"
  by (auto simp: ifn_unknown_def intro!: ist_unknown_ok)

lemma stage_ok_ibuf [simp]: "stage_ok k l (inp\<lparr>ibuf := b\<rparr>) = stage_ok k l inp"
  by (cases k) (simp_all add: msg_ready_of_def)

lemma input_fire_ok:
  assumes wf: "input_wf l inp" and rdy: "input_ready l inp" and full: "input_full inp"
  shows "fire_ok (input_fire l inp)"
proof -
  let ?inp = "inp\<lparr>ibuf := []\<rparr>"
  have st: "stage_ok (inext inp) l ?inp" and len: "length (ibuf inp) = idata_len ?inp"
    and msg: "inext inp \<noteq> Ifn_message_body \<Longrightarrow> in_msg l = None"
    and rdy': "input_ready l ?inp"
    using wf full rdy by (simp_all add: input_wf_def input_full_def)
  show ?thesis
  proof (cases "inext inp")
    case Ifn_version
    then show ?thesis using st len msg by (simp add: input_fire_def ifn_version_ok)
  next
    case Ifn_opcode
    then show ?thesis using st len msg by (simp add: input_fire_def ifn_opcode_ok)
  next
    case Ifn_category_len
    then show ?thesis using st len msg by (simp add: input_fire_def ifn_category_len_ok)
  next
    case Ifn_message_category
    then show ?thesis using st len msg rdy' by (simp add: input_fire_def ifn_message_category_ok)
  next
    case Ifn_message_body
    then show ?thesis using st len by (simp add: input_fire_def ifn_message_body_ok)
  next
    case Ifn_text
    then show ?thesis using st len msg by (simp add: input_fire_def ifn_text_ok)
  next
    case Ifn_cid
    then show ?thesis using st len msg by (simp add: input_fire_def ifn_cid_ok)
  next
    case Ifn_supply_data
    then show ?thesis using st len msg by (simp add: input_fire_def ifn_supply_data_ok)
  next
    case Ifn_unknown
    then show ?thesis using st len msg by (simp add: input_fire_def ifn_unknown_ok)
  qed
qed

lemma input_settle_keeps:
  "fire_keeps Q \<Longrightarrow> input_wf l inp \<Longrightarrow> Q l \<Longrightarrow> settle_ok Q (input_settle l inp)"
proof (induction l inp rule: input_settle.induct)
  case (1 l inp)
  show ?case
  proof (cases "input_ready l inp \<and> input_full inp")
    case True
    then have ok: "fire_ok (input_fire l inp)"
      using "1.prems" by (intro input_fire_ok) simp_all
    show ?thesis
    proof (cases "input_fire l inp")
      case (Inl e)
      with True ok show ?thesis
        by (simp add: input_settle_fire settle_ok_def fire_ok_def)
    next
      case (Inr r)
      obtain l' inp' where r: "r = (l', inp')" by (cases r)
      with Inr ok have "input_wf l' inp'" by simp
      moreover have "Q l'"
        using "1.prems" True Inr r unfolding fire_keeps_def by blast
      ultimately show ?thesis
        using True Inr r "1.IH" "1.prems"(1) by (simp add: input_settle_fire)
    qed
  next
    case False
    with "1.prems" show ?thesis
      by (simp add: input_settle_stop settle_ok_def)
  qed
qed

lemma input_wf_push:
  "input_wf l inp \<Longrightarrow> length (ibuf inp) < idata_len inp \<Longrightarrow>
   input_wf l (inp\<lparr>ibuf := ibuf inp @ [b]\<rparr>)"
  by (simp add: input_wf_def)

lemma input_feed_keeps:
  "fire_keeps Q \<Longrightarrow> input_wf l inp \<Longrightarrow> Q l \<Longrightarrow> feed_ok Q (input_feed l inp bs)"
proof (induction bs arbitrary: l inp)
  case Nil
  then show ?case
    using input_settle_keeps [OF Nil.prems]
    by (auto simp: feed_ok_def settle_ok_def split: sum.splits)
next
  case (Cons b bs)
  have s: "settle_ok Q (input_settle l inp)"
    using Cons.prems by (rule input_settle_keeps)
  show ?case
  proof (cases "input_settle l inp")
    case (Inl e)
    then show ?thesis using s by (simp add: feed_ok_def settle_ok_def)
  next
    case (Inr r)
    obtain l' inp' where r: "r = (l', inp')" by (cases r)
    have wf': "input_wf l' inp'" and q: "Q l'"
      using s Inr r by (simp_all add: settle_ok_def)
    show ?thesis
      using Inr r wf' q Cons.IH [OF Cons.prems(1) input_wf_push [OF wf'] q]
      by (simp add: feed_ok_def)
  qed
qed

lemma fire_keeps_True: "fire_keeps (\<lambda>_. True)"
  by (simp add: fire_keeps_def)

lemma keeps_puff_simps [simp]:
  "keeps_puff pf (Inl e)" "keeps_puff pf (Inr (l, inp)) = (in_puff l = pf)"
  by (simp_all add: keeps_puff_def)

lemma ist_idle_keeps_puff: "in_puff l = pf \<Longrightarrow> keeps_puff pf (ist_idle l inp)"
  by (simp add: ist_idle_def ist_unknown_def ist_message_def ist_text_def ist_cid_def
      split: option.split)

lemma ist_unknown_keeps_puff: "in_puff l = pf \<Longrightarrow> keeps_puff pf (ist_unknown l inp)"
  by (simp add: ist_idle_def ist_unknown_def ist_message_def ist_text_def ist_cid_def
      split: option.split)

lemma ist_message_keeps_puff: "in_puff l = pf \<Longrightarrow> keeps_puff pf (ist_message l inp)"
  by (simp add: ist_idle_def ist_unknown_def ist_message_def ist_text_def ist_cid_def
      split: option.split)

lemma ist_text_keeps_puff: "in_puff l = pf \<Longrightarrow> keeps_puff pf (ist_text l inp)"
  by (simp add: ist_idle_def ist_unknown_def ist_message_def ist_text_def ist_cid_def
      split: option.split)

lemma ist_cid_keeps_puff: "in_puff l = pf \<Longrightarrow> keeps_puff pf (ist_cid l inp)"
  by (simp add: ist_idle_def ist_unknown_def ist_message_def ist_text_def ist_cid_def
      split: option.split)

lemmas ist_keep_puff_eq = ist_idle_keeps_puff ist_unknown_keeps_puff ist_message_keeps_puff
  ist_text_keeps_puff ist_cid_keeps_puff

lemma ifn_version_keeps_puff:
  "in_puff l = Some p \<Longrightarrow> keeps_puff (Some p) (ifn_version l inp d)"
  by (simp add: ifn_version_def ist_keep_puff_eq split: option.split prod.split list.split)

lemma ifn_opcode_shape:
  obtains "ifn_opcode l inp d = Inl (Assert_fail ''ifn_opcode'')"
  | op len where "ifn_opcode l inp d \<in> {ist_unknown (l\<lparr>in_opcode := op, in_length := len\<rparr>) inp,
      ist_message (l\<lparr>in_opcode := op, in_length := len\<rparr>) inp,
      ist_text (l\<lparr>in_opcode := op, in_length := len\<rparr>) inp,
      ist_cid (l\<lparr>in_opcode := op, in_length := len\<rparr>) inp}"
proof (cases "gale_unpack_u32 d")
  case None
  then show ?thesis using that by (simp add: ifn_opcode_def)
next
  case (Some a)
  obtain op d1 where a: "a = (op, d1)" by (cases a)
  show ?thesis
  proof (cases "gale_unpack_u32 d1")
    case None
    then show ?thesis using that Some a by (simp add: ifn_opcode_def)
  next
    case (Some b)
    obtain len r where b: "b = (len, r)" by (cases b)
    show ?thesis
    proof (cases r)
      case Nil
      have "ifn_opcode l inp d \<in> {ist_unknown (l\<lparr>in_opcode := op, in_length := len\<rparr>) inp,
        ist_message (l\<lparr>in_opcode := op, in_length := len\<rparr>) inp,
        ist_text (l\<lparr>in_opcode := op, in_length := len\<rparr>) inp,
        ist_cid (l\<lparr>in_opcode := op, in_length := len\<rparr>) inp}"
        using \<open>gale_unpack_u32 d = Some a\<close> Some a b Nil by (simp add: ifn_opcode_def Let_def)
      then show ?thesis using that(2) by blast
    next
      case (Cons x xs)
      then show ?thesis using that \<open>gale_unpack_u32 d = Some a\<close> Some a b
        by (simp add: ifn_opcode_def)
    qed
  qed
qed

lemma ifn_opcode_keeps_puff:
  "in_puff l = Some p \<Longrightarrow> keeps_puff (Some p) (ifn_opcode l inp d)"
  by (rule ifn_opcode_shape [of l inp d]) (auto simp: ist_keep_puff_eq)

lemma ifn_category_len_keeps_puff:
  "in_puff l = Some p \<Longrightarrow> keeps_puff (Some p) (ifn_category_len l inp d)"
  by (simp add: ifn_category_len_def ist_keep_puff_eq Let_def split: option.split prod.split list.split)

lemma ifn_message_category_keeps_puff:
  "in_puff l = Some p \<Longrightarrow> keeps_puff (Some p) (ifn_message_category l inp d)"
  by (simp add: ifn_message_category_def ist_keep_puff_eq Let_def split: option.split prod.split)

lemma ifn_message_body_keeps_puff:
  "in_puff l = Some p \<Longrightarrow> keeps_puff (Some p) (ifn_message_body l inp d)"
  by (simp add: ifn_message_body_def ist_keep_puff_eq Let_def split: option.split)

lemma ifn_text_keeps_puff:
  "in_puff l = Some p \<Longrightarrow> keeps_puff (Some p) (ifn_text l inp d)"
  by (simp add: ifn_text_def ist_keep_puff_eq Let_def split: option.split prod.split)

lemma ifn_supply_data_keeps_puff:
  "in_puff l = Some p \<Longrightarrow> keeps_puff (Some p) (ifn_supply_data l inp d)"
  by (simp add: ifn_supply_data_def ist_keep_puff_eq )

lemma ifn_cid_keeps_puff:
  "in_puff l = Some p \<Longrightarrow> keeps_puff (Some p) (ifn_cid l inp d)"
  by (simp add: ifn_cid_def ist_keep_puff_eq Let_def)

lemma ifn_unknown_keeps_puff:
  "in_puff l = Some p \<Longrightarrow> keeps_puff (Some p) (ifn_unknown l inp d)"
  by (simp add: ifn_unknown_def ist_keep_puff_eq )

lemma input_fire_keeps_puff:
  "in_puff l = Some p \<Longrightarrow> keeps_puff (Some p) (input_fire l inp)"
  by (cases "inext inp")
    (simp_all add: input_fire_def ifn_version_keeps_puff ifn_opcode_keeps_puff
      ifn_category_len_keeps_puff ifn_message_category_keeps_puff ifn_message_body_keeps_puff
      ifn_text_keeps_puff ifn_supply_data_keeps_puff ifn_cid_keeps_puff ifn_unknown_keeps_puff)

lemma fire_keeps_puff: "fire_keeps (\<lambda>l. in_puff l = Some p)"
  unfolding fire_keeps_def
proof (intro allI impI)
  fix l inp l' inp'
  assume h: "input_wf l inp \<and> input_ready l inp \<and> input_full inp \<and> in_puff l = Some p
             \<and> input_fire l inp = Inr (l', inp')"
  then have "keeps_puff (Some p) (input_fire l inp)"
    by (intro input_fire_keeps_puff) simp
  with h show "in_puff l' = Some p" by simp
qed

end
