(* ===== verification/Input_Props.thy ===== *)
theory Input_Props
  imports Input_Wf
begin

text \<open>
  Properties of the input machine of \<^verbatim>\<open>core_link.c\<close> driven by its input buffer:
  how frames are decoded into the link's pending-input slots, and the flow control
  that the \<^verbatim>\<open>ready\<close> functions impose.
\<close>

text \<open>
  C1 (assertion safety of the input machine). From any well-formed state, whatever
  bytes the peer sends, the input machine either stays well-formed or stops at the
  assertion of \<^verbatim>\<open>ist_idle\<close>; none of its other eleven assertions (in
  \<^verbatim>\<open>ifn_version\<close>, \<^verbatim>\<open>ifn_opcode\<close>, \<^verbatim>\<open>ifn_category_len\<close>,
  \<^verbatim>\<open>ifn_message_category\<close>, \<^verbatim>\<open>ifn_message_body\<close>, \<^verbatim>\<open>ifn_text\<close>,
  \<^verbatim>\<open>ist_text\<close>, \<^verbatim>\<open>ifn_supply_data\<close>, \<^verbatim>\<open>ifn_cid\<close>, \<^verbatim>\<open>ist_cid\<close>,
  \<^verbatim>\<open>ifn_unknown\<close>) can fail.
\<close>

theorem input_only_ist_idle_aborts:
  assumes "input_wf l inp"
  shows "case input_feed l inp bs of
           Inl e \<Rightarrow> e = Assert_fail ''ist_idle''
         | Inr (l', inp', rest) \<Rightarrow> input_wf l' inp'"
proof -
  have "feed_ok (\<lambda>_. True) (input_feed l inp bs)"
    by (rule input_feed_keeps [OF fire_keeps_True assms]) simp
  then show ?thesis
    by (auto simp: feed_ok_def split: sum.splits prod.splits)
qed

text \<open>
  C2 (exactly-once delivery of puffs). While a decoded puff waits in
  \<^verbatim>\<open>in_puff\<close>, no byte stream replaces it: \<^verbatim>\<open>ifn_message_ready\<close> keeps the
  machine from reading the category of a second puff, so its body is never reached
  (and the assertion of \<^verbatim>\<open>ifn_message_body\<close> never fails).
\<close>

theorem puff_never_overwritten:
  assumes "input_wf l inp" and "in_puff l = Some p"
  shows "case input_feed l inp bs of
           Inl e \<Rightarrow> e = Assert_fail ''ist_idle''
         | Inr (l', inp', rest) \<Rightarrow> in_puff l' = Some p"
proof -
  have "feed_ok (\<lambda>l. in_puff l = Some p) (input_feed l inp bs)"
    by (rule input_feed_keeps [OF fire_keeps_puff assms])
  then show ?thesis
    by (auto simp: feed_ok_def split: sum.splits prod.splits)
qed

text \<open>
  C3 (over-long fetch frame). A fetch frame whose body is a content id followed by
  more bytes makes \<^verbatim>\<open>ifn_cid\<close> call \<^verbatim>\<open>ist_idle\<close> with bytes of the frame still
  unread, and the assertion \<^verbatim>\<open>0 == in_length\<close> fails: the peer aborts the process
  (a miss frame behaves the same). The specification expects malformed frames to be
  skipped.
\<close>

theorem fetch_overlong_aborts:
  assumes c: "length c = CID_LENGTH" and x: "x \<noteq> []"
    and bound: "CID_LENGTH + length x \<le> SIZE_LIMIT" and slot: "in_fetch_cid l = []"
  shows "input_feed l idle_input (wire_frame opcode_fetch (c @ x) @ ys) =
         Inl (Assert_fail ''ist_idle'')"
proof -
  let ?n = "CID_LENGTH + length x"
  let ?hdr = "gale_pack_u32 opcode_fetch @ gale_pack_u32 (of_nat ?n)"
  let ?l1 = "l\<lparr>in_opcode := opcode_fetch, in_length := of_nat ?n, in_cid := In_fetch_cid\<rparr>"
  let ?C = "idle_input\<lparr>inext := Ifn_cid, iready := Ifn_cid_ready, idata_len := CID_LENGTH\<rparr>"
  have n: "unat (of_nat ?n :: u32) = ?n" using bound by (rule unat_of_nat_small)
  have fire1: "input_fire l (idle_input\<lparr>ibuf := ibuf idle_input @ ?hdr\<rparr>) = Inr (?l1, ?C)"
    using n bound
    by (simp add: input_fire_def idle_input_def ifn_opcode_def ist_cid_def cid_slot_of_def
        opcode_simps)
  have step1: "input_feed l idle_input (?hdr @ c @ x @ ys) = input_feed ?l1 ?C (c @ x @ ys)"
    by (rule input_feed_fire [OF _ _ fire1]) (simp_all add: ready_defs idle_input_def)
  have len1: "length c \<le> unat (in_length ?l1)"
    using n c by simp
  have "unat (in_length (consume ?l1 c)) = length x"
    using unat_consume [OF len1] n c by simp
  then have nz: "in_length (consume ?l1 c) \<noteq> 0"
    using x by (auto simp: unat_eq_zero)
  have fire2: "input_fire ?l1 (?C\<lparr>ibuf := ibuf ?C @ c\<rparr>) = Inl (Assert_fail ''ist_idle'')"
    using c nz
    by (simp add: input_fire_def idle_input_def ifn_cid_def ist_idle_def opcode_simps)
  have step2: "input_feed ?l1 ?C (c @ x @ ys) = Inl (Assert_fail ''ist_idle'')"
    by (rule input_feed_fire_fail [OF _ _ fire2]) (simp_all add: ready_defs idle_input_def slot c)
  show ?thesis
    using step1 step2 c by (simp add: wire_frame_def)
qed

text \<open>
  C4 (coalescing kinds). Two publish frames decoded before the caller drains the
  first leave exactly one pending value, the second: the machine never waits for
  \<^verbatim>\<open>lrx_publish\<close> and the older value is overwritten (\<^verbatim>\<open>ifn_text_ready\<close>, lines
  293--304).
\<close>

theorem publish_latest_wins:
  assumes "2 * length a \<le> SIZE_LIMIT" and "2 * length b \<le> SIZE_LIMIT"
  shows "\<exists>l'. input_feed l idle_input
                 (wire_frame opcode_publish (gale_pack_text_len a) @
                  wire_frame opcode_publish (gale_pack_text_len b)) = Inr (l', idle_input, [])
              \<and> in_publish l' = b"
proof -
  let ?l1 = "text_slot_set (l\<lparr>in_opcode := opcode_publish, in_text := In_publish, in_length := 0\<rparr>)
               In_publish a"
  let ?l2 = "text_slot_set (?l1\<lparr>in_opcode := opcode_publish, in_text := In_publish, in_length := 0\<rparr>)
               In_publish b"
  have "input_feed l idle_input
          (wire_frame opcode_publish (gale_pack_text_len a) @
           wire_frame opcode_publish (gale_pack_text_len b)) =
        input_feed ?l1 idle_input (wire_frame opcode_publish (gale_pack_text_len b))"
    using assms(1) by (intro input_feed_text_frame) simp_all
  also have "\<dots> = input_feed ?l2 idle_input []"
    using assms(2) input_feed_text_frame [of opcode_publish In_publish b ?l1 "[]"] by simp
  also have "\<dots> = Inr (?l2, idle_input, [])"
    by simp
  finally show ?thesis by simp
qed

text \<open>
  C5 (exactly-once kinds). While a decoded watch category is not drained, a second
  watch frame is not decoded: its header is read, and the machine then refuses its
  category bytes, which are handed back unread, and the first category stays in its
  slot.
\<close>

theorem watch_waits_for_drain:
  assumes "in_watch l = []" and "a \<noteq> []" and "b \<noteq> []"
    and "2 * length a \<le> SIZE_LIMIT" and "2 * length b \<le> SIZE_LIMIT"
  shows "\<exists>l' inp'. input_feed l idle_input
                 (wire_frame opcode_watch (gale_pack_text_len a) @
                  wire_frame opcode_watch (gale_pack_text_len b)) =
                 Inr (l', inp', gale_pack_text_len b)
              \<and> in_watch l' = a"
proof -
  let ?l1 = "text_slot_set (l\<lparr>in_opcode := opcode_watch, in_text := In_watch, in_length := 0\<rparr>)
               In_watch a"
  let ?n = "2 * length b"
  let ?l2 = "?l1\<lparr>in_opcode := opcode_watch, in_length := of_nat ?n, in_text := In_watch\<rparr>"
  let ?T = "idle_input\<lparr>inext := Ifn_text, iready := Ifn_text_ready, idata_len := ?n\<rparr>"
  have s1: "input_feed l idle_input
          (wire_frame opcode_watch (gale_pack_text_len a) @
           wire_frame opcode_watch (gale_pack_text_len b)) =
        input_feed ?l1 idle_input (wire_frame opcode_watch (gale_pack_text_len b))"
    using assms(1,4) by (intro input_feed_text_frame) simp_all
  have fire: "input_fire ?l1 (idle_input\<lparr>ibuf := ibuf idle_input @
                 (gale_pack_u32 opcode_watch @ gale_pack_u32 (of_nat ?n))\<rparr>) = Inr (?l2, ?T)"
    using ifn_opcode_text [of opcode_watch In_watch ?n ?l1 idle_input] assms(5)
    by (simp add: input_fire_def idle_input_def)
  have "input_feed ?l1 idle_input
          ((gale_pack_u32 opcode_watch @ gale_pack_u32 (of_nat ?n)) @ gale_pack_text_len b) =
        input_feed ?l2 ?T (gale_pack_text_len b)"
    by (rule input_feed_fire [OF _ _ fire]) (simp_all add: ready_defs idle_input_def)
  then have s2: "input_feed ?l1 idle_input (wire_frame opcode_watch (gale_pack_text_len b)) =
            input_feed ?l2 ?T (gale_pack_text_len b)"
    by (simp add: wire_frame_def)
  obtain x xs where bx: "gale_pack_text_len b = x # xs"
    using assms(3) by (cases b) (auto simp: gale_pack_wch_def)
  have nr: "\<not> input_ready ?l2 ?T"
    using assms(2) by (simp add: ready_defs idle_input_def opcode_simps)
  have nf: "\<not> input_full ?T"
    using assms(3) by (simp add: input_full_def idle_input_def)
  have s3: "input_feed ?l2 ?T (gale_pack_text_len b) = Inr (?l2, ?T, gale_pack_text_len b)"
    using nr nf by (simp add: bx input_settle_stop)
  show ?thesis
    using s1 s2 s3 by simp
qed

theorem publish_latest_wins_witness:
  "2 * length [1::wch] \<le> SIZE_LIMIT \<and> 2 * length [2::wch] \<le> SIZE_LIMIT \<and>
   (\<exists>l'. input_feed new_link idle_input
          (wire_frame opcode_publish (gale_pack_text_len [1]) @
           wire_frame opcode_publish (gale_pack_text_len [2])) = Inr (l', idle_input, [])
        \<and> in_publish l' = [2])"
  using publish_latest_wins [of "[1]" "[2]" new_link] by (simp add: SIZE_LIMIT_def)

theorem watch_waits_for_drain_witness:
  "in_watch new_link = [] \<and> [1::wch] \<noteq> [] \<and> [2::wch] \<noteq> [] \<and>
   2 * length [1::wch] \<le> SIZE_LIMIT \<and> 2 * length [2::wch] \<le> SIZE_LIMIT \<and>
   (\<exists>l' inp'. input_feed new_link idle_input
          (wire_frame opcode_watch (gale_pack_text_len [1]) @
           wire_frame opcode_watch (gale_pack_text_len [2])) =
          Inr (l', inp', gale_pack_text_len [2])
        \<and> in_watch l' = [1])"
  using watch_waits_for_drain [of new_link "[1]" "[2]"] by (simp add: SIZE_LIMIT_def new_link_def)

theorem input_only_ist_idle_aborts_witness:
  "input_wf new_link initial_input \<and>
   (case input_feed new_link initial_input (gale_pack_u32 1) of
      Inl e \<Rightarrow> e = Assert_fail ''ist_idle''
    | Inr (l', inp', rest) \<Rightarrow> input_wf l' inp')"
proof -
  have wf: "input_wf new_link initial_input"
    by (simp add: input_wf_def initial_input_def ist_version_def new_link_def)
  show ?thesis
    by (rule conjI [OF wf input_only_ist_idle_aborts [OF wf]])
qed

theorem puff_never_overwritten_witness:
  "input_wf (new_link\<lparr>in_puff := Some \<lparr>routing = [], content = []\<rparr>\<rparr>) idle_input \<and>
   in_puff (new_link\<lparr>in_puff := Some \<lparr>routing = [], content = []\<rparr>\<rparr>) =
     Some \<lparr>routing = [], content = []\<rparr> \<and>
   (case input_feed (new_link\<lparr>in_puff := Some \<lparr>routing = [], content = []\<rparr>\<rparr>) idle_input
          (wire_frame opcode_puff []) of
      Inl e \<Rightarrow> e = Assert_fail ''ist_idle''
    | Inr (l', inp', rest) \<Rightarrow> in_puff l' = Some \<lparr>routing = [], content = []\<rparr>)"
proof -
  have wf: "input_wf (new_link\<lparr>in_puff := Some \<lparr>routing = [], content = []\<rparr>\<rparr>) idle_input"
    by (simp add: input_wf_def idle_input_def new_link_def)
  have p: "in_puff (new_link\<lparr>in_puff := Some \<lparr>routing = [], content = []\<rparr>\<rparr>) =
     Some \<lparr>routing = [], content = []\<rparr>"
    by simp
  show ?thesis
    using puff_never_overwritten [OF wf p] wf p by blast
qed

theorem fetch_overlong_aborts_witness:
  "length (replicate 20 (0::byte)) = CID_LENGTH \<and> [0::byte] \<noteq> [] \<and>
   CID_LENGTH + length [0::byte] \<le> SIZE_LIMIT \<and> in_fetch_cid new_link = [] \<and>
   input_feed new_link idle_input (wire_frame opcode_fetch (replicate 20 0 @ [0]) @ []) =
     Inl (Assert_fail ''ist_idle'')"
proof -
  have h: "length (replicate 20 (0::byte)) = CID_LENGTH" "[0::byte] \<noteq> []"
    "CID_LENGTH + length [0::byte] \<le> SIZE_LIMIT" "in_fetch_cid new_link = []"
    by (simp_all add: CID_LENGTH_def SIZE_LIMIT_def new_link_def)
  show ?thesis
    using h fetch_overlong_aborts [OF h] by blast
qed

end
