(* ===== verification/Queue.thy ===== *)
theory Queue
  imports Link
begin

text \<open>
  The outgoing message queue of \<^verbatim>\<open>src/libgale/core_link.c\<close>: a circular singly
  linked list of \<^verbatim>\<open>struct link\<close> nodes (lines 29-33) whose tail is
  \<^verbatim>\<open>l->out_queue\<close> and whose head is \<^verbatim>\<open>l->out_queue->next\<close>. The nodes live in an
  explicit heap \<open>qheap\<close> of the link record, addresses are handed out by the bump
  allocator \<open>qalloc\<close> (\<^verbatim>\<open>gale_create\<close>), and \<^verbatim>\<open>gale_free\<close> removes the node from the
  heap. \<open>link_put\<close> (lines 836-854) takes the clock reading that
  \<^verbatim>\<open>gale_time_now\<close> returned as an argument; the call to \<^verbatim>\<open>activate\<close> only
  schedules I/O and is not modelled. Dereferencing an address with no node is the
  error \<open>Bad_pointer\<close>.

  The representation predicate \<open>queue_rep l xs\<close> says that the addresses \<open>xs\<close>, oldest
  first, form the cycle and that the counters \<^verbatim>\<open>queue_num\<close> and \<^verbatim>\<open>queue_mem\<close> agree
  with it; \<open>queue_msgs\<close> reads the packets off the cycle. The lemmas show that
  \<open>link_put\<close> and \<open>dequeue\<close> refine appending to and taking the head of a list of packets,
  and the operations are composed into runs (\<open>queue_run\<close>) checked against the list
  model \<open>fifo_run\<close>.
\<close>

definition link_put :: "gale_link \<Rightarrow> gale_packet \<Rightarrow> gale_time \<Rightarrow> gale_link result" where
  "link_put l m now =
     (let a = qalloc l; nd = \<lparr>qmsg = m, qnext = a, qwhen = now\<rparr>;
          fin = (\<lambda>h. l\<lparr>qheap := h, qalloc := Suc a, out_queue := Some a,
                          queue_num := queue_num l + 1,
                          queue_mem := queue_mem l + message_size m\<rparr>) in
      case out_queue l of
        None \<Rightarrow> Inr (fin ((qheap l)(a \<mapsto> nd)))
      | Some t \<Rightarrow>
          (case qheap l t of
             None \<Rightarrow> Inl (Bad_pointer ''link_put'')
           | Some tn \<Rightarrow> Inr (fin ((qheap l)(a \<mapsto> nd\<lparr>qnext := qnext tn\<rparr>,
                                              t \<mapsto> tn\<lparr>qnext := a\<rparr>)))))"

definition dequeue :: "gale_link \<Rightarrow> (gale_packet option \<times> gale_link) result" where
  "dequeue l =
     (case out_queue l of
        None \<Rightarrow> Inr (None, l)
      | Some t \<Rightarrow>
          (case qheap l t of
             None \<Rightarrow> Inl (Bad_pointer ''dequeue'')
           | Some tn \<Rightarrow>
               (let x = qnext tn in
                case qheap l x of
                  None \<Rightarrow> Inl (Bad_pointer ''dequeue'')
                | Some xn \<Rightarrow>
                    (let l1 = (if t = x then l\<lparr>out_queue := None\<rparr>
                               else l\<lparr>qheap := (qheap l)(t \<mapsto> tn\<lparr>qnext := qnext xn\<rparr>)\<rparr>) in
                     Inr (Some (qmsg xn),
                          l1\<lparr>queue_num := queue_num l - 1,
                              queue_mem := queue_mem l - message_size (qmsg xn),
                              qheap := (qheap l1)(x := None)\<rparr>)))))"

definition link_queue_num :: "gale_link \<Rightarrow> int" where
  "link_queue_num l = queue_num l"

definition link_queue_mem :: "gale_link \<Rightarrow> nat" where
  "link_queue_mem l = queue_mem l"

definition link_queue_time :: "gale_link \<Rightarrow> gale_time result" where
  "link_queue_time l =
     (case out_queue l of
        None \<Rightarrow> Inr gale_time_forever
      | Some t \<Rightarrow>
          (case qheap l t of
             None \<Rightarrow> Inl (Bad_pointer ''link_queue_time'')
           | Some tn \<Rightarrow>
               (case qheap l (qnext tn) of
                  None \<Rightarrow> Inl (Bad_pointer ''link_queue_time'')
                | Some hn \<Rightarrow> Inr (qwhen hn))))"

definition link_queue_drop :: "gale_link \<Rightarrow> gale_link result" where
  "link_queue_drop l =
     (if out_queue l \<noteq> None then
        (case dequeue l of Inl e \<Rightarrow> Inl e | Inr (_, l') \<Rightarrow> Inr l')
      else Inr l)"

datatype queue_op = Put gale_packet gale_time | Drop

fun queue_run :: "gale_link \<Rightarrow> queue_op list \<Rightarrow> gale_link result" where
  "queue_run l [] = Inr l"
| "queue_run l (Put m now # ops) =
     (case link_put l m now of Inl e \<Rightarrow> Inl e | Inr l' \<Rightarrow> queue_run l' ops)"
| "queue_run l (Drop # ops) =
     (case link_queue_drop l of Inl e \<Rightarrow> Inl e | Inr l' \<Rightarrow> queue_run l' ops)"

text \<open>The abstract queue: a list of packets, oldest first.\<close>

fun fifo_run :: "gale_packet list \<Rightarrow> queue_op list \<Rightarrow> gale_packet list" where
  "fifo_run q [] = q"
| "fifo_run q (Put m now # ops) = fifo_run (q @ [m]) ops"
| "fifo_run q (Drop # ops) = fifo_run (tl q) ops"

text \<open>Representation of the cycle as the list of its addresses, oldest first.\<close>

fun qpath :: "(nat \<Rightarrow> qnode option) \<Rightarrow> nat \<Rightarrow> nat list \<Rightarrow> nat \<Rightarrow> bool" where
  "qpath h a [] b \<longleftrightarrow> a = b"
| "qpath h a (x # xs) b \<longleftrightarrow>
     a = x \<and> (case h x of None \<Rightarrow> False | Some nd \<Rightarrow> qpath h (qnext nd) xs b)"

definition queue_msgs :: "gale_link \<Rightarrow> nat list \<Rightarrow> gale_packet list" where
  "queue_msgs l xs = map (\<lambda>a. qmsg (the (qheap l a))) xs"

definition queue_rep :: "gale_link \<Rightarrow> nat list \<Rightarrow> bool" where
  "queue_rep l xs \<longleftrightarrow> distinct xs \<and> (\<forall>a\<in>set xs. a < qalloc l)
     \<and> queue_num l = int (length xs)
     \<and> queue_mem l = sum_list (map message_size (queue_msgs l xs))
     \<and> (case xs of [] \<Rightarrow> out_queue l = None
        | x # _ \<Rightarrow> out_queue l = Some (last xs) \<and> qpath (qheap l) x xs x)"

text \<open>The pending output other than the queue, which queue operations leave alone.\<close>

definition out_pending_same :: "gale_link \<Rightarrow> gale_link \<Rightarrow> bool" where
  "out_pending_same l l' \<longleftrightarrow>
     out_msg l' = out_msg l \<and> out_text l' = out_text l \<and> out_watch l' = out_watch l
     \<and> out_fetch l' = out_fetch l \<and> out_publish l' = out_publish l \<and> out_supply l' = out_supply l
     \<and> out_assert l' = out_assert l \<and> out_complete l' = out_complete l
     \<and> out_gimme l' = out_gimme l \<and> out_will l' = out_will l"

lemma qpath_append:
  "qpath h a (xs @ ys) c \<longleftrightarrow> (\<exists>b. qpath h a xs b \<and> qpath h b ys c)"
  by (induction xs arbitrary: a) (auto split: option.splits)

lemma qpath_snoc:
  "qpath h a (xs @ [y]) c \<longleftrightarrow> qpath h a xs y \<and> (\<exists>nd. h y = Some nd \<and> qnext nd = c)"
  by (auto simp: qpath_append split: option.splits)

lemma qpath_upd:
  "x \<notin> set xs \<Longrightarrow> qpath (h(x := v)) a xs b = qpath h a xs b"
  by (induction xs arbitrary: a) (auto split: option.splits)

lemma qpath_in_dom: "qpath h a xs b \<Longrightarrow> y \<in> set xs \<Longrightarrow> h y \<noteq> None"
  by (induction xs arbitrary: a) (auto split: option.splits)

lemma queue_msgs_upd:
  "x \<notin> set xs \<Longrightarrow> queue_msgs (l\<lparr>qheap := (qheap l)(x := v)\<rparr>) xs = queue_msgs l xs"
  by (auto simp: queue_msgs_def)

lemma queue_msgs_fields [simp]:
  "queue_msgs (l\<lparr>qalloc := n\<rparr>) = queue_msgs l" "queue_msgs (l\<lparr>out_queue := q\<rparr>) = queue_msgs l"
  "queue_msgs (l\<lparr>queue_num := k\<rparr>) = queue_msgs l" "queue_msgs (l\<lparr>queue_mem := k'\<rparr>) = queue_msgs l"
  "queue_msgs (l\<lparr>queue_num := k, queue_mem := k', qheap := h\<rparr>) = queue_msgs (l\<lparr>qheap := h\<rparr>)"
  by (simp_all add: queue_msgs_def fun_eq_iff)

lemma queue_rep_nonempty:
  "queue_rep l xs \<Longrightarrow> xs \<noteq> [] \<Longrightarrow>
   out_queue l = Some (last xs) \<and> qpath (qheap l) (hd xs) xs (hd xs)"
  by (cases xs) (auto simp: queue_rep_def simp del: qpath.simps)

lemma queue_msgs_snoc_fresh:
  assumes "a \<notin> set xs" and "\<forall>x\<in>set xs. qmsg (the (h x)) = qmsg (the (qheap l x))"
    and "h a = Some nd"
  shows "queue_msgs (l'\<lparr>qheap := h\<rparr>) (xs @ [a]) = queue_msgs l xs @ [qmsg nd]"
  using assms by (simp add: queue_msgs_def)

lemma link_put_rep:
  assumes rep: "queue_rep l xs"
  shows "\<exists>l'. link_put l m now = Inr l' \<and> queue_rep l' (xs @ [qalloc l])
              \<and> queue_msgs l' (xs @ [qalloc l]) = queue_msgs l xs @ [m]"
proof -
  let ?a = "qalloc l"
  have fresh: "?a \<notin> set xs" and dist: "distinct xs"
    and num: "queue_num l = int (length xs)"
    and mem: "queue_mem l = sum_list (map message_size (queue_msgs l xs))"
    and below: "\<forall>y\<in>set xs. y < qalloc l"
    using rep by (auto simp: queue_rep_def)
  show ?thesis
  proof (cases xs)
    case Nil
    with rep have oq: "out_queue l = None" by (simp add: queue_rep_def)
    then show ?thesis
      using Nil num mem by (simp add: link_put_def Let_def queue_rep_def queue_msgs_def)
  next
    case (Cons x ys)
    obtain zs t where xs: "xs = zs @ [t]"
      using Cons by (metis list.distinct(1) rev_exhaust)
    have ne: "xs \<noteq> []" and hx: "hd xs = x"
      using Cons by simp_all
    have oq: "out_queue l = Some t"
      using queue_rep_nonempty [OF rep ne] xs by simp
    have path: "qpath (qheap l) x xs x"
      using queue_rep_nonempty [OF rep ne] hx by simp
    from path xs obtain tn where pz: "qpath (qheap l) x zs t" and tn: "qheap l t = Some tn"
      and tnext: "qnext tn = x"
      by (auto simp: qpath_snoc)
    have tz: "t \<notin> set zs" and az: "?a \<notin> set zs" and at: "?a \<noteq> t"
      using dist fresh xs by auto
    let ?nd = "\<lparr>qmsg = m, qnext = ?a, qwhen = now\<rparr>\<lparr>qnext := qnext tn\<rparr>"
    let ?h = "(qheap l)(?a \<mapsto> ?nd, t \<mapsto> tn\<lparr>qnext := ?a\<rparr>)"
    have hz: "qpath ?h x zs t"
      using pz tz az by (simp add: qpath_upd)
    have path': "qpath ?h x (xs @ [?a]) x"
      using hz at tnext by (simp add: xs qpath_append)
    have msgs: "queue_msgs (l\<lparr>qheap := ?h\<rparr>) (xs @ [?a]) = queue_msgs l xs @ [m]"
      using fresh at tn by (auto simp: queue_msgs_def)
    have below': "\<forall>y\<in>set xs. y < Suc ?a"
      using below by auto
    show ?thesis
      using oq tn ne hx dist fresh below' num mem path' msgs
      by (simp add: link_put_def Let_def queue_rep_def list.case_eq_if)
  qed
qed

lemma dequeue_rep_Nil: "queue_rep l [] \<Longrightarrow> dequeue l = Inr (None, l)"
  by (simp add: queue_rep_def dequeue_def)

lemma dequeue_rep:
  assumes rep: "queue_rep l (x # ys)"
  shows "\<exists>l'. dequeue l = Inr (Some (hd (queue_msgs l (x # ys))), l') \<and> queue_rep l' ys
              \<and> queue_msgs l' ys = tl (queue_msgs l (x # ys))"
proof -
  let ?xs = "x # ys"
  have dist: "distinct ?xs" and below: "\<forall>y\<in>set ?xs. y < qalloc l"
    and num: "queue_num l = int (length ?xs)"
    and mem: "queue_mem l = sum_list (map message_size (queue_msgs l ?xs))"
    using rep by (auto simp: queue_rep_def simp del: qpath.simps)
  have oq: "out_queue l = Some (last ?xs)" and path: "qpath (qheap l) x ?xs x"
    using queue_rep_nonempty [OF rep] by simp_all
  obtain zs t where xs: "?xs = zs @ [t]"
    by (metis list.distinct(1) rev_exhaust)
  from path xs obtain tn where tn: "qheap l t = Some tn" and tnext: "qnext tn = x"
    and pz: "qpath (qheap l) x zs t"
    by (auto simp: qpath_snoc simp del: qpath.simps)
  from path obtain xn where xn: "qheap l x = Some xn" and py: "qpath (qheap l) (qnext xn) ys x"
    by (auto split: option.splits)
  have t_last: "last ?xs = t" using xs by simp
  have hdm: "hd (queue_msgs l ?xs) = qmsg xn" using xn by (simp add: queue_msgs_def)
  show ?thesis
  proof (cases ys)
    case Nil
    then have tx: "t = x" using t_last by simp
    show ?thesis
      using oq tn tnext tx xn Nil num mem hdm
      by (simp add: dequeue_def Let_def queue_rep_def queue_msgs_def)
  next
    case (Cons y ws)
    obtain vs where ys: "ys = vs @ [t]"
      using xs Cons by (cases zs) auto
    have tx: "t \<noteq> x" using dist ys by auto
    have xv: "x \<notin> set vs" and tv: "t \<notin> set vs"
      using dist ys by auto
    have y: "y = qnext xn" using py Cons by simp
    from py ys have pv: "qpath (qheap l) y vs t"
      using Cons y by (auto simp: qpath_snoc simp del: qpath.simps)
    let ?h = "((qheap l)(t \<mapsto> tn\<lparr>qnext := qnext xn\<rparr>))(x := None)"
    have pv': "qpath ?h y vs t"
      using pv xv tv by (simp add: qpath_upd)
    have path': "qpath ?h y ys y"
      using pv' tx y by (simp add: ys qpath_append)
    have msgs': "queue_msgs (l\<lparr>qheap := ?h\<rparr>) ys = tl (queue_msgs l ?xs)"
      using tn tx xv dist ys by (auto simp: queue_msgs_def)
    have mem': "queue_mem l - message_size (qmsg xn) =
                sum_list (map message_size (tl (queue_msgs l ?xs)))"
      using mem xn by (simp add: queue_msgs_def)
    have ne: "ys \<noteq> []" and hy: "hd ys = y" using Cons by simp_all
    have last_ys: "last ys = t" using ys by simp
    show ?thesis
      using oq t_last tn tnext tx xn num mem' msgs' hdm path' ne hy last_ys dist below
      by (simp add: dequeue_def Let_def queue_rep_def list.case_eq_if
          del: qpath.simps)
  qed
qed

lemma link_queue_drop_rep:
  assumes "queue_rep l xs"
  shows "\<exists>l'. link_queue_drop l = Inr l' \<and> queue_rep l' (tl xs)
              \<and> queue_msgs l' (tl xs) = tl (queue_msgs l xs)"
proof (cases xs)
  case Nil
  then show ?thesis
    using assms by (simp add: link_queue_drop_def queue_rep_def queue_msgs_def)
next
  case (Cons x ys)
  with assms obtain l' where "dequeue l = Inr (Some (hd (queue_msgs l xs)), l')"
    and "queue_rep l' ys" and "queue_msgs l' ys = tl (queue_msgs l xs)"
    using dequeue_rep by blast
  moreover have "out_queue l \<noteq> None"
    using queue_rep_nonempty [OF assms] Cons by simp
  ultimately show ?thesis
    using Cons by (simp add: link_queue_drop_def)
qed

lemma queue_run_rep:
  assumes "queue_rep l xs"
  shows "\<exists>l' ys. queue_run l ops = Inr l' \<and> queue_rep l' ys
                 \<and> queue_msgs l' ys = fifo_run (queue_msgs l xs) ops"
  using assms
proof (induction ops arbitrary: l xs)
  case Nil
  then show ?case by auto
next
  case (Cons op ops)
  show ?case
  proof (cases op)
    case (Put m now)
    obtain l' where "link_put l m now = Inr l'" and "queue_rep l' (xs @ [qalloc l])"
      and "queue_msgs l' (xs @ [qalloc l]) = queue_msgs l xs @ [m]"
      using link_put_rep [OF Cons.prems] by blast
    with Put Cons.IH show ?thesis by fastforce
  next
    case Drop
    obtain l' where "link_queue_drop l = Inr l'" and "queue_rep l' (tl xs)"
      and "queue_msgs l' (tl xs) = tl (queue_msgs l xs)"
      using link_queue_drop_rep [OF Cons.prems] by blast
    with Drop Cons.IH show ?thesis by fastforce
  qed
qed

lemma queue_rep_new_link: "queue_rep new_link []"
  by (simp add: queue_rep_def new_link_def queue_msgs_def)

lemma queue_rep_out_msg [simp]: "queue_rep (l\<lparr>out_msg := v\<rparr>) xs = queue_rep l xs"
  and queue_msgs_out_msg [simp]: "queue_msgs (l\<lparr>out_msg := v\<rparr>) = queue_msgs l"
  by (simp_all add: queue_rep_def queue_msgs_def fun_eq_iff split: list.split)

lemma queue_run_pending:
  "queue_run l ops = Inr l' \<Longrightarrow> out_pending_same l l'"
proof (induction l ops rule: queue_run.induct)
  case (1 l)
  then show ?case by (simp add: out_pending_same_def)
next
  case (2 l m now ops)
  then obtain l1 where p: "link_put l m now = Inr l1" and r: "queue_run l1 ops = Inr l'"
    by (auto split: sum.splits)
  have "out_pending_same l l1"
    using p by (auto simp: link_put_def Let_def out_pending_same_def split: option.splits)
  then show ?case
    using 2(1) [OF p r] by (simp add: out_pending_same_def)
next
  case (3 l ops)
  then obtain l1 where p: "link_queue_drop l = Inr l1" and r: "queue_run l1 ops = Inr l'"
    by (auto split: sum.splits)
  have "out_pending_same l l1"
    using p by (auto simp: link_queue_drop_def dequeue_def Let_def out_pending_same_def
        split: option.splits if_splits sum.splits prod.splits)
  then show ?case
    using 3(1) [OF p r] by (simp add: out_pending_same_def)
qed

text \<open>
  C6. Starting from a fresh link, every sequence of \<^verbatim>\<open>link_put\<close> and
  \<^verbatim>\<open>link_queue_drop\<close> calls succeeds, and afterwards \<^verbatim>\<open>link_queue_num\<close> is the number
  of packets a FIFO list would hold and \<^verbatim>\<open>link_queue_mem\<close> the sum of their
  \<^verbatim>\<open>message_size\<close>s.
\<close>

theorem queue_accounting:
  "\<exists>l'. queue_run new_link ops = Inr l'
        \<and> link_queue_num l' = int (length (fifo_run [] ops))
        \<and> link_queue_mem l' = sum_list (map message_size (fifo_run [] ops))"
proof -
  obtain l' ys where run: "queue_run new_link ops = Inr l'" and rep: "queue_rep l' ys"
    and msgs: "queue_msgs l' ys = fifo_run (queue_msgs new_link []) ops"
    using queue_run_rep [OF queue_rep_new_link] by blast
  have nil: "queue_msgs new_link [] = []"
    by (simp add: queue_msgs_def)
  have "length ys = length (fifo_run [] ops)"
    using arg_cong [OF msgs, of length] nil by (simp add: queue_msgs_def)
  then show ?thesis
    using run rep msgs nil by (simp add: queue_rep_def link_queue_num_def link_queue_mem_def)
qed

text \<open>
  C7. After any sequence of puts and drops on a fresh link, \<^verbatim>\<open>dequeue\<close> returns the
  oldest packet still queued (the head of the FIFO list), or nothing when the
  queue is empty: messages leave in the order they were put.
\<close>

theorem dequeue_oldest_first:
  "\<exists>l' l''. queue_run new_link ops = Inr l' \<and> dequeue l' = Inr (
       (case fifo_run [] ops of [] \<Rightarrow> None | m # _ \<Rightarrow> Some m), l'')"
proof -
  obtain l' ys where run: "queue_run new_link ops = Inr l'" and rep: "queue_rep l' ys"
    and msgs: "queue_msgs l' ys = fifo_run (queue_msgs new_link []) ops"
    using queue_run_rep [OF queue_rep_new_link] by blast
  show ?thesis
  proof (cases ys)
    case Nil
    then show ?thesis
      using run rep msgs dequeue_rep_Nil [of l'] by (simp add: queue_msgs_def)
  next
    case (Cons x zs)
    then obtain l'' where "dequeue l' = Inr (Some (hd (queue_msgs l' ys)), l'')"
      using dequeue_rep rep by blast
    moreover have "fifo_run [] ops = queue_msgs l' ys"
      using msgs by (simp add: queue_msgs_def)
    ultimately show ?thesis
      using run Cons by (simp add: queue_msgs_def)
  qed
qed


end
