(* ===== verification/Output.thy ===== *)
theory Output
  imports Queue
begin

text \<open>
  The output state machine of \<^verbatim>\<open>src/libgale/core_link.c\<close> (lines 408--580). Each
  \<^verbatim>\<open>ofn_*\<close> function writes the bytes of one piece of a frame and chooses the next
  state; \<^verbatim>\<open>ofn_idle\<close> picks the pending fact of highest priority, writes the frame
  header (opcode and length) and moves the fact into the transmission fields
  \<^verbatim>\<open>out_msg\<close>, \<^verbatim>\<open>out_text\<close>, \<^verbatim>\<open>out_cid\<close> and \<^verbatim>\<open>out_data\<close>. The model returns the bytes
  written, the link and the machine state, or the failed assertion.

  The output buffer (\<^verbatim>\<open>io.c\<close>, not under \<^verbatim>\<open>src/\<close>) is modelled from the
  specification (section 4.4): while the state's \<^verbatim>\<open>ready\<close> function allows it, it
  calls \<^verbatim>\<open>next\<close> and collects the bytes. \<open>output_run n\<close> does so at most \<open>n\<close> times:
  the fuel stands for the output space the socket offers during one write
  callback, so a run that stops on fuel is a run that is continued by the next
  callback.
\<close>

subsection \<open>States: \<^verbatim>\<open>ost_*\<close>\<close>

definition ost_version :: "output_state \<Rightarrow> output_state" where
  "ost_version out = out\<lparr>oready := Output_always_ready, onext := Ofn_version\<rparr>"

definition ost_idle :: "output_state \<Rightarrow> output_state" where
  "ost_idle out = out\<lparr>oready := Ofn_idle_ready, onext := Ofn_idle\<rparr>"

definition initial_output :: output_state where
  "initial_output = ost_version \<lparr>onext = Ofn_idle, oready = Ofn_idle_ready\<rparr>"

subsection \<open>Writing the pieces of a frame: \<^verbatim>\<open>ofn_*\<close>\<close>

type_synonym ostep = "(gdata \<times> gale_link \<times> output_state) result"

definition ofn_version :: "gale_link \<Rightarrow> output_state \<Rightarrow> ostep" where
  "ofn_version l out = Inr (gale_pack_u32 (of_nat PROTOCOL_VERSION), l, ost_idle out)"

definition ofn_msg_data :: "gale_link \<Rightarrow> output_state \<Rightarrow> ostep" where
  "ofn_msg_data l out =
     (case out_msg l of
        None \<Rightarrow> Inl (Bad_pointer ''ofn_msg_data'')
      | Some m \<Rightarrow> Inr (gale_pack_u32 0 @ content m, l\<lparr>out_msg := None\<rparr>, ost_idle out))"

definition ofn_message :: "gale_link \<Rightarrow> output_state \<Rightarrow> ostep" where
  "ofn_message l out =
     (case out_msg l of
        None \<Rightarrow> Inl (Bad_pointer ''ofn_message'')
      | Some m \<Rightarrow>
          (let len = gale_text_len_size (routing m) in
           Inr (gale_pack_u32 (of_nat len) @ gale_pack_text_len (routing m), l,
                out\<lparr>onext := Ofn_msg_data\<rparr>)))"

definition ofn_text :: "gale_link \<Rightarrow> output_state \<Rightarrow> ostep" where
  "ofn_text l out = Inr (gale_pack_text_len (out_text l), l\<lparr>out_text := []\<rparr>, ost_idle out)"

definition ofn_data :: "gale_link \<Rightarrow> output_state \<Rightarrow> ostep" where
  "ofn_data l out = Inr (out_data l, l, ost_idle out)"

definition ofn_cid :: "gale_link \<Rightarrow> output_state \<Rightarrow> ostep" where
  "ofn_cid l out = Inr (out_cid l, l, out\<lparr>onext := Ofn_data\<rparr>)"

text \<open>
  The header \<^verbatim>\<open>ofn_idle\<close> packs into the eight bytes it reserves, and the frame
  length of a will or a puff (lines 548--553, 557--560).
\<close>

definition frame_header :: "u32 \<Rightarrow> nat \<Rightarrow> gdata" where
  "frame_header op len = gale_pack_u32 op @ gale_pack_u32 (of_nat len)"

definition packet_frame_len :: "gale_packet \<Rightarrow> nat" where
  "packet_frame_len m =
     gale_u32_size + length (routing m) * gale_wch_size + gale_u32_size + length (content m)"

text \<open>
  \<^verbatim>\<open>ofn_idle\<close>, branch by branch in the order of the source: watch/forget, fetch,
  publish, miss/supply, assert/retract, complete (generation 1), then gimme, will
  and the queue (generation 0). Only the watch and complete branches remove the
  key they transmit from its map.
\<close>

definition ofn_idle_v0 :: "gale_link \<Rightarrow> output_state \<Rightarrow> ostep" where
  "ofn_idle_v0 l out =
     (if out_gimme l \<noteq> [] then
        Inr (frame_header opcode_gimme (length (out_gimme l) * gale_wch_size),
             l\<lparr>out_text := out_gimme l, out_gimme := []\<rparr>, out\<lparr>onext := Ofn_text\<rparr>)
      else case out_will l of
        Some m \<Rightarrow>
          Inr (frame_header opcode_will (packet_frame_len m),
               l\<lparr>out_msg := Some m, out_will := None\<rparr>, out\<lparr>onext := Ofn_message\<rparr>)
      | None \<Rightarrow>
          (if out_queue l \<noteq> None then
             (case dequeue l of
                Inl e \<Rightarrow> Inl e
              | Inr (None, _) \<Rightarrow> Inl (Bad_pointer ''ofn_idle'')
              | Inr (Some m, l') \<Rightarrow>
                  Inr (frame_header opcode_puff (packet_frame_len m),
                       l'\<lparr>out_msg := Some m\<rparr>, out\<lparr>onext := Ofn_message\<rparr>))
           else Inl (Assert_fail ''ofn_idle'')))"

definition ofn_idle_assert :: "gale_link \<Rightarrow> output_state \<Rightarrow> ostep" where
  "ofn_idle_assert l out =
     (case gale_map_walk (out_assert l) of
        Some (key, ptr) \<Rightarrow>
          (let l' = l\<lparr>out_cid := key, out_data := []\<rparr>; out' = out\<lparr>onext := Ofn_cid\<rparr> in
           if ptr = St_yes then Inr (frame_header opcode_assert (length key), l', out')
           else if ptr = St_no then Inr (frame_header opcode_retract (length key), l', out')
           else Inl (Assert_fail ''ofn_idle''))
      | None \<Rightarrow>
          (case gale_map_walk (out_complete l) of
             Some (key, ptr) \<Rightarrow>
               (if ptr \<noteq> St_yes then Inl (Assert_fail ''ofn_idle'')
                else
                  let t = gale_text_from_data key in
                  Inr (frame_header opcode_complete (length t * gale_wch_size),
                       l\<lparr>out_text := t, out_complete := gale_map_add (out_complete l) key None\<rparr>,
                       out\<lparr>onext := Ofn_text\<rparr>))
           | None \<Rightarrow> ofn_idle_v0 l out))"

definition ofn_idle_supply :: "gale_link \<Rightarrow> output_state \<Rightarrow> ostep" where
  "ofn_idle_supply l out =
     (case gale_map_walk (out_supply l) of
        Some (key, ptr) \<Rightarrow>
          (if ptr = St_yes then Inl (Assert_fail ''ofn_idle'')
           else
             let d = (case ptr of St_data d \<Rightarrow> d | _ \<Rightarrow> []);
                 op = (if ptr = St_no then opcode_miss else opcode_supply) in
             if length key \<noteq> CID_LENGTH then Inl (Assert_fail ''ofn_idle'')
             else Inr (frame_header op (length key + length d),
                       l\<lparr>out_cid := key, out_data := d\<rparr>, out\<lparr>onext := Ofn_cid\<rparr>))
      | None \<Rightarrow> ofn_idle_assert l out)"

definition ofn_idle :: "gale_link \<Rightarrow> output_state \<Rightarrow> ostep" where
  "ofn_idle l out0 =
     (let out = out0\<lparr>oready := Output_always_ready\<rparr> in
      if out_msg l \<noteq> None then Inl (Assert_fail ''ofn_idle'')
      else if out_text l \<noteq> [] then Inl (Assert_fail ''ofn_idle'')
      else case gale_map_walk (out_watch l) of
        Some (key, ptr) \<Rightarrow>
          (let t = gale_text_from_data key;
               l' = l\<lparr>out_text := t, out_watch := gale_map_add (out_watch l) key None\<rparr>;
               out' = out\<lparr>onext := Ofn_text\<rparr> in
           if ptr = St_yes then Inr (frame_header opcode_watch (length t * gale_wch_size), l', out')
           else if ptr = St_no then Inr (frame_header opcode_forget (length t * gale_wch_size), l', out')
           else Inl (Assert_fail ''ofn_idle''))
      | None \<Rightarrow>
          (case gale_map_walk (out_fetch l) of
             Some (key, ptr) \<Rightarrow>
               (if ptr \<noteq> St_yes then Inl (Assert_fail ''ofn_idle'')
                else if length key \<noteq> CID_LENGTH then Inl (Assert_fail ''ofn_idle'')
                else Inr (frame_header opcode_fetch (length key),
                          l\<lparr>out_cid := key, out_data := []\<rparr>, out\<lparr>onext := Ofn_cid\<rparr>))
           | None \<Rightarrow>
               (if out_publish l \<noteq> [] then
                  Inr (frame_header opcode_publish (length (out_publish l) * gale_wch_size),
                       l\<lparr>out_text := out_publish l, out_publish := []\<rparr>, out\<lparr>onext := Ofn_text\<rparr>)
                else ofn_idle_supply l out)))"

definition ofn_idle_ready :: "gale_link \<Rightarrow> bool" where
  "ofn_idle_ready l \<longleftrightarrow>
     out_will l \<noteq> None \<or> out_gimme l \<noteq> [] \<or> out_queue l \<noteq> None \<or> out_publish l \<noteq> []
     \<or> gale_map_walk (out_watch l) \<noteq> None \<or> gale_map_walk (out_complete l) \<noteq> None
     \<or> gale_map_walk (out_assert l) \<noteq> None \<or> gale_map_walk (out_fetch l) \<noteq> None
     \<or> gale_map_walk (out_supply l) \<noteq> None"

subsection \<open>The output buffer\<close>

definition output_ready :: "gale_link \<Rightarrow> output_state \<Rightarrow> bool" where
  "output_ready l out =
     (case oready out of Output_always_ready \<Rightarrow> True | Ofn_idle_ready \<Rightarrow> ofn_idle_ready l)"

definition output_fire :: "gale_link \<Rightarrow> output_state \<Rightarrow> ostep" where
  "output_fire l out =
     (case onext out of
        Ofn_version \<Rightarrow> ofn_version l out
      | Ofn_idle \<Rightarrow> ofn_idle l out
      | Ofn_message \<Rightarrow> ofn_message l out
      | Ofn_msg_data \<Rightarrow> ofn_msg_data l out
      | Ofn_text \<Rightarrow> ofn_text l out
      | Ofn_cid \<Rightarrow> ofn_cid l out
      | Ofn_data \<Rightarrow> ofn_data l out)"

fun output_run :: "nat \<Rightarrow> gale_link \<Rightarrow> output_state \<Rightarrow> ostep" where
  "output_run 0 l out = Inr ([], l, out)"
| "output_run (Suc n) l out =
     (if \<not> output_ready l out then Inr ([], l, out)
      else case output_fire l out of
        Inl e \<Rightarrow> Inl e
      | Inr (d, l', out') \<Rightarrow>
          (case output_run n l' out' of
             Inl e \<Rightarrow> Inl e
           | Inr (d', l'', out'') \<Rightarrow> Inr (d @ d', l'', out'')))"

definition ostep_keeps :: "(gale_link \<Rightarrow> gale_link \<Rightarrow> bool) \<Rightarrow> gale_link \<Rightarrow> ostep \<Rightarrow> bool" where
  "ostep_keeps R l r = (case r of Inl _ \<Rightarrow> True | Inr (_, l', _) \<Rightarrow> R l l')"

text \<open>
  What one step of the output machine leaves alone: the assert, fetch and supply
  maps, and the complete map while an assert or retract is pending.
\<close>

definition out_kept :: "gale_link \<Rightarrow> gale_link \<Rightarrow> bool" where
  "out_kept l l' \<longleftrightarrow>
     out_assert l' = out_assert l \<and> out_fetch l' = out_fetch l \<and> out_supply l' = out_supply l
     \<and> (out_assert l \<noteq> [] \<longrightarrow> out_complete l' = out_complete l)"

lemma gale_map_walk_Nil [simp]: "gale_map_walk [] = None"
  by (simp add: gale_map_walk_def)

lemma ostep_keeps_simps [simp]:
  "ostep_keeps R l (Inl e)"
  "ostep_keeps R l (Inr (d, l', out)) = R l l'"
  by (simp_all add: ostep_keeps_def)

lemma output_run_add:
  "output_run (m + n) l out =
     (case output_run m l out of
        Inl e \<Rightarrow> Inl e
      | Inr (d, l', out') \<Rightarrow>
          (case output_run n l' out' of
             Inl e \<Rightarrow> Inl e
           | Inr (d', l'', out'') \<Rightarrow> Inr (d @ d', l'', out'')))"
proof (induction m arbitrary: l out)
  case 0
  then show ?case by (simp split: sum.split prod.split)
next
  case (Suc m)
  show ?case
  proof (cases "output_ready l out")
    case False
    then show ?thesis by (cases n) simp_all
  next
    case True
    then show ?thesis
      using Suc.IH by (simp split: sum.split prod.split)
  qed
qed

lemma fetch_cycle:
  assumes "out_msg l = None" "out_text l = []" "out_watch l = []"
    and "gale_map_walk (out_fetch l) = Some (k, St_yes)" "length k = CID_LENGTH"
  shows "output_run 3 l (ost_idle out) =
           Inr (frame_header opcode_fetch CID_LENGTH @ k, l\<lparr>out_cid := k, out_data := []\<rparr>, ost_idle out)"
  using assms
  by (simp add: numeral_3_eq_3 output_ready_def ofn_idle_ready_def output_fire_def ofn_idle_def
      ofn_cid_def ofn_data_def ost_idle_def Let_def)

lemma assert_cycle:
  assumes "out_msg l = None" "out_text l = []" "out_watch l = []" "out_fetch l = []"
    and "out_publish l = []" "out_supply l = []" "gale_map_walk (out_assert l) = Some (k, St_yes)"
  shows "output_run 3 l (ost_idle out) =
           Inr (frame_header opcode_assert (length k) @ k, l\<lparr>out_cid := k, out_data := []\<rparr>, ost_idle out)"
  using assms
  by (simp add: numeral_3_eq_3 output_ready_def ofn_idle_ready_def output_fire_def ofn_idle_def
      ofn_idle_supply_def ofn_idle_assert_def ofn_cid_def ofn_data_def ost_idle_def Let_def)

lemma puff_cycle:
  assumes rep: "queue_rep l (x # xs)"
    and pend: "out_msg l = None" "out_text l = []" "out_watch l = []" "out_fetch l = []"
      "out_publish l = []" "out_supply l = []" "out_assert l = []" "out_complete l = []"
      "out_gimme l = []" "out_will l = None"
  shows "\<exists>l'. output_run 3 l (ost_idle out) =
           Inr (frame_header opcode_puff (packet_frame_len (hd (queue_msgs l (x # xs))))
                @ gale_pack_u32 (of_nat (gale_text_len_size (routing (hd (queue_msgs l (x # xs))))))
                @ gale_pack_text_len (routing (hd (queue_msgs l (x # xs))))
                @ gale_pack_u32 0 @ content (hd (queue_msgs l (x # xs))),
                l', ost_idle out)
         \<and> queue_rep l' xs \<and> queue_msgs l' xs = tl (queue_msgs l (x # xs))"
proof -
  let ?m = "hd (queue_msgs l (x # xs))"
  obtain l1 where dq: "dequeue l = Inr (Some ?m, l1)" and rep1: "queue_rep l1 xs"
    and msgs1: "queue_msgs l1 xs = tl (queue_msgs l (x # xs))"
    using dequeue_rep [OF rep] by blast
  have q: "out_queue l \<noteq> None"
    using queue_rep_nonempty [OF rep] by simp
  have "output_run 3 l (ost_idle out) =
        Inr (frame_header opcode_puff (packet_frame_len ?m)
             @ gale_pack_u32 (of_nat (gale_text_len_size (routing ?m)))
             @ gale_pack_text_len (routing ?m) @ gale_pack_u32 0 @ content ?m,
             l1\<lparr>out_msg := None\<rparr>, ost_idle out)"
    using pend q dq
    by (simp add: numeral_3_eq_3 output_ready_def ofn_idle_ready_def output_fire_def ofn_idle_def
        ofn_idle_supply_def ofn_idle_assert_def ofn_idle_v0_def ofn_message_def ofn_msg_data_def
        ost_idle_def Let_def)
  then show ?thesis
    using rep1 msgs1 by auto
qed

text \<open>
  C8. A pending fetch request is never removed from \<^verbatim>\<open>out_fetch\<close> by
  \<^verbatim>\<open>ofn_idle\<close> (lines 493-500), and fetch outranks publish, supply, assert, complete,
  subscribe, will and the queue. So once a fetch is pending and no watch change is,
  every further frame the output machine writes is the same fetch frame: \<open>3 * n\<close>
  steps write it \<open>n\<close> times and leave every other pending fact where it was.
\<close>

theorem fetch_starves_output:
  assumes "out_msg l = None" "out_text l = []" "out_watch l = []"
    and "gale_map_walk (out_fetch l) = Some (k, St_yes)" "length k = CID_LENGTH"
  shows "output_run (3 * n) l (ost_idle out) =
           Inr (concat (replicate n (frame_header opcode_fetch CID_LENGTH @ k)),
                (if n = 0 then l else l\<lparr>out_cid := k, out_data := []\<rparr>), ost_idle out)"
  using assms
proof (induction n arbitrary: l)
  case 0
  then show ?case by simp
next
  case (Suc n)
  let ?l1 = "l\<lparr>out_cid := k, out_data := []\<rparr>"
  have "output_run (3 + 3 * n) l (ost_idle out) =
          (case output_run (3 * n) ?l1 (ost_idle out) of
             Inl e \<Rightarrow> Inl e
           | Inr (d', l'', out'') \<Rightarrow> Inr ((frame_header opcode_fetch CID_LENGTH @ k) @ d', l'', out''))"
    using fetch_cycle [OF Suc.prems] by (simp add: output_run_add)
  moreover have "output_run (3 * n) ?l1 (ost_idle out) =
      Inr (concat (replicate n (frame_header opcode_fetch CID_LENGTH @ k)),
           (if n = 0 then ?l1 else ?l1\<lparr>out_cid := k, out_data := []\<rparr>), ost_idle out)"
    using Suc.IH [of ?l1] Suc.prems by simp
  ultimately show ?case by simp
qed

lemma out_kept_refl [simp]: "out_kept l l"
  by (simp add: out_kept_def)

lemma out_kept_trans: "out_kept l l1 \<Longrightarrow> out_kept l1 l2 \<Longrightarrow> out_kept l l2"
  by (simp add: out_kept_def)

lemma dequeue_out_kept:
  "dequeue l = Inr (m, l') \<Longrightarrow> out_kept l l' \<and> out_complete l' = out_complete l"
  by (auto simp: dequeue_def Let_def out_kept_def split: option.splits if_splits)

lemma ofn_pieces_out_kept:
  "ostep_keeps out_kept l (ofn_version l out)"
  "ostep_keeps out_kept l (ofn_msg_data l out)"
  "ostep_keeps out_kept l (ofn_message l out)"
  "ostep_keeps out_kept l (ofn_text l out)"
  "ostep_keeps out_kept l (ofn_data l out)"
  "ostep_keeps out_kept l (ofn_cid l out)"
  by (simp_all add: ofn_version_def ofn_msg_data_def ofn_message_def ofn_text_def ofn_data_def
      ofn_cid_def Let_def out_kept_def split: option.split)

lemma ofn_idle_v0_out_kept: "ostep_keeps out_kept l (ofn_idle_v0 l out)"
proof -
  have "dequeue l = Inr (Some m, l') \<Longrightarrow> out_kept l (l'\<lparr>out_msg := Some m\<rparr>)" for m l'
    using dequeue_out_kept [of l "Some m" l'] by (simp add: out_kept_def)
  then show ?thesis
    by (auto simp: ofn_idle_v0_def out_kept_def split: option.split sum.split prod.split)
qed

lemma ofn_idle_assert_out_kept: "ostep_keeps out_kept l (ofn_idle_assert l out)"
  using ofn_idle_v0_out_kept [of l out]
  by (auto simp: ofn_idle_assert_def Let_def out_kept_def split: option.split prod.split)

lemma ofn_idle_supply_out_kept: "ostep_keeps out_kept l (ofn_idle_supply l out)"
  using ofn_idle_assert_out_kept [of l out]
  by (auto simp: ofn_idle_supply_def Let_def out_kept_def split: option.split prod.split)

lemma ofn_idle_out_kept: "ostep_keeps out_kept l (ofn_idle l out)"
  using ofn_idle_supply_out_kept [of l]
  by (auto simp: ofn_idle_def Let_def out_kept_def split: option.split prod.split)

lemma output_fire_out_kept: "ostep_keeps out_kept l (output_fire l out)"
  by (cases "onext out")
     (simp_all add: output_fire_def ofn_pieces_out_kept ofn_idle_out_kept)

lemma output_run_out_kept:
  "output_run n l out = Inr (d, l', out') \<Longrightarrow> out_kept l l'"
proof (induction n arbitrary: l out d)
  case 0
  then show ?case by simp
next
  case (Suc n)
  show ?case
  proof (cases "output_ready l out")
    case False
    then show ?thesis using Suc.prems by simp
  next
    case True
    then obtain d1 l1 out1 d2 where f: "output_fire l out = Inr (d1, l1, out1)"
      and r: "output_run n l1 out1 = Inr (d2, l', out')"
      using Suc.prems by (auto split: sum.splits prod.splits)
    have "out_kept l l1"
      using output_fire_out_kept [of l out] f by simp
    then show ?thesis
      using Suc.IH [OF r] out_kept_trans by blast
  qed
qed

text \<open>
  C9. The ordering promise of \<^verbatim>\<open>ofn_idle\<close> (line 479, specification 4.4): while an
  assert or retract notice is pending, no run of the output machine transmits a
  complete notice, so the complete map is the same after the run.
\<close>

theorem complete_waits_for_assert:
  assumes "output_run n l out = Inr (d, l', out')" and "out_assert l \<noteq> []"
  shows "out_complete l' = out_complete l"
  using output_run_out_kept [OF assms(1)] assms(2) by (simp add: out_kept_def)

theorem complete_waits_for_assert_witness:
  "\<exists>d l' out'.
     output_run 3 (new_link\<lparr>out_assert := [(replicate 20 0, St_yes)], out_complete := [([0, 1], St_yes)]\<rparr>)
       (ost_idle initial_output) = Inr (d, l', out')
     \<and> out_assert (new_link\<lparr>out_assert := [(replicate 20 0, St_yes)], out_complete := [([0, 1], St_yes)]\<rparr>) \<noteq> []
     \<and> out_complete l' = [([0, 1], St_yes)]"
proof -
  let ?l = "new_link\<lparr>out_assert := [(replicate 20 0, St_yes)], out_complete := [([0, 1], St_yes)]\<rparr>"
  have "\<exists>r. output_run 3 ?l (ost_idle initial_output) = Inr r"
    by (simp add: numeral_3_eq_3 new_link_def output_ready_def ofn_idle_ready_def output_fire_def
        ofn_idle_def ofn_idle_supply_def ofn_idle_assert_def ofn_cid_def ofn_data_def ost_idle_def
        gale_map_walk_def gale_make_map_def Let_def)
  then obtain d l' out' where r: "output_run 3 ?l (ost_idle initial_output) = Inr (d, l', out')"
    by auto
  have "out_complete l' = out_complete ?l"
    using complete_waits_for_assert [OF r] by simp
  then show ?thesis
    using r by simp
qed

theorem fetch_starves_output_witness:
  "out_msg (new_link\<lparr>out_fetch := [(replicate 20 0, St_yes)]\<rparr>) = None
   \<and> output_run (3 * 2) (new_link\<lparr>out_fetch := [(replicate 20 0, St_yes)]\<rparr>) (ost_idle initial_output) =
       Inr (concat (replicate 2 (frame_header opcode_fetch CID_LENGTH @ replicate 20 0)),
            new_link\<lparr>out_fetch := [(replicate 20 0, St_yes)], out_cid := replicate 20 0, out_data := []\<rparr>,
            ost_idle initial_output)"
  using fetch_starves_output [of "new_link\<lparr>out_fetch := [(replicate 20 0, St_yes)]\<rparr>"
      "replicate 20 0" 2 initial_output]
  by (simp add: new_link_def gale_map_walk_def gale_make_map_def CID_LENGTH_def)

text \<open>
  C10. No run of the output machine removes an entry from the fetch, supply
  (miss and supply) or assert (assert and retract) maps: \<^verbatim>\<open>ofn_idle\<close> copies the
  entry it transmits and leaves it in its map, so it is transmitted again at every
  later idle visit.
\<close>

theorem output_never_clears_cid_maps:
  assumes "output_run n l out = Inr (d, l', out')"
  shows "out_fetch l' = out_fetch l \<and> out_supply l' = out_supply l \<and> out_assert l' = out_assert l"
  using output_run_out_kept [OF assms] by (simp add: out_kept_def)

theorem output_never_clears_cid_maps_witness:
  "\<exists>d l' out'.
     output_run 3 (new_link\<lparr>out_supply := [(replicate 20 0, St_no)]\<rparr>) (ost_idle initial_output)
       = Inr (d, l', out')
     \<and> out_supply l' = [(replicate 20 0, St_no)]"
proof -
  let ?l = "new_link\<lparr>out_supply := [(replicate 20 0, St_no)]\<rparr>"
  have "\<exists>r. output_run 3 ?l (ost_idle initial_output) = Inr r"
    by (simp add: numeral_3_eq_3 new_link_def output_ready_def ofn_idle_ready_def output_fire_def
        ofn_idle_def ofn_idle_supply_def ofn_cid_def ofn_data_def ost_idle_def
        gale_map_walk_def gale_make_map_def CID_LENGTH_def Let_def)
  then obtain d l' out' where r: "output_run 3 ?l (ost_idle initial_output) = Inr (d, l', out')"
    by auto
  have "out_supply l' = out_supply ?l"
    using output_never_clears_cid_maps [OF r] by simp
  then show ?thesis
    using r by simp
qed

end
