(* ===== verification/Api.thy ===== *)
theory Api
  imports Link
begin

text \<open>
  The caller's interface of \<^verbatim>\<open>src/libgale/core_link.c\<close>. The transmit side
  (\<^verbatim>\<open>link_subscribe\<close>, \<^verbatim>\<open>link_will\<close>, \<^verbatim>\<open>link_shutdown\<close> and the generation-1
  \<^verbatim>\<open>ltx_*\<close> functions, lines 826-829, 864-867, 816-819, 965-1020) only records a pending
  fact in the link, for the output machine to transmit; the generation-1 calls
  first assert that the peer announced a version above zero. The receive side
  (\<^verbatim>\<open>lrx_*\<close>, lines 1022-1066, through \<^verbatim>\<open>get_text\<close> and \<^verbatim>\<open>get_data\<close>, lines 584-600)
  drains one slot the input machine filled. A drained value is returned as
  \<open>Some v\<close> (the C function returns 1 and writes \<open>v\<close> through its pointer), an empty
  slot as \<open>None\<close> (it returns 0). \<^verbatim>\<open>activate\<close> and \<^verbatim>\<open>input_buffer_more\<close> only
  reschedule I/O: in the model the input buffer asks the state's readiness each
  time it offers a byte, so they have no counterpart.
\<close>

subsection \<open>Generation 0\<close>

definition link_subscribe :: "gale_link \<Rightarrow> gtext \<Rightarrow> gale_link" where
  "link_subscribe l spec = l\<lparr>out_gimme := spec\<rparr>"

definition link_will :: "gale_link \<Rightarrow> gale_packet \<Rightarrow> gale_link" where
  "link_will l m = l\<lparr>out_will := Some m\<rparr>"

definition link_shutdown :: "gale_link \<Rightarrow> gale_link" where
  "link_shutdown l = l\<lparr>out_shutdown := Do_shutdown\<rparr>"

subsection \<open>Generation 1: transmitting\<close>

text \<open>
  \<^verbatim>\<open>combine\<close> builds the key of an assert or retract: the content id followed by
  the category packed by \<^verbatim>\<open>gale_pack_text\<close>, that is with its character count in
  front. Its closing assertion compares the length written with the sizes and
  always holds.
\<close>

definition combine :: "gtext \<Rightarrow> gdata \<Rightarrow> gdata" where
  "combine cat cid = cid @ gale_pack_text cat"

definition version_gate :: "gale_link \<Rightarrow> string \<Rightarrow> gale_link \<Rightarrow> gale_link result" where
  "version_gate l f l' = (if 0 < in_version l then Inr l' else Inl (Assert_fail f))"

definition ltx_publish :: "gale_link \<Rightarrow> gtext \<Rightarrow> gale_link result" where
  "ltx_publish l spec = version_gate l ''ltx_publish'' (l\<lparr>out_publish := spec\<rparr>)"

definition ltx_watch :: "gale_link \<Rightarrow> gtext \<Rightarrow> gale_link result" where
  "ltx_watch l category = version_gate l ''ltx_watch''
     (l\<lparr>out_watch := gale_map_add (out_watch l) (gale_text_as_data category) (Some St_yes)\<rparr>)"

definition ltx_forget :: "gale_link \<Rightarrow> gtext \<Rightarrow> gale_link result" where
  "ltx_forget l category = version_gate l ''ltx_forget''
     (l\<lparr>out_watch := gale_map_add (out_watch l) (gale_text_as_data category) (Some St_no)\<rparr>)"

definition ltx_complete :: "gale_link \<Rightarrow> gtext \<Rightarrow> gale_link result" where
  "ltx_complete l category = version_gate l ''ltx_complete''
     (l\<lparr>out_complete := gale_map_add (out_complete l) (gale_text_as_data category) (Some St_yes)\<rparr>)"

definition ltx_assert :: "gale_link \<Rightarrow> gtext \<Rightarrow> gdata \<Rightarrow> gale_link result" where
  "ltx_assert l cat cid = version_gate l ''ltx_assert''
     (l\<lparr>out_assert := gale_map_add (out_assert l) (combine cat cid) (Some St_yes)\<rparr>)"

definition ltx_retract :: "gale_link \<Rightarrow> gtext \<Rightarrow> gdata \<Rightarrow> gale_link result" where
  "ltx_retract l cat cid = version_gate l ''ltx_retract''
     (l\<lparr>out_assert := gale_map_add (out_assert l) (combine cat cid) (Some St_no)\<rparr>)"

definition ltx_fetch :: "gale_link \<Rightarrow> gdata \<Rightarrow> gale_link result" where
  "ltx_fetch l cid = version_gate l ''ltx_fetch''
     (l\<lparr>out_fetch := gale_map_add (out_fetch l) cid (Some St_yes)\<rparr>)"

definition ltx_miss :: "gale_link \<Rightarrow> gdata \<Rightarrow> gale_link result" where
  "ltx_miss l cid = version_gate l ''ltx_miss''
     (l\<lparr>out_supply := gale_map_add (out_supply l) cid (Some St_no)\<rparr>)"

definition ltx_supply :: "gale_link \<Rightarrow> gdata \<Rightarrow> gdata \<Rightarrow> gale_link result" where
  "ltx_supply l cid d = version_gate l ''ltx_supply''
     (l\<lparr>out_supply := gale_map_add (out_supply l) cid (Some (St_data d))\<rparr>)"

subsection \<open>Generation 1: receiving\<close>

definition get_text :: "gtext \<Rightarrow> gtext option \<times> gtext" where
  "get_text from = (if from = [] then (None, from) else (Some from, []))"

definition get_data :: "gdata \<Rightarrow> gdata option \<times> gdata" where
  "get_data from = (if from = [] then (None, from) else (Some from, []))"

definition lrx_publish :: "gale_link \<Rightarrow> gtext option \<times> gale_link" where
  "lrx_publish l = (let (r, f) = get_text (in_publish l) in (r, l\<lparr>in_publish := f\<rparr>))"

definition lrx_watch :: "gale_link \<Rightarrow> gtext option \<times> gale_link" where
  "lrx_watch l = (let (r, f) = get_text (in_watch l) in (r, l\<lparr>in_watch := f\<rparr>))"

definition lrx_forget :: "gale_link \<Rightarrow> gtext option \<times> gale_link" where
  "lrx_forget l = (let (r, f) = get_text (in_forget l) in (r, l\<lparr>in_forget := f\<rparr>))"

definition lrx_complete :: "gale_link \<Rightarrow> gtext option \<times> gale_link" where
  "lrx_complete l = (let (r, f) = get_text (in_complete l) in (r, l\<lparr>in_complete := f\<rparr>))"

text \<open>
  \<^verbatim>\<open>lrx_assert\<close>, \<^verbatim>\<open>lrx_retract\<close> and \<^verbatim>\<open>lrx_supply\<close> write the content id to the
  caller and clear its slot before they look at the category (or data) slot,
  whether that is ready or not.
\<close>

definition lrx_assert :: "gale_link \<Rightarrow> (gtext option \<times> gdata) \<times> gale_link" where
  "lrx_assert l =
     (let cid = in_assert_cid l; l1 = l\<lparr>in_assert_cid := []\<rparr>;
          (r, f) = get_text (in_assert_cat l1) in
      ((r, cid), l1\<lparr>in_assert_cat := f\<rparr>))"

definition lrx_retract :: "gale_link \<Rightarrow> (gtext option \<times> gdata) \<times> gale_link" where
  "lrx_retract l =
     (let cid = in_retract_cid l; l1 = l\<lparr>in_retract_cid := []\<rparr>;
          (r, f) = get_text (in_retract_cat l1) in
      ((r, cid), l1\<lparr>in_retract_cat := f\<rparr>))"

definition lrx_fetch :: "gale_link \<Rightarrow> gdata option \<times> gale_link" where
  "lrx_fetch l = (let (r, f) = get_data (in_fetch_cid l) in (r, l\<lparr>in_fetch_cid := f\<rparr>))"

definition lrx_miss :: "gale_link \<Rightarrow> gdata option \<times> gale_link" where
  "lrx_miss l = (let (r, f) = get_data (in_miss_cid l) in (r, l\<lparr>in_miss_cid := f\<rparr>))"

definition lrx_supply :: "gale_link \<Rightarrow> (gdata option \<times> gdata) \<times> gale_link" where
  "lrx_supply l =
     (let cid = in_supply_cid l; l1 = l\<lparr>in_supply_cid := []\<rparr>;
          (r, f) = get_data (in_supply_data l1) in
      ((r, cid), l1\<lparr>in_supply_data := f\<rparr>))"

lemma combine_as_text:
  assumes "length t < 4294967296"
  shows "combine t c =
         c @ gale_pack_text_len (word_of_nat (length t div 65536) # word_of_nat (length t mod 65536) # t)"
proof -
  have "unat (of_nat (length t) :: u32) = length t"
    using assms by (simp add: unat_of_nat)
  then show ?thesis
    using gale_pack_u32_as_text [of "of_nat (length t)"]
    by (simp add: combine_def gale_pack_text_def)
qed

end
