(* ===== verification/Session.thy ===== *)
theory Session
  imports Input_Wf Output Api
begin

text \<open>
  The reactor integration of \<^verbatim>\<open>src/libgale/core_link.c\<close> (lines 602-625 and
  673-963): the link's registrations with the liboop event source, the three
  callbacks the source invokes (\<^verbatim>\<open>on_process\<close>, \<^verbatim>\<open>on_read\<close>, \<^verbatim>\<open>on_write\<close>), and the
  API functions that attach the link, register the caller's handlers or
  request work and then call \<^verbatim>\<open>activate\<close>.

  A \<open>session\<close> is the link together with what the event source holds for it:
  whether \<^verbatim>\<open>on_process\<close> is scheduled at \<^verbatim>\<open>OOP_TIME_NOW\<close> and the file descriptors
  on which \<^verbatim>\<open>on_read\<close> and \<^verbatim>\<open>on_write\<close> are registered, and the \<^verbatim>\<open>static last\<close> of
  \<^verbatim>\<open>gale_time_now\<close> that \<^verbatim>\<open>link_put\<close> reads (one per process in C, kept with the
  one session modelled; it starts as \<^verbatim>\<open>{ 0, 0, 0, 0 }\<close>, misc_time.c line 27). A callback of the caller is not run
  inside the model: the model returns which handler the C code calls and with
  what argument (a \<open>callback\<close>), and whatever the handler does is a later
  \<open>api_call\<close> step. The values the handlers return to liboop are not modelled.
\<close>

record session =
  slink :: gale_link
  reg_time :: bool
  reg_read :: "int set"
  reg_write :: "int set"
  clock :: gale_time

definition new_session :: session where
  "new_session = \<lparr>slink = new_link, reg_time = False, reg_read = {}, reg_write = {},
                  clock = \<lparr>sec_high = 0, sec_low = 0, frac_high = 0, frac_low = 0\<rparr>\<rparr>"

subsection \<open>Registrations: \<^verbatim>\<open>deactivate\<close>, \<^verbatim>\<open>activate\<close>\<close>

definition deactivate :: "session \<Rightarrow> session" where
  "deactivate s =
     (let f = fd (slink s); s1 = s\<lparr>reg_time := False\<rparr> in
      if f \<noteq> -1 then s1\<lparr>reg_read := reg_read s1 - {f}, reg_write := reg_write s1 - {f}\<rparr>
      else s1)"

definition activate :: "session \<Rightarrow> session" where
  "activate s =
     (let s1 = deactivate s; f = fd (slink s1); s2 = s1\<lparr>reg_time := True\<rparr> in
      if f \<noteq> -1 then s2\<lparr>reg_read := insert f (reg_read s2), reg_write := insert f (reg_write s2)\<rparr>
      else s2)"

subsection \<open>The reactor callbacks\<close>

text \<open>
  The handler the C code calls at the end of a callback, with its argument;
  \<open>Cb_none\<close> when it returns \<^verbatim>\<open>OOP_CONTINUE\<close> without calling one.
\<close>

datatype callback = Cb_none | Cb_message gale_packet | Cb_will gale_packet
  | Cb_subscribe gtext | Cb_empty | Cb_error int

definition on_process :: "session \<Rightarrow> callback \<times> session" where
  "on_process s =
     (let l = slink s in
      if in_puff l \<noteq> None \<and> on_message l then
        (Cb_message (the (in_puff l)), activate (s\<lparr>slink := l\<lparr>in_puff := None\<rparr>\<rparr>))
      else if in_will l \<noteq> None \<and> on_will l then
        (Cb_will (the (in_will l)), activate (s\<lparr>slink := l\<lparr>in_will := None\<rparr>\<rparr>))
      else if in_gimme l \<noteq> [] \<and> on_subscribe l then
        (Cb_subscribe (in_gimme l), activate (s\<lparr>slink := l\<lparr>in_gimme := []\<rparr>\<rparr>))
      else if fd l = -1 \<and> link_queue_num l = 0 \<and> on_empty l then
        (Cb_empty, activate s)
      else (Cb_none, s))"

text \<open>
  What a read or a write system call returned. \<open>Rd_data bs\<close>: the bytes the
  input buffer read (the ones the input machine refuses stay in the socket and
  are returned as the rest); \<open>Rd_end e\<close>: \<^verbatim>\<open>input_buffer_read\<close> failed with
  \<^verbatim>\<open>errno\<close> \<open>e\<close>, which is 0 at end of file. \<open>Io_fail e\<close>: the write (or the
  \<^verbatim>\<open>shutdown\<close>) failed with \<^verbatim>\<open>errno\<close> \<open>e\<close>.
\<close>

datatype rd_result = Rd_data gdata | Rd_end int

datatype io_result = Io_ok | Io_fail int

text \<open>
  The machine state behind \<^verbatim>\<open>l->input\<close> and \<^verbatim>\<open>l->output\<close>; the callbacks create
  the buffer with the initial state when the pointer is \<^verbatim>\<open>NULL\<close> (lines 718-723
  and 748-753).
\<close>

definition in_state :: "gale_link \<Rightarrow> input_state" where
  "in_state l = (case input_buf l of None \<Rightarrow> initial_input | Some i \<Rightarrow> i)"

definition out_state :: "gale_link \<Rightarrow> output_state" where
  "out_state l = (case output_buf l of None \<Rightarrow> initial_output | Some ost \<Rightarrow> ost)"

definition read_failed :: "session \<Rightarrow> int \<Rightarrow> callback \<times> session" where
  "read_failed s e =
     (let l = slink s in
      if out_shutdown l = Done_shutdown \<and> e = 0 then
        (if on_empty l then Cb_empty else Cb_none, s\<lparr>slink := l\<lparr>out_shutdown := No_shutdown\<rparr>\<rparr>)
      else (if on_error l then Cb_error e else Cb_none, s))"

definition on_read :: "session \<Rightarrow> int \<Rightarrow> rd_result \<Rightarrow> (callback \<times> gdata \<times> session) result" where
  "on_read s f r =
     (if f \<noteq> fd (slink s) then Inl (Assert_fail ''on_read'') else
      let l = slink s;
          inp = in_state l;
          s1 = s\<lparr>slink := l\<lparr>input_buf := Some inp\<rparr>\<rparr> in
      if \<not> input_ready (slink s1) inp then Inr (Cb_none, [], s1\<lparr>reg_read := reg_read s1 - {f}\<rparr>)
      else case r of
        Rd_data bs \<Rightarrow>
          (case input_feed (slink s1) inp bs of
             Inl e \<Rightarrow> Inl e
           | Inr (l2, inp2, rest) \<Rightarrow> Inr (Cb_none, rest, activate (s1\<lparr>slink := l2\<lparr>input_buf := Some inp2\<rparr>\<rparr>)))
      | Rd_end e \<Rightarrow> (let (c, s2) = read_failed s1 e in Inr (c, [], s2)))"

definition on_write :: "session \<Rightarrow> int \<Rightarrow> nat \<Rightarrow> io_result \<Rightarrow> (callback \<times> gdata \<times> session) result" where
  "on_write s f n r =
     (if f \<noteq> fd (slink s) then Inl (Assert_fail ''on_write'') else
      let l = slink s;
          out = out_state l;
          l1 = l\<lparr>output_buf := Some out\<rparr>; s1 = s\<lparr>slink := l1\<rparr> in
      if \<not> output_ready l1 out then
        (let s2 = s1\<lparr>reg_write := reg_write s1 - {f}\<rparr> in
         case out_shutdown l1 of
           No_shutdown \<Rightarrow>
             Inr (if link_queue_num l1 = 0 \<and> on_empty l1 then Cb_empty else Cb_none, [], s2)
         | Do_shutdown \<Rightarrow>
             (case r of
                Io_ok \<Rightarrow> Inr (Cb_none, [], s2\<lparr>slink := l1\<lparr>out_shutdown := Done_shutdown\<rparr>\<rparr>)
              | Io_fail e \<Rightarrow> Inr (if on_error l1 then Cb_error e else Cb_none, [], s2))
         | Done_shutdown \<Rightarrow> Inr (Cb_none, [], s2))
      else case r of
        Io_fail e \<Rightarrow> Inr (if on_error l1 then Cb_error e else Cb_none, [], s1)
      | Io_ok \<Rightarrow>
          (case output_run n l1 out of
             Inl e \<Rightarrow> Inl e
           | Inr (d, l2, out2) \<Rightarrow> Inr (Cb_none, d, s1\<lparr>slink := l2\<lparr>output_buf := Some out2\<rparr>\<rparr>)))"

subsection \<open>Attaching: \<^verbatim>\<open>link_set_fd\<close>, \<^verbatim>\<open>delete_link\<close>, \<^verbatim>\<open>link_get_fd\<close>\<close>

text \<open>
  \<^verbatim>\<open>link_set_fd\<close> drops the half-built input message, both buffers (and with
  them both machine states), the message and text in transmission, closes the old
  descriptor, and re-registers on the new one. It leaves every other field alone,
  \<^verbatim>\<open>in_version\<close> and \<^verbatim>\<open>out_cid\<close>/\<^verbatim>\<open>out_data\<close> among them.
\<close>

definition link_set_fd :: "session \<Rightarrow> int \<Rightarrow> session" where
  "link_set_fd s f =
     (let l = slink s;
          s1 = (if fd l \<noteq> -1 then
                  s\<lparr>slink := l\<lparr>in_msg := None, input_buf := None, out_msg := None, out_text := [],
                                output_buf := None\<rparr>\<rparr>
                else s);
          s2 = deactivate s1 in
      activate (s2\<lparr>slink := slink s2\<lparr>fd := f\<rparr>\<rparr>))"

definition delete_link :: "session \<Rightarrow> session" where
  "delete_link s = deactivate (link_set_fd s (-1))"

definition link_get_fd :: "session \<Rightarrow> int" where
  "link_get_fd s = fd (slink s)"

subsection \<open>Registering the caller's handlers: \<^verbatim>\<open>link_on_*\<close>\<close>

definition link_on_error :: "session \<Rightarrow> bool \<Rightarrow> session" where
  "link_on_error s b = activate (s\<lparr>slink := slink s\<lparr>on_error := b\<rparr>\<rparr>)"

definition link_on_empty :: "session \<Rightarrow> bool \<Rightarrow> session" where
  "link_on_empty s b = activate (s\<lparr>slink := slink s\<lparr>on_empty := b\<rparr>\<rparr>)"

definition link_on_message :: "session \<Rightarrow> bool \<Rightarrow> session" where
  "link_on_message s b = activate (s\<lparr>slink := slink s\<lparr>on_message := b\<rparr>\<rparr>)"

definition link_on_will :: "session \<Rightarrow> bool \<Rightarrow> session" where
  "link_on_will s b = activate (s\<lparr>slink := slink s\<lparr>on_will := b\<rparr>\<rparr>)"

definition link_on_subscribe :: "session \<Rightarrow> bool \<Rightarrow> session" where
  "link_on_subscribe s b = activate (s\<lparr>slink := slink s\<lparr>on_subscribe := b\<rparr>\<rparr>)"

subsection \<open>The caller's API on a session\<close>

text \<open>
  \<^verbatim>\<open>link_put\<close> stamps the message with \<^verbatim>\<open>gale_time_now()\<close>, which reads the
  system clock (the \<open>timeval\<close> argument) and the static \<^verbatim>\<open>last\<close> (\<open>clock\<close>).
  \<^verbatim>\<open>link_put\<close>, \<^verbatim>\<open>link_will\<close>, \<^verbatim>\<open>link_subscribe\<close>, \<^verbatim>\<open>link_shutdown\<close> and
  \<^verbatim>\<open>link_queue_drop\<close> end with \<^verbatim>\<open>activate\<close>; the generation-1 calls \<^verbatim>\<open>ltx_*\<close>
  and \<^verbatim>\<open>lrx_*\<close> do not.
\<close>

datatype lrx_call = Rx_publish | Rx_watch | Rx_forget | Rx_complete | Rx_assert | Rx_retract
  | Rx_fetch | Rx_miss | Rx_supply

fun lrx_link :: "gale_link \<Rightarrow> lrx_call \<Rightarrow> gale_link" where
  "lrx_link l Rx_publish = snd (lrx_publish l)"
| "lrx_link l Rx_watch = snd (lrx_watch l)"
| "lrx_link l Rx_forget = snd (lrx_forget l)"
| "lrx_link l Rx_complete = snd (lrx_complete l)"
| "lrx_link l Rx_assert = snd (lrx_assert l)"
| "lrx_link l Rx_retract = snd (lrx_retract l)"
| "lrx_link l Rx_fetch = snd (lrx_fetch l)"
| "lrx_link l Rx_miss = snd (lrx_miss l)"
| "lrx_link l Rx_supply = snd (lrx_supply l)"

datatype api_call = Call_put gale_packet timeval | Call_will gale_packet | Call_subscribe gtext
  | Call_shutdown | Call_queue_drop
  | Call_on_error bool | Call_on_empty bool | Call_on_message bool | Call_on_will bool
  | Call_on_subscribe bool | Call_set_fd int | Call_delete
  | Call_publish gtext | Call_watch gtext | Call_forget gtext | Call_complete gtext
  | Call_assert gtext gdata | Call_retract gtext gdata | Call_fetch gdata | Call_miss gdata
  | Call_supply gdata gdata | Call_drain lrx_call

definition with_link :: "session \<Rightarrow> gale_link result \<Rightarrow> session result" where
  "with_link s r = (case r of Inl e \<Rightarrow> Inl e | Inr l' \<Rightarrow> Inr (s\<lparr>slink := l'\<rparr>))"

definition link_put_now :: "session \<Rightarrow> gale_packet \<Rightarrow> timeval \<Rightarrow> session result" where
  "link_put_now s m tv =
     (let (now, last') = gale_time_now (clock s) tv in
      case link_put (slink s) m now of
        Inl e \<Rightarrow> Inl e
      | Inr l' \<Rightarrow> Inr (activate (s\<lparr>slink := l', clock := last'\<rparr>)))"

fun api_step :: "session \<Rightarrow> api_call \<Rightarrow> session result" where
  "api_step s (Call_put m tv) = link_put_now s m tv"
| "api_step s (Call_will m) = Inr (activate (s\<lparr>slink := link_will (slink s) m\<rparr>))"
| "api_step s (Call_subscribe t) = Inr (activate (s\<lparr>slink := link_subscribe (slink s) t\<rparr>))"
| "api_step s Call_shutdown = Inr (activate (s\<lparr>slink := link_shutdown (slink s)\<rparr>))"
| "api_step s Call_queue_drop =
     (case link_queue_drop (slink s) of Inl e \<Rightarrow> Inl e | Inr l' \<Rightarrow> Inr (activate (s\<lparr>slink := l'\<rparr>)))"
| "api_step s (Call_on_error b) = Inr (link_on_error s b)"
| "api_step s (Call_on_empty b) = Inr (link_on_empty s b)"
| "api_step s (Call_on_message b) = Inr (link_on_message s b)"
| "api_step s (Call_on_will b) = Inr (link_on_will s b)"
| "api_step s (Call_on_subscribe b) = Inr (link_on_subscribe s b)"
| "api_step s (Call_set_fd f) = Inr (link_set_fd s f)"
| "api_step s Call_delete = Inr (delete_link s)"
| "api_step s (Call_publish t) = with_link s (ltx_publish (slink s) t)"
| "api_step s (Call_watch t) = with_link s (ltx_watch (slink s) t)"
| "api_step s (Call_forget t) = with_link s (ltx_forget (slink s) t)"
| "api_step s (Call_complete t) = with_link s (ltx_complete (slink s) t)"
| "api_step s (Call_assert t c) = with_link s (ltx_assert (slink s) t c)"
| "api_step s (Call_retract t c) = with_link s (ltx_retract (slink s) t c)"
| "api_step s (Call_fetch c) = with_link s (ltx_fetch (slink s) c)"
| "api_step s (Call_miss c) = with_link s (ltx_miss (slink s) c)"
| "api_step s (Call_supply c d) = with_link s (ltx_supply (slink s) c d)"
| "api_step s (Call_drain k) = Inr (s\<lparr>slink := lrx_link (slink s) k\<rparr>)"

subsection \<open>The event loop\<close>

text \<open>
  One step of the program: liboop runs a callback whose registration is live
  (the time callback is one-shot, so it is removed before \<^verbatim>\<open>on_process\<close> runs),
  or the caller makes an API call (from a handler or from outside the loop). The
  label is the handler called and the bytes the step moved: those left unread
  by \<^verbatim>\<open>on_read\<close>, those written by \<^verbatim>\<open>on_write\<close>. A step whose C code fails an
  assertion has no successor.
\<close>

datatype event = Ev_process | Ev_read int rd_result | Ev_write int nat io_result | Ev_call api_call

inductive sstep :: "session \<Rightarrow> event \<Rightarrow> callback \<times> gdata \<Rightarrow> session \<Rightarrow> bool" where
  ev_process: "reg_time s \<Longrightarrow> on_process (s\<lparr>reg_time := False\<rparr>) = (c, s') \<Longrightarrow> sstep s Ev_process (c, []) s'"
| ev_read: "f \<in> reg_read s \<Longrightarrow> on_read s f r = Inr (c, rest, s') \<Longrightarrow> sstep s (Ev_read f r) (c, rest) s'"
| ev_write: "f \<in> reg_write s \<Longrightarrow> on_write s f n r = Inr (c, d, s') \<Longrightarrow> sstep s (Ev_write f n r) (c, d) s'"
| ev_call: "api_step s a = Inr s' \<Longrightarrow> sstep s (Ev_call a) (Cb_none, []) s'"

inductive reachable :: "session \<Rightarrow> bool" where
  init: "reachable new_session"
| step: "reachable s \<Longrightarrow> sstep s ev lbl s' \<Longrightarrow> reachable s'"

inductive_cases sstep_processE: "sstep s Ev_process lbl s'"
inductive_cases sstep_readE: "sstep s (Ev_read f r) lbl s'"
inductive_cases sstep_writeE: "sstep s (Ev_write f n r) lbl s'"
inductive_cases sstep_callE: "sstep s (Ev_call a) lbl s'"

end
