(* ===== verification/Session_Inv.thy ===== *)
theory Session_Inv
  imports Session
begin

text \<open>
  Frame conditions and the invariant of the reactor model. The input machine
  writes only the input fields of the link (\<open>out_fields\<close> forgets them) and the
  output machine and the queue only the output fields (\<open>in_fields\<close> forgets
  those). On these frames rests the invariant \<open>session_inv\<close>: the link is
  registered for reading and writing on its own descriptor only, never on
  \<^verbatim>\<open>-1\<close> (\<open>reg_ok\<close>), and the input machine state it keeps is well-formed in the
  sense of \<open>Input_Wf\<close> (\<open>input_inv\<close>). Every callback and every API call keeps it
  (\<open>on_process_inv\<close>, \<open>on_read_inv\<close>, \<open>on_write_inv\<close>, \<open>api_step_inv\<close>), so it holds
  in every reachable session (\<open>reachable_inv\<close>, by rule induction).
\<close>

definition out_fields :: "gale_link \<Rightarrow> gale_link" where
  "out_fields l = l\<lparr>input_buf := None, in_opcode := 0, in_length := 0, in_msg := None,
     in_puff := None, in_will := None, in_gimme := [], in_text := In_gimme, in_version := 0,
     in_publish := [], in_watch := [], in_forget := [], in_complete := [], in_assert_cid := [],
     in_assert_cat := [], in_retract_cid := [], in_retract_cat := [], in_fetch_cid := [],
     in_miss_cid := [], in_supply_cid := [], in_cid := In_assert_cid, in_supply_data := []\<rparr>"

definition in_frame :: "gale_link \<Rightarrow> (gale_link \<times> input_state) result \<Rightarrow> bool" where
  "in_frame l r = (case r of Inl _ \<Rightarrow> True | Inr (l', _) \<Rightarrow> out_fields l' = out_fields l)"

definition in_fields :: "gale_link \<Rightarrow> gale_link" where
  "in_fields l = l\<lparr>output_buf := None, out_msg := None, out_will := None, out_text := [],
     out_gimme := [], out_queue := None, qheap := Map.empty, qalloc := 0, queue_num := 0,
     queue_mem := 0, out_publish := [], out_watch := [], out_complete := [], out_assert := [],
     out_fetch := [], out_supply := [], out_cid := [], out_data := []\<rparr>"

definition out_frame :: "gale_link \<Rightarrow> ostep \<Rightarrow> bool" where
  "out_frame l r = (case r of Inl _ \<Rightarrow> True | Inr (_, l', _) \<Rightarrow> in_fields l' = in_fields l)"

definition reg_ok :: "session \<Rightarrow> bool" where
  "reg_ok s \<longleftrightarrow> reg_read s \<subseteq> {fd (slink s)} - {-1} \<and> reg_write s \<subseteq> {fd (slink s)} - {-1}"

definition input_inv :: "gale_link \<Rightarrow> bool" where
  "input_inv l \<longleftrightarrow> (case input_buf l of None \<Rightarrow> in_msg l = None | Some inp \<Rightarrow> input_wf l inp)"

definition session_inv :: "session \<Rightarrow> bool" where
  "session_inv s \<longleftrightarrow> reg_ok s \<and> input_inv (slink s)"

lemma in_frame_simps [simp]:
  "in_frame l (Inl e)" "in_frame l (Inr (l', inp)) \<longleftrightarrow> out_fields l' = out_fields l"
  by (simp_all add: in_frame_def)

lemma out_fields_upd [simp]:
  "out_fields (l\<lparr>input_buf := x0\<rparr>) = out_fields l"
  "out_fields (l\<lparr>in_opcode := x1\<rparr>) = out_fields l"
  "out_fields (l\<lparr>in_length := x2\<rparr>) = out_fields l"
  "out_fields (l\<lparr>in_msg := x3\<rparr>) = out_fields l"
  "out_fields (l\<lparr>in_puff := x4\<rparr>) = out_fields l"
  "out_fields (l\<lparr>in_will := x5\<rparr>) = out_fields l"
  "out_fields (l\<lparr>in_gimme := x6\<rparr>) = out_fields l"
  "out_fields (l\<lparr>in_text := x7\<rparr>) = out_fields l"
  "out_fields (l\<lparr>in_version := x8\<rparr>) = out_fields l"
  "out_fields (l\<lparr>in_publish := x9\<rparr>) = out_fields l"
  "out_fields (l\<lparr>in_watch := x10\<rparr>) = out_fields l"
  "out_fields (l\<lparr>in_forget := x11\<rparr>) = out_fields l"
  "out_fields (l\<lparr>in_complete := x12\<rparr>) = out_fields l"
  "out_fields (l\<lparr>in_assert_cid := x13\<rparr>) = out_fields l"
  "out_fields (l\<lparr>in_assert_cat := x14\<rparr>) = out_fields l"
  "out_fields (l\<lparr>in_retract_cid := x15\<rparr>) = out_fields l"
  "out_fields (l\<lparr>in_retract_cat := x16\<rparr>) = out_fields l"
  "out_fields (l\<lparr>in_fetch_cid := x17\<rparr>) = out_fields l"
  "out_fields (l\<lparr>in_miss_cid := x18\<rparr>) = out_fields l"
  "out_fields (l\<lparr>in_supply_cid := x19\<rparr>) = out_fields l"
  "out_fields (l\<lparr>in_cid := x20\<rparr>) = out_fields l"
  "out_fields (l\<lparr>in_supply_data := x21\<rparr>) = out_fields l"
  by (simp_all add: out_fields_def)

lemma out_fields_slots [simp]:
  "out_fields (text_slot_set l s t) = out_fields l" "out_fields (cid_slot_set l c d) = out_fields l"
  by (cases s; simp add: out_fields_def) (cases c; simp add: out_fields_def)

lemma out_fields_consume [simp]: "out_fields (consume l d) = out_fields l"
  by (simp add: consume_def out_fields_def)

lemma ist_frame:
  "out_fields l' = out_fields l \<Longrightarrow> in_frame l (ist_idle l' inp)"
  "out_fields l' = out_fields l \<Longrightarrow> in_frame l (ist_unknown l' inp)"
  "out_fields l' = out_fields l \<Longrightarrow> in_frame l (ist_message l' inp)"
  "out_fields l' = out_fields l \<Longrightarrow> in_frame l (ist_text l' inp)"
  "out_fields l' = out_fields l \<Longrightarrow> in_frame l (ist_cid l' inp)"
  by (simp_all add: ist_idle_def ist_unknown_def ist_message_def ist_text_def ist_cid_def
      split: option.split)

lemma ifn_version_frame: "in_frame l (ifn_version l inp d)"
  by (simp add: ifn_version_def ist_frame split: option.split prod.split list.split)

lemma ifn_category_len_frame: "in_frame l (ifn_category_len l inp d)"
  by (simp add: ifn_category_len_def ist_frame Let_def split: option.split prod.split list.split)

lemma ifn_message_category_frame: "in_frame l (ifn_message_category l inp d)"
  by (simp add: ifn_message_category_def ist_frame Let_def split: option.split prod.split)

lemma ifn_message_body_frame: "in_frame l (ifn_message_body l inp d)"
  by (simp add: ifn_message_body_def ist_frame Let_def split: option.split)

lemma ifn_text_frame: "in_frame l (ifn_text l inp d)"
  by (simp add: ifn_text_def ist_frame Let_def split: option.split prod.split)

lemma ifn_supply_data_frame: "in_frame l (ifn_supply_data l inp d)"
  by (simp add: ifn_supply_data_def ist_frame)

lemma ifn_cid_frame: "in_frame l (ifn_cid l inp d)"
  by (simp add: ifn_cid_def ist_frame Let_def)

lemma ifn_unknown_frame: "in_frame l (ifn_unknown l inp d)"
  by (simp add: ifn_unknown_def ist_frame)

lemma ifn_opcode_frame: "in_frame l (ifn_opcode l inp d)"
  by (rule ifn_opcode_shape [of l inp d]) (auto simp: ist_frame)

lemma input_fire_frame: "in_frame l (input_fire l inp)"
  by (cases "inext inp")
    (simp_all add: input_fire_def ifn_version_frame ifn_opcode_frame ifn_category_len_frame
      ifn_message_category_frame ifn_message_body_frame ifn_text_frame ifn_supply_data_frame
      ifn_cid_frame ifn_unknown_frame)

lemma input_settle_frame:
  "input_settle l inp = Inr (l', inp') \<Longrightarrow> out_fields l' = out_fields l"
proof (induction l inp rule: input_settle.induct)
  case (1 l inp)
  show ?case
  proof (cases "input_ready l inp \<and> input_full inp")
    case True
    then obtain l1 inp1 where f: "input_fire l inp = Inr (l1, inp1)"
      and s: "input_settle l1 inp1 = Inr (l', inp')"
      using "1.prems" by (auto simp: input_settle_fire split: sum.splits)
    have "out_fields l1 = out_fields l"
      using input_fire_frame [of l inp] f by simp
    with "1.IH" [OF True f refl s] show ?thesis by simp
  next
    case False
    with "1.prems" show ?thesis by (simp add: input_settle_stop)
  qed
qed

lemma input_feed_frame:
  "input_feed l inp bs = Inr (l', inp', rest) \<Longrightarrow> out_fields l' = out_fields l"
proof (induction bs arbitrary: l inp)
  case Nil
  then show ?case by (auto split: sum.splits dest: input_settle_frame)
next
  case (Cons b bs)
  then obtain l1 inp1 where s: "input_settle l inp = Inr (l1, inp1)"
    by (auto split: sum.splits)
  then have "out_fields l1 = out_fields l" by (rule input_settle_frame)
  with Cons s show ?case by (auto split: if_splits)
qed

lemma in_fields_upd [simp]:
  "in_fields (l\<lparr>output_buf := x0\<rparr>) = in_fields l"
  "in_fields (l\<lparr>out_msg := x1\<rparr>) = in_fields l"
  "in_fields (l\<lparr>out_will := x2\<rparr>) = in_fields l"
  "in_fields (l\<lparr>out_text := x3\<rparr>) = in_fields l"
  "in_fields (l\<lparr>out_gimme := x4\<rparr>) = in_fields l"
  "in_fields (l\<lparr>out_queue := x5\<rparr>) = in_fields l"
  "in_fields (l\<lparr>qheap := x6\<rparr>) = in_fields l"
  "in_fields (l\<lparr>qalloc := x7\<rparr>) = in_fields l"
  "in_fields (l\<lparr>queue_num := x8\<rparr>) = in_fields l"
  "in_fields (l\<lparr>queue_mem := x9\<rparr>) = in_fields l"
  "in_fields (l\<lparr>out_publish := x10\<rparr>) = in_fields l"
  "in_fields (l\<lparr>out_watch := x11\<rparr>) = in_fields l"
  "in_fields (l\<lparr>out_complete := x12\<rparr>) = in_fields l"
  "in_fields (l\<lparr>out_assert := x13\<rparr>) = in_fields l"
  "in_fields (l\<lparr>out_fetch := x14\<rparr>) = in_fields l"
  "in_fields (l\<lparr>out_supply := x15\<rparr>) = in_fields l"
  "in_fields (l\<lparr>out_cid := x16\<rparr>) = in_fields l"
  "in_fields (l\<lparr>out_data := x17\<rparr>) = in_fields l"
  by (simp_all add: in_fields_def)

lemma out_frame_simps [simp]:
  "out_frame l (Inl e)" "out_frame l (Inr (d, l', out)) \<longleftrightarrow> in_fields l' = in_fields l"
  by (simp_all add: out_frame_def)

lemma dequeue_frame: "dequeue l = Inr (m, l') \<Longrightarrow> in_fields l' = in_fields l"
  by (auto simp: dequeue_def Let_def split: option.splits if_splits)

lemma output_fire_frame: "out_frame l (output_fire l out)"
  by (cases "onext out")
    (auto simp: output_fire_def ofn_version_def ofn_msg_data_def ofn_message_def ofn_text_def
      ofn_data_def ofn_cid_def ofn_idle_def ofn_idle_supply_def ofn_idle_assert_def
      ofn_idle_v0_def Let_def dest: dequeue_frame split: option.splits sum.splits prod.splits if_splits)

lemma output_run_frame:
  "output_run n l out = Inr (d, l', out') \<Longrightarrow> in_fields l' = in_fields l"
proof (induction n arbitrary: l out d)
  case 0
  then show ?case by simp
next
  case (Suc n)
  show ?case
  proof (cases "output_ready l out")
    case False
    then show ?thesis using Suc.prems by simp
  next
    case True
    then obtain d1 l1 out1 d2 where f: "output_fire l out = Inr (d1, l1, out1)"
      and r: "output_run n l1 out1 = Inr (d2, l', out')"
      using Suc.prems by (auto split: sum.splits prod.splits)
    have "in_fields l1 = in_fields l"
      using output_fire_frame [of l out] f by simp
    then show ?thesis
      using Suc.IH [OF r] by simp
  qed
qed

lemma input_wf_cong:
  assumes "in_length l' = in_length l" "in_opcode l' = in_opcode l" "in_msg l' = in_msg l"
    "in_puff l' = in_puff l" "in_text l' = in_text l" "in_cid l' = in_cid l"
  shows "input_wf l' inp = input_wf l inp"
  using assms by (cases "inext inp") (simp_all add: input_wf_def msg_op_def msg_ready_of_def)

lemma input_inv_cong:
  assumes "input_buf l' = input_buf l" "in_length l' = in_length l" "in_opcode l' = in_opcode l"
    "in_msg l' = in_msg l" "in_puff l' = in_puff l" "in_text l' = in_text l" "in_cid l' = in_cid l"
  shows "input_inv l' = input_inv l"
  using assms input_wf_cong [OF assms(2-)] by (simp add: input_inv_def split: option.split)

lemma in_fields_eqD:
  assumes "in_fields l' = in_fields l"
  shows "input_inv l' = input_inv l" "fd l' = fd l" "out_shutdown l' = out_shutdown l"
    "on_error l' = on_error l" "on_empty l' = on_empty l" "in_version l' = in_version l"
proof -
  have sel: "input_buf l' = input_buf l" "in_length l' = in_length l" "in_opcode l' = in_opcode l" "in_msg l' = in_msg l" "in_puff l' = in_puff l" "in_text l' = in_text l" "in_cid l' = in_cid l" "fd l' = fd l" "out_shutdown l' = out_shutdown l" "on_error l' = on_error l" "on_empty l' = on_empty l" "in_version l' = in_version l"
    using arg_cong [where f = input_buf, OF assms] arg_cong [where f = in_length, OF assms] arg_cong [where f = in_opcode, OF assms] arg_cong [where f = in_msg, OF assms] arg_cong [where f = in_puff, OF assms] arg_cong [where f = in_text, OF assms] arg_cong [where f = in_cid, OF assms] arg_cong [where f = fd, OF assms] arg_cong [where f = out_shutdown, OF assms] arg_cong [where f = on_error, OF assms] arg_cong [where f = on_empty, OF assms] arg_cong [where f = in_version, OF assms]
    by (simp_all add: in_fields_def)
  then show "input_inv l' = input_inv l" by (intro input_inv_cong) simp_all
  show "fd l' = fd l" "out_shutdown l' = out_shutdown l" "on_error l' = on_error l"
    "on_empty l' = on_empty l" "in_version l' = in_version l"
    using sel by simp_all
qed

lemma out_fields_eqD:
  assumes "out_fields l' = out_fields l"
  shows "fd l' = fd l" "out_shutdown l' = out_shutdown l"
  using arg_cong [where f = fd, OF assms] arg_cong [where f = out_shutdown, OF assms]
  by (simp_all add: out_fields_def)

lemma input_wf_puff_None: "input_wf l inp \<Longrightarrow> input_wf (l\<lparr>in_puff := None\<rparr>) inp"
  by (cases "inext inp") (auto simp: input_wf_def msg_op_def msg_ready_of_def)

lemma input_inv_upd [simp]:
  "input_inv (l\<lparr>on_error := x0\<rparr>) = input_inv l"
  "input_inv (l\<lparr>on_empty := x1\<rparr>) = input_inv l"
  "input_inv (l\<lparr>on_message := x2\<rparr>) = input_inv l"
  "input_inv (l\<lparr>on_will := x3\<rparr>) = input_inv l"
  "input_inv (l\<lparr>on_subscribe := x4\<rparr>) = input_inv l"
  "input_inv (l\<lparr>out_shutdown := x5\<rparr>) = input_inv l"
  "input_inv (l\<lparr>out_will := x6\<rparr>) = input_inv l"
  "input_inv (l\<lparr>out_gimme := x7\<rparr>) = input_inv l"
  "input_inv (l\<lparr>in_will := x8\<rparr>) = input_inv l"
  "input_inv (l\<lparr>in_gimme := x9\<rparr>) = input_inv l"
  "input_inv (l\<lparr>fd := x10\<rparr>) = input_inv l"
  "input_inv (l\<lparr>in_publish := x11\<rparr>) = input_inv l"
  "input_inv (l\<lparr>in_watch := x12\<rparr>) = input_inv l"
  "input_inv (l\<lparr>in_forget := x13\<rparr>) = input_inv l"
  "input_inv (l\<lparr>in_complete := x14\<rparr>) = input_inv l"
  "input_inv (l\<lparr>in_assert_cid := x15\<rparr>) = input_inv l"
  "input_inv (l\<lparr>in_assert_cat := x16\<rparr>) = input_inv l"
  "input_inv (l\<lparr>in_retract_cid := x17\<rparr>) = input_inv l"
  "input_inv (l\<lparr>in_retract_cat := x18\<rparr>) = input_inv l"
  "input_inv (l\<lparr>in_fetch_cid := x19\<rparr>) = input_inv l"
  "input_inv (l\<lparr>in_miss_cid := x20\<rparr>) = input_inv l"
  "input_inv (l\<lparr>in_supply_cid := x21\<rparr>) = input_inv l"
  "input_inv (l\<lparr>in_supply_data := x22\<rparr>) = input_inv l"
  "input_inv (l\<lparr>out_publish := x23\<rparr>) = input_inv l"
  "input_inv (l\<lparr>out_watch := x24\<rparr>) = input_inv l"
  "input_inv (l\<lparr>out_complete := x25\<rparr>) = input_inv l"
  "input_inv (l\<lparr>out_assert := x26\<rparr>) = input_inv l"
  "input_inv (l\<lparr>out_fetch := x27\<rparr>) = input_inv l"
  "input_inv (l\<lparr>out_supply := x28\<rparr>) = input_inv l"
  "input_inv (l\<lparr>output_buf := x29\<rparr>) = input_inv l"
  by (rule input_inv_cong; simp)+

lemma session_regs [simp]:
  "slink (activate s) = slink s" "slink (deactivate s) = slink s"
  "clock (activate s) = clock s" "clock (deactivate s) = clock s"
  "reg_time (activate s)" "\<not> reg_time (deactivate s)"
  by (simp_all add: activate_def deactivate_def Let_def)

lemma reg_ok_activate: "reg_ok s \<Longrightarrow> reg_ok (activate s)"
  by (auto simp: reg_ok_def activate_def deactivate_def Let_def)

lemma deactivate_empty:
  "reg_ok s \<Longrightarrow> reg_read (deactivate s) = {} \<and> reg_write (deactivate s) = {}"
  by (auto simp: reg_ok_def deactivate_def Let_def)

lemma reg_ok_slink: "fd l = fd (slink s) \<Longrightarrow> reg_ok (s\<lparr>slink := l\<rparr>) = reg_ok s"
  by (simp add: reg_ok_def)

lemma reg_ok_shrink:
  "reg_ok s \<Longrightarrow> reg_read s' \<subseteq> reg_read s \<Longrightarrow> reg_write s' \<subseteq> reg_write s \<Longrightarrow>
   fd (slink s') = fd (slink s) \<Longrightarrow> reg_ok s'"
  by (auto simp: reg_ok_def)

lemma session_inv_activate: "session_inv s \<Longrightarrow> session_inv (activate s)"
  by (simp add: session_inv_def reg_ok_activate)

lemma session_inv_slink:
  "session_inv s \<Longrightarrow> fd l = fd (slink s) \<Longrightarrow> input_inv l \<Longrightarrow> session_inv (s\<lparr>slink := l\<rparr>)"
  by (simp add: session_inv_def reg_ok_slink)

lemma link_put_frame: "link_put l m t = Inr l' \<Longrightarrow> in_fields l' = in_fields l"
  by (auto simp: link_put_def Let_def split: option.splits)

lemma link_queue_drop_frame: "link_queue_drop l = Inr l' \<Longrightarrow> in_fields l' = in_fields l"
  by (auto simp: link_queue_drop_def dest: dequeue_frame split: if_splits sum.splits prod.splits)

lemma session_inv_reg_time [simp]: "session_inv (s\<lparr>reg_time := b\<rparr>) = session_inv s"
  by (simp add: session_inv_def reg_ok_def)

lemma input_inv_puff_None: "input_inv l \<Longrightarrow> input_inv (l\<lparr>in_puff := None\<rparr>)"
  by (auto simp: input_inv_def input_wf_puff_None split: option.splits)

lemma on_process_inv: "session_inv s \<Longrightarrow> on_process s = (c, s') \<Longrightarrow> session_inv s'"
  by (auto simp: on_process_def Let_def session_inv_def reg_ok_slink input_inv_puff_None
      intro!: reg_ok_activate split: if_splits)

lemma input_wf_in_state: "input_inv l \<Longrightarrow> input_wf l (in_state l)"
  by (auto simp: input_inv_def in_state_def input_wf_def initial_input_def ist_version_def
      split: option.splits)

lemma input_wf_input_buf [simp]: "input_wf (l\<lparr>input_buf := x\<rparr>) inp = input_wf l inp"
  by (rule input_wf_cong) simp_all

lemma on_read_inv:
  assumes inv: "session_inv s" and r: "on_read s f r = Inr (c, rest, s')"
  shows "session_inv s'"
proof -
  define l where "l = slink s"
  define inp where "inp = in_state l"
  define s1 where "s1 = s\<lparr>slink := l\<lparr>input_buf := Some inp\<rparr>\<rparr>"
  have wf: "input_wf l inp"
    using inv by (simp add: inp_def l_def session_inv_def input_wf_in_state)
  have inv1: "session_inv s1"
    using inv wf by (simp add: s1_def l_def session_inv_def reg_ok_slink input_inv_def)
  have f: "f = fd (slink s)"
    using r by (simp add: on_read_def split: if_splits)
  show ?thesis
  proof (cases "input_ready (slink s1) inp")
    case False
    then have "s' = s1\<lparr>reg_read := reg_read s1 - {f}\<rparr>"
      using r f by (simp add: on_read_def Let_def l_def inp_def s1_def)
    with inv1 show ?thesis
      by (auto simp: session_inv_def intro: reg_ok_shrink)
  next
    case True
    show ?thesis
    proof (cases r)
      case (Rd_data bs)
      then obtain l2 inp2 where feed: "input_feed (slink s1) inp bs = Inr (l2, inp2, rest)"
        and s': "s' = activate (s1\<lparr>slink := l2\<lparr>input_buf := Some inp2\<rparr>\<rparr>)"
        using r f True by (auto simp: on_read_def Let_def l_def inp_def s1_def split: sum.splits)
      have "feed_ok (\<lambda>_. True) (input_feed (slink s1) inp bs)"
        using wf by (intro input_feed_keeps [OF fire_keeps_True]) (simp_all add: s1_def)
      then have "input_wf l2 inp2" using feed by (simp add: feed_ok_def)
      moreover have "fd l2 = fd (slink s1)"
        using input_feed_frame [OF feed] by (rule out_fields_eqD)
      ultimately show ?thesis
        using inv1 s' by (simp add: session_inv_activate session_inv_slink input_inv_def)
    next
      case (Rd_end e)
      then have "s' = snd (read_failed s1 e)"
        using r f True by (auto simp: on_read_def Let_def l_def inp_def s1_def split: prod.splits)
      with inv1 show ?thesis
        by (simp add: read_failed_def Let_def session_inv_def reg_ok_slink)
    qed
  qed
qed

lemma on_write_inv:
  assumes inv: "session_inv s" and w: "on_write s f n r = Inr (c, d, s')"
  shows "session_inv s'"
proof -
  define l1 where "l1 = slink s\<lparr>output_buf := Some (out_state (slink s))\<rparr>"
  define s1 where "s1 = s\<lparr>slink := l1\<rparr>"
  have inv1: "session_inv s1"
    using inv by (simp add: s1_def l1_def session_inv_def reg_ok_slink)
  have f: "f = fd (slink s)"
    using w by (simp add: on_write_def split: if_splits)
  show ?thesis
  proof (cases "output_ready l1 (out_state (slink s))")
    case False
    then have "s' = s1\<lparr>reg_write := reg_write s1 - {f}\<rparr> \<or>
               s' = s1\<lparr>reg_write := reg_write s1 - {f}, slink := l1\<lparr>out_shutdown := Done_shutdown\<rparr>\<rparr>"
      using w f by (auto simp: on_write_def Let_def l1_def s1_def
          split: shutdown_phase.splits io_result.splits)
    with inv1 show ?thesis
      by (auto simp: session_inv_def reg_ok_def s1_def)
  next
    case True
    show ?thesis
    proof (cases r)
      case Io_ok
      then obtain l2 out2 where run: "output_run n l1 (out_state (slink s)) = Inr (d, l2, out2)"
        and s': "s' = s1\<lparr>slink := l2\<lparr>output_buf := Some out2\<rparr>\<rparr>"
        using w f True by (auto simp: on_write_def Let_def l1_def s1_def split: sum.splits)
      have "input_inv l2 = input_inv l1" "fd l2 = fd l1"
        using in_fields_eqD [OF output_run_frame [OF run]] by simp_all
      with inv s' show ?thesis
        by (simp add: session_inv_def reg_ok_slink s1_def l1_def)
    next
      case (Io_fail e)
      then have "s' = s1"
        using w f True by (auto simp: on_write_def Let_def l1_def s1_def)
      with inv1 show ?thesis by simp
    qed
  qed
qed

lemma session_inv_put:
  assumes inv: "session_inv s" and p: "link_put_now s m tv = Inr s'"
  shows "session_inv s'"
proof -
  obtain now last' where t: "gale_time_now (clock s) tv = (now, last')" by (cases "gale_time_now (clock s) tv")
  then obtain l' where lp: "link_put (slink s) m now = Inr l'"
    and s': "s' = activate (s\<lparr>slink := l', clock := last'\<rparr>)"
    using p by (auto simp: link_put_now_def split: sum.splits)
  have "input_inv l' = input_inv (slink s)" "fd l' = fd (slink s)"
    using in_fields_eqD [OF link_put_frame [OF lp]] by simp_all
  with inv have "session_inv (s\<lparr>slink := l', clock := last'\<rparr>)"
    by (simp add: session_inv_def reg_ok_def)
  then show ?thesis by (simp add: s' session_inv_activate)
qed

lemma session_inv_deactivate: "session_inv s \<Longrightarrow> session_inv (deactivate s)"
  using deactivate_empty [of s] by (simp add: session_inv_def reg_ok_def)

lemma reattach_inv:
  assumes "session_inv s1"
  shows "session_inv (activate (deactivate s1\<lparr>slink := slink (deactivate s1)\<lparr>fd := f\<rparr>\<rparr>))"
proof -
  have "session_inv (deactivate s1)" using assms by (rule session_inv_deactivate)
  moreover have "reg_read (deactivate s1) = {} \<and> reg_write (deactivate s1) = {}"
    using assms deactivate_empty by (simp add: session_inv_def)
  ultimately have "session_inv (deactivate s1\<lparr>slink := slink (deactivate s1)\<lparr>fd := f\<rparr>\<rparr>)"
    by (simp add: session_inv_def reg_ok_def)
  then show ?thesis by (rule session_inv_activate)
qed

lemma link_set_fd_inv:
  assumes inv: "session_inv s"
  shows "session_inv (link_set_fd s f)"
  unfolding link_set_fd_def Let_def
  by (rule reattach_inv) (use inv in \<open>auto simp: session_inv_def reg_ok_slink input_inv_def\<close>)

lemma with_link_inv:
  "session_inv s \<Longrightarrow> with_link s r = Inr s' \<Longrightarrow> (\<And>l'. r = Inr l' \<Longrightarrow> input_inv l' \<and> fd l' = fd (slink s))
   \<Longrightarrow> session_inv s'"
  by (auto simp: with_link_def session_inv_slink split: sum.splits)

lemma lrx_link_inv: "input_inv (lrx_link l k) = input_inv l \<and> fd (lrx_link l k) = fd l"
  by (cases k) (simp_all add: lrx_publish_def lrx_watch_def lrx_forget_def lrx_complete_def
      lrx_assert_def lrx_retract_def lrx_fetch_def lrx_miss_def lrx_supply_def get_text_def
      get_data_def Let_def)

lemma api_step_inv:
  assumes inv: "session_inv s" and step: "api_step s a = Inr s'"
  shows "session_inv s'"
proof -
  have act: "session_inv (activate (s\<lparr>slink := l\<rparr>))" if "input_inv l" "fd l = fd (slink s)" for l
    using inv that by (simp add: session_inv_activate session_inv_slink)
  have gate: "session_inv s'" if "with_link s (version_gate (slink s) g l) = Inr s'"
    "input_inv l" "fd l = fd (slink s)" for g l
    using that inv by (auto simp: with_link_def version_gate_def session_inv_slink split: if_splits)
  have ii: "input_inv (slink s)" using inv by (simp add: session_inv_def)
  show ?thesis
  proof (cases a)
    case (Call_put m tv)
    then show ?thesis using session_inv_put [OF inv] step by simp
  next
    case Call_queue_drop
    then obtain l' where d: "link_queue_drop (slink s) = Inr l'"
      and s': "s' = activate (s\<lparr>slink := l'\<rparr>)"
      using step by (auto split: sum.splits)
    have "input_inv l' = input_inv (slink s)" "fd l' = fd (slink s)"
      using in_fields_eqD [OF link_queue_drop_frame [OF d]] by simp_all
    then show ?thesis
      unfolding s' using inv by (intro act) (simp_all add: session_inv_def)
  next
    case (Call_set_fd f)
    then show ?thesis using step link_set_fd_inv [OF inv, of f] by simp
  next
    case Call_delete
    then show ?thesis using step link_set_fd_inv [OF inv] session_inv_deactivate
      by (auto simp: delete_link_def)
  next
    case (Call_drain k)
    then have "s' = s\<lparr>slink := lrx_link (slink s) k\<rparr>" using step by simp
    then show ?thesis
      using inv lrx_link_inv [of "slink s" k] by (simp add: reg_ok_slink session_inv_def)
  next
    case (Call_will m) then show ?thesis using step ii act [of "link_will (slink s) m"] by (simp add: link_will_def)
  next
    case (Call_subscribe t) then show ?thesis using step ii act [of "link_subscribe (slink s) t"] by (simp add: link_subscribe_def)
  next
    case Call_shutdown then show ?thesis using step ii act [of "link_shutdown (slink s)"] by (simp add: link_shutdown_def)
  next
    case (Call_on_error b) then show ?thesis
      using step ii act [of "slink s\<lparr>on_error := b\<rparr>"] by (simp add: link_on_error_def)
  next
    case (Call_on_empty b) then show ?thesis
      using step ii act [of "slink s\<lparr>on_empty := b\<rparr>"] by (simp add: link_on_empty_def)
  next
    case (Call_on_message b) then show ?thesis
      using step ii act [of "slink s\<lparr>on_message := b\<rparr>"] by (simp add: link_on_message_def)
  next
    case (Call_on_will b) then show ?thesis
      using step ii act [of "slink s\<lparr>on_will := b\<rparr>"] by (simp add: link_on_will_def)
  next
    case (Call_on_subscribe b) then show ?thesis
      using step ii act [of "slink s\<lparr>on_subscribe := b\<rparr>"] by (simp add: link_on_subscribe_def)
  next
    case (Call_publish t) show ?thesis
      by (rule gate [OF step [unfolded Call_publish api_step.simps ltx_publish_def]]) (simp_all add: ii)
  next
    case (Call_watch t) show ?thesis
      by (rule gate [OF step [unfolded Call_watch api_step.simps ltx_watch_def]]) (simp_all add: ii)
  next
    case (Call_forget t) show ?thesis
      by (rule gate [OF step [unfolded Call_forget api_step.simps ltx_forget_def]]) (simp_all add: ii)
  next
    case (Call_complete t) show ?thesis
      by (rule gate [OF step [unfolded Call_complete api_step.simps ltx_complete_def]]) (simp_all add: ii)
  next
    case (Call_assert t c) show ?thesis
      by (rule gate [OF step [unfolded Call_assert api_step.simps ltx_assert_def]]) (simp_all add: ii)
  next
    case (Call_retract t c) show ?thesis
      by (rule gate [OF step [unfolded Call_retract api_step.simps ltx_retract_def]]) (simp_all add: ii)
  next
    case (Call_fetch c) show ?thesis
      by (rule gate [OF step [unfolded Call_fetch api_step.simps ltx_fetch_def]]) (simp_all add: ii)
  next
    case (Call_miss c) show ?thesis
      by (rule gate [OF step [unfolded Call_miss api_step.simps ltx_miss_def]]) (simp_all add: ii)
  next
    case (Call_supply c d) show ?thesis
      by (rule gate [OF step [unfolded Call_supply api_step.simps ltx_supply_def]]) (simp_all add: ii)
  qed
qed

lemma sstep_inv:
  assumes "sstep s ev lbl s'" and "session_inv s"
  shows "session_inv s'"
  using assms
proof (induction rule: sstep.induct)
  case (ev_process s c s')
  then show ?case using on_process_inv [of "s\<lparr>reg_time := False\<rparr>"] by simp
next
  case (ev_read f s r c rest s')
  from ev_read.prems ev_read.hyps(2) show ?case by (rule on_read_inv)
next
  case (ev_write f s n r c d s')
  from ev_write.prems ev_write.hyps(2) show ?case by (rule on_write_inv)
next
  case (ev_call s a s')
  from ev_call.prems ev_call.hyps show ?case by (rule api_step_inv)
qed

lemma reachable_inv: "reachable s \<Longrightarrow> session_inv s"
proof (induction rule: reachable.induct)
  case init
  then show ?case
    by (simp add: session_inv_def reg_ok_def input_inv_def new_session_def new_link_def)
next
  case (step s ev lbl s')
  from step.hyps(2) step.IH show ?case by (rule sstep_inv)
qed

end
