(* ===== verification/Session_Props.thy ===== *)
theory Session_Props
  imports Session_Inv
begin

text \<open>
  Properties of the reactor integration of \<^verbatim>\<open>core_link.c\<close>: what the registrations
  guarantee in every reachable session, how attaching, shutting down and I/O
  errors behave, and when the callbacks run (claims C24-C33).
\<close>

lemma reachable_set_fd: "reachable s \<Longrightarrow> reachable (link_set_fd s f)"
  by (rule reachable.step [OF _ sstep.ev_call [of _ "Call_set_fd f"]]) simp_all

text \<open>
  C24 (registration invariant). In every session reachable from \<^verbatim>\<open>new_link\<close> by
  callbacks and API calls, \<^verbatim>\<open>on_read\<close> and \<^verbatim>\<open>on_write\<close> are registered only on the
  link's current descriptor and never on \<^verbatim>\<open>-1\<close>, and the input machine state kept
  in \<^verbatim>\<open>l->input\<close> is well-formed. So the assertions \<^verbatim>\<open>fd == l->fd\<close> of both
  callbacks hold whenever liboop calls them: \<^verbatim>\<open>link_set_fd\<close> cancels the old
  descriptor before it changes \<^verbatim>\<open>l->fd\<close>.
\<close>

theorem reachable_registrations:
  assumes "reachable s"
  shows "reg_read s \<union> reg_write s \<subseteq> {fd (slink s)} - {-1}
         \<and> (\<forall>inp. input_buf (slink s) = Some inp \<longrightarrow> input_wf (slink s) inp)"
  using reachable_inv [OF assms] by (auto simp: session_inv_def reg_ok_def input_inv_def)

theorem reachable_registrations_witness:
  "reachable (link_set_fd new_session 3) \<and> reg_read (link_set_fd new_session 3) = {3}
   \<and> reg_read (link_set_fd new_session 3) \<union> reg_write (link_set_fd new_session 3)
       \<subseteq> {fd (slink (link_set_fd new_session 3))} - {-1}"
proof -
  have r: "reachable (link_set_fd new_session 3)"
    by (rule reachable_set_fd [OF reachable.init])
  have c: "reg_read (link_set_fd new_session 3) \<union> reg_write (link_set_fd new_session 3)
       \<subseteq> {fd (slink (link_set_fd new_session 3))} - {-1}"
    using reachable_registrations [OF r] by simp
  have e: "reg_read (link_set_fd new_session 3) = {3}"
    by (simp add: link_set_fd_def activate_def deactivate_def new_session_def new_link_def Let_def)
  show ?thesis using r c e by blast
qed

text \<open>
  C25 (read safety). In a reachable session, a read callback on a registered
  descriptor either returns or aborts on the assertion of \<^verbatim>\<open>ist_idle\<close>, whatever
  the read returned: C1 lifted to the event loop.
\<close>

theorem on_read_only_ist_idle_aborts:
  assumes "reachable s" and "f \<in> reg_read s"
  shows "(\<exists>c rest s'. on_read s f r = Inr (c, rest, s')) \<or> on_read s f r = Inl (Assert_fail ''ist_idle'')"
proof -
  have inv: "session_inv s" using assms(1) by (rule reachable_inv)
  then have f: "f = fd (slink s)" using assms(2) by (auto simp: session_inv_def reg_ok_def)
  define l1 where "l1 = slink s\<lparr>input_buf := Some (in_state (slink s))\<rparr>"
  have wf: "input_wf l1 (in_state (slink s))"
    using inv by (simp add: l1_def session_inv_def input_wf_in_state)
  have feed: "feed_ok (\<lambda>_. True) (input_feed l1 (in_state (slink s)) bs)" for bs
    using wf by (intro input_feed_keeps [OF fire_keeps_True]) simp_all
  show ?thesis
  proof (cases "input_ready l1 (in_state (slink s))")
    case False
    then show ?thesis using f by (simp add: on_read_def Let_def l1_def [symmetric])
  next
    case True
    show ?thesis
    proof (cases r)
      case (Rd_data bs)
      then show ?thesis
        using f True feed [of bs]
        by (auto simp: on_read_def Let_def l1_def [symmetric] feed_ok_def split: sum.splits)
    next
      case (Rd_end e)
      then show ?thesis
        using f True by (simp add: on_read_def Let_def l1_def [symmetric] split: prod.split)
    qed
  qed
qed

theorem on_read_only_ist_idle_aborts_witness:
  "reachable (link_set_fd new_session 3) \<and> 3 \<in> reg_read (link_set_fd new_session 3) \<and>
   ((\<exists>c rest s'. on_read (link_set_fd new_session 3) 3 (Rd_data []) = Inr (c, rest, s'))
    \<or> on_read (link_set_fd new_session 3) 3 (Rd_data []) = Inl (Assert_fail ''ist_idle''))"
proof -
  have r: "reachable (link_set_fd new_session 3)"
    by (rule reachable_set_fd [OF reachable.init])
  have m: "3 \<in> reg_read (link_set_fd new_session 3)"
    by (simp add: link_set_fd_def activate_def deactivate_def new_session_def new_link_def Let_def)
  show ?thesis using on_read_only_ist_idle_aborts [OF r m] r m by simp
qed

text \<open>
  C26 (reattaching keeps the peer version). \<^verbatim>\<open>link_set_fd\<close> discards the input
  buffer but not \<^verbatim>\<open>in_version\<close>, so on the new connection \<^verbatim>\<open>ltx_watch\<close> passes its
  version assertion before the new peer has sent any byte. The specification
  (section 4.5) says a rebound session re-negotiates the version from scratch.
\<close>

theorem link_set_fd_keeps_version:
  assumes "0 < in_version (slink s)" and "fd (slink s) \<noteq> -1"
  shows "input_buf (slink (link_set_fd s f)) = None
         \<and> in_version (slink (link_set_fd s f)) = in_version (slink s)
         \<and> (\<exists>s'. api_step (link_set_fd s f) (Call_watch c) = Inr s')"
  using assms
  by (simp add: link_set_fd_def Let_def ltx_watch_def version_gate_def with_link_def)

theorem link_set_fd_keeps_version_witness:
  "(let s = new_session\<lparr>slink := new_link\<lparr>fd := 3, in_version := 1\<rparr>\<rparr> in
    0 < in_version (slink s) \<and> fd (slink s) \<noteq> -1 \<and>
    input_buf (slink (link_set_fd s 4)) = None \<and>
    (\<exists>s'. api_step (link_set_fd s 4) (Call_watch [65]) = Inr s'))"
  using link_set_fd_keeps_version [of "new_session\<lparr>slink := new_link\<lparr>fd := 3, in_version := 1\<rparr>\<rparr>" 4 "[65]"]
  by (simp add: new_session_def new_link_def)

lemma output_ready_buf [simp]:
  "ofn_idle_ready (l\<lparr>output_buf := x\<rparr>) = ofn_idle_ready l"
  by (simp add: ofn_idle_ready_def)

text \<open>
  C27 (graceful shutdown, specification section 8). \<^verbatim>\<open>on_write\<close> half-closes the
  connection (moving from \<^verbatim>\<open>do_shutdown\<close> to \<^verbatim>\<open>done_shutdown\<close>) only when the
  output machine sits between frames with nothing pending: the queue is empty,
  no byte is written in that call, and no handler is called.
\<close>

theorem shutdown_only_when_idle:
  assumes w: "on_write s f n r = Inr (c, d, s')"
    and "out_shutdown (slink s) = Do_shutdown" and "out_shutdown (slink s') = Done_shutdown"
  shows "out_queue (slink s) = None \<and> \<not> ofn_idle_ready (slink s)
         \<and> oready (out_state (slink s)) = Ofn_idle_ready \<and> d = [] \<and> c = Cb_none \<and> r = Io_ok"
proof -
  define l1 where "l1 = slink s\<lparr>output_buf := Some (out_state (slink s))\<rparr>"
  have f: "f = fd (slink s)"
    using w by (simp add: on_write_def split: if_splits)
  have nr: "\<not> output_ready l1 (out_state (slink s))"
  proof
    assume rdy: "output_ready l1 (out_state (slink s))"
    show False
    proof (cases r)
      case Io_ok
      then obtain l2 out2 where run: "output_run n l1 (out_state (slink s)) = Inr (d, l2, out2)"
        and s': "s' = s\<lparr>slink := l2\<lparr>output_buf := Some out2\<rparr>\<rparr>"
        using w f rdy by (auto simp: on_write_def Let_def l1_def split: sum.splits)
      have "out_shutdown l2 = out_shutdown l1"
        using in_fields_eqD [OF output_run_frame [OF run]] by simp
      with s' assms(2,3) show False by (simp add: l1_def)
    next
      case (Io_fail e)
      with w f rdy assms(2,3) show False by (auto simp: on_write_def Let_def l1_def)
    qed
  qed
  then have "oready (out_state (slink s)) = Ofn_idle_ready \<and> \<not> ofn_idle_ready (slink s)"
    by (simp add: output_ready_def l1_def split: oready.splits)
  moreover have sh: "out_shutdown l1 = Do_shutdown" using assms(2) by (simp add: l1_def)
  moreover have "d = [] \<and> c = Cb_none \<and> r = Io_ok"
    using w f nr sh assms(3)
    by (auto simp: on_write_def Let_def l1_def [symmetric] split: io_result.splits)
  ultimately show ?thesis by (simp add: ofn_idle_ready_def)
qed

theorem shutdown_only_when_idle_witness:
  "(let s = new_session\<lparr>slink := new_link\<lparr>fd := 3, out_shutdown := Do_shutdown,
             output_buf := Some (ost_idle initial_output)\<rparr>, reg_write := {3}\<rparr> in
    \<exists>s'. on_write s 3 1 Io_ok = Inr (Cb_none, [], s') \<and> out_shutdown (slink s) = Do_shutdown
      \<and> out_shutdown (slink s') = Done_shutdown \<and> out_queue (slink s) = None)"
proof -
  define s where "s = new_session\<lparr>slink := new_link\<lparr>fd := 3, out_shutdown := Do_shutdown,
             output_buf := Some (ost_idle initial_output)\<rparr>, reg_write := {3}\<rparr>"
  define s' where "s' = s\<lparr>reg_write := {}, slink := slink s\<lparr>out_shutdown := Done_shutdown\<rparr>\<rparr>"
  have w: "on_write s 3 1 Io_ok = Inr (Cb_none, [], s')"
    by (simp add: s_def s'_def on_write_def out_state_def output_ready_def ofn_idle_ready_def
        ost_idle_def initial_output_def new_session_def new_link_def gale_make_map_def Let_def)
  have "out_queue (slink s) = None"
    using shutdown_only_when_idle [OF w] by (simp add: s_def s'_def)
  with w show ?thesis by (auto simp: s_def s'_def Let_def)
qed

lemma on_process_empty: "on_process s = (Cb_empty, s') \<Longrightarrow> fd (slink s) = -1"
  by (simp add: on_process_def Let_def split: if_splits)

lemma on_read_empty:
  "on_read s f r = Inr (Cb_empty, rest, s') \<Longrightarrow> out_shutdown (slink s) = Done_shutdown"
  by (auto simp: on_read_def Let_def read_failed_def split: if_splits rd_result.splits sum.splits prod.splits)

lemma on_write_empty:
  "on_write s f n r = Inr (Cb_empty, d, s') \<Longrightarrow> out_shutdown (slink s) = No_shutdown"
  by (auto simp: on_write_def Let_def split: if_splits shutdown_phase.splits io_result.splits
      sum.splits prod.splits)

text \<open>
  C28 (no early empty callback). While a graceful shutdown is in progress on an
  attached link, no step of the event loop calls the empty handler.
\<close>

theorem no_empty_while_draining:
  assumes "sstep s ev (Cb_empty, d) s'" and "out_shutdown (slink s) = Do_shutdown"
  shows "fd (slink s) = -1"
  using assms
proof (cases rule: sstep.cases)
  case ev_process
  then show ?thesis using on_process_empty by fastforce
next
  case (ev_read f r)
  then show ?thesis using on_read_empty assms(2) by fastforce
next
  case (ev_write f n r)
  then show ?thesis using on_write_empty assms(2) by fastforce
qed

theorem no_empty_while_draining_witness:
  "(let s = new_session\<lparr>slink := new_link\<lparr>out_shutdown := Do_shutdown, on_empty := True\<rparr>,
                         reg_time := True\<rparr> in
    (\<exists>s'. sstep s Ev_process (Cb_empty, []) s')
    \<and> out_shutdown (slink s) = Do_shutdown \<and> fd (slink s) = -1)"
proof -
  define s where "s = new_session\<lparr>slink := new_link\<lparr>out_shutdown := Do_shutdown, on_empty := True\<rparr>,
                         reg_time := True\<rparr>"
  have st: "sstep s Ev_process (Cb_empty, []) (snd (on_process (s\<lparr>reg_time := False\<rparr>)))"
    by (rule sstep.ev_process)
      (simp_all add: s_def on_process_def link_queue_num_def new_session_def new_link_def)
  have "out_shutdown (slink s) = Do_shutdown" by (simp add: s_def)
  with no_empty_while_draining [OF st] st show ?thesis by (auto simp: s_def [symmetric])
qed

text \<open>
  C29 (read errors do not detach). When a read fails, \<^verbatim>\<open>on_read\<close> calls the error
  handler but leaves the descriptor and every registration in place. The comment
  of \<^verbatim>\<open>link_on_error\<close> says that when the handler is called the link is detached.
\<close>

theorem read_error_stays_attached:
  assumes "on_read s f (Rd_end e) = Inr (Cb_error e, rest, s')"
  shows "fd (slink s') = fd (slink s) \<and> reg_read s' = reg_read s \<and> reg_write s' = reg_write s
         \<and> reg_time s' = reg_time s"
  using assms
  by (auto simp: on_read_def Let_def read_failed_def split: if_splits prod.splits)

theorem read_error_stays_attached_witness:
  "(let s = new_session\<lparr>slink := new_link\<lparr>fd := 3, on_error := True\<rparr>, reg_read := {3}\<rparr> in
    \<exists>s'. on_read s 3 (Rd_end 104) = Inr (Cb_error 104, [], s') \<and> fd (slink s') = 3
      \<and> reg_read s' = {3})"
proof -
  define s where "s = new_session\<lparr>slink := new_link\<lparr>fd := 3, on_error := True\<rparr>, reg_read := {3}\<rparr>"
  define s' where "s' = s\<lparr>slink := slink s\<lparr>input_buf := Some initial_input\<rparr>\<rparr>"
  have r: "on_read s 3 (Rd_end 104) = Inr (Cb_error 104, [], s')"
    by (simp add: s_def s'_def on_read_def in_state_def read_failed_def initial_input_def
        ist_version_def input_ready_def new_session_def new_link_def Let_def)
  have "fd (slink s') = 3 \<and> reg_read s' = {3}"
    using read_error_stays_attached [OF r] by (simp add: s_def)
  with r show ?thesis unfolding Let_def s_def [symmetric] by blast
qed

lemma slot_get_ctl [simp]:
  "text_slot_get (l\<lparr>input_buf := x\<rparr>) t = text_slot_get l t"
  "text_slot_get (l\<lparr>out_shutdown := y\<rparr>) t = text_slot_get l t"
  "cid_slot_get (l\<lparr>input_buf := x\<rparr>) c = cid_slot_get l c"
  "cid_slot_get (l\<lparr>out_shutdown := y\<rparr>) c = cid_slot_get l c"
  by (cases t; simp)+ (cases c; simp)+

lemma input_ready_ctl [simp]:
  "input_ready (l\<lparr>input_buf := x\<rparr>) inp = input_ready l inp"
  "input_ready (l\<lparr>out_shutdown := y\<rparr>) inp = input_ready l inp"
  by (simp_all add: input_ready_def ifn_message_ready_def ifn_text_ready_def ifn_cid_ready_def
      split: iready.split)

lemma in_state_buf [simp]: "in_state (l\<lparr>input_buf := Some inp\<rparr>) = inp"
  by (simp add: in_state_def)

text \<open>
  C30 (end of file after shutdown). After the half-close, the first end of file
  resets the shutdown phase and calls the empty handler; the read registration
  stays, so the next read callback sees end of file again and calls the error
  handler with \<^verbatim>\<open>errno\<close> 0, unless the empty handler detached the link.
\<close>

theorem eof_after_shutdown_twice:
  assumes "out_shutdown (slink s) = Done_shutdown" and "on_empty (slink s)" and "on_error (slink s)"
    and "f = fd (slink s)" and "input_ready (slink s) (in_state (slink s))"
  shows "\<exists>s1 s2. on_read s f (Rd_end 0) = Inr (Cb_empty, [], s1) \<and> reg_read s1 = reg_read s
           \<and> on_read s1 f (Rd_end 0) = Inr (Cb_error 0, [], s2)"
  using assms by (simp add: on_read_def read_failed_def Let_def in_state_def)

theorem eof_after_shutdown_twice_witness:
  "(let s = new_session\<lparr>slink := new_link\<lparr>fd := 3, on_error := True, on_empty := True,
                           out_shutdown := Done_shutdown\<rparr>, reg_read := {3}\<rparr> in
    \<exists>s1 s2. on_read s 3 (Rd_end 0) = Inr (Cb_empty, [], s1) \<and> reg_read s1 = {3}
      \<and> on_read s1 3 (Rd_end 0) = Inr (Cb_error 0, [], s2))"
proof -
  define s where "s = new_session\<lparr>slink := new_link\<lparr>fd := 3, on_error := True, on_empty := True,
                           out_shutdown := Done_shutdown\<rparr>, reg_read := {3}\<rparr>"
  have "input_ready (slink s) (in_state (slink s))"
    by (simp add: s_def in_state_def initial_input_def ist_version_def input_ready_def
        new_session_def new_link_def)
  then have "\<exists>s1 s2. on_read s 3 (Rd_end 0) = Inr (Cb_empty, [], s1) \<and> reg_read s1 = reg_read s
           \<and> on_read s1 3 (Rd_end 0) = Inr (Cb_error 0, [], s2)"
    by (intro eof_after_shutdown_twice) (simp_all add: s_def new_session_def new_link_def)
  then show ?thesis unfolding Let_def s_def [symmetric] by (simp add: s_def)
qed

text \<open>
  C31 (generation-1 calls do not wake the output). The \<^verbatim>\<open>ltx_*\<close> functions do not
  call \<^verbatim>\<open>activate\<close>. If the write callback has been cancelled because the output
  was idle, \<^verbatim>\<open>ltx_watch\<close> leaves a frame pending that no time or write callback can
  send; only incoming data or another API call re-registers the writer.
\<close>

theorem ltx_watch_no_wakeup:
  assumes "reg_write s = {}" and "\<not> reg_time s" and "api_step s (Call_watch c) = Inr s'"
  shows "ofn_idle_ready (slink s') \<and> (\<forall>lbl s''. \<not> sstep s' Ev_process lbl s'')
         \<and> (\<forall>f n r lbl s''. \<not> sstep s' (Ev_write f n r) lbl s'')"
proof -
  have s': "s' = s\<lparr>slink := slink s\<lparr>out_watch :=
              gale_map_add (out_watch (slink s)) (gale_text_as_data c) (Some St_yes)\<rparr>\<rparr>"
    using assms(3) by (simp add: ltx_watch_def version_gate_def with_link_def split: if_splits)
  have "ofn_idle_ready (slink s')" by (simp add: s' ofn_idle_ready_def)
  moreover have "\<not> sstep s' Ev_process lbl s''" for lbl s''
    using assms(2) s' by (auto elim: sstep_processE)
  moreover have "\<not> sstep s' (Ev_write f n r) lbl s''" for f n r lbl s''
    using assms(1) s' by (auto elim: sstep_writeE)
  ultimately show ?thesis by blast
qed

theorem ltx_watch_no_wakeup_witness:
  "(let s = new_session\<lparr>slink := new_link\<lparr>fd := 3, in_version := 1\<rparr>, reg_read := {3}\<rparr> in
    \<exists>s'. api_step s (Call_watch [65]) = Inr s' \<and> reg_write s = {} \<and> \<not> reg_time s
      \<and> ofn_idle_ready (slink s') \<and> (\<forall>f n r lbl s''. \<not> sstep s' (Ev_write f n r) lbl s''))"
proof -
  define s where "s = new_session\<lparr>slink := new_link\<lparr>fd := 3, in_version := 1\<rparr>, reg_read := {3}\<rparr>"
  obtain s' where st: "api_step s (Call_watch [65]) = Inr s'"
    by (simp add: s_def ltx_watch_def version_gate_def with_link_def new_session_def new_link_def)
  have pre: "reg_write s = {}" "\<not> reg_time s" by (simp_all add: s_def new_session_def)
  show ?thesis
    using ltx_watch_no_wakeup [OF pre st] st pre unfolding Let_def s_def [symmetric] by blast
qed

text \<open>
  A run of \<^verbatim>\<open>on_process\<close> that has nothing to deliver changes nothing and does
  not reschedule itself.
\<close>

theorem on_process_idle:
  assumes "sstep s Ev_process (Cb_none, d) s'"
  shows "\<not> reg_time s' \<and> slink s' = slink s \<and> d = []"
  using assms
  by (auto elim!: sstep_processE simp: on_process_def Let_def split: if_splits)

theorem on_process_idle_witness:
  "sstep (new_session\<lparr>reg_time := True\<rparr>) Ev_process (Cb_none, []) new_session
   \<and> \<not> reg_time new_session"
proof -
  have st: "sstep (new_session\<lparr>reg_time := True\<rparr>) Ev_process (Cb_none, []) new_session"
    by (rule sstep.ev_process)
      (simp_all add: on_process_def new_session_def new_link_def link_queue_num_def)
  show ?thesis using on_process_idle [OF st] st by simp
qed

text \<open>
  C32 (non-termination of the empty callback). A detached link (\<^verbatim>\<open>fd = -1\<close>) with an
  empty queue and an \<^verbatim>\<open>on_empty\<close> handler, and nothing else to deliver, never
  goes quiet: \<^verbatim>\<open>on_process\<close> calls the handler and re-\<^verbatim>\<open>activate\<close>s itself, so
  the time callback fires again at once, forever, unless the handler itself changes the
  link. The run below is infinite and every step of it calls \<^verbatim>\<open>on_empty\<close>.
\<close>

theorem detached_empty_spins:
  assumes "reg_time s" and "fd (slink s) = -1" and "link_queue_num (slink s) = 0"
    and "on_empty (slink s)" and "in_puff (slink s) = None \<or> \<not> on_message (slink s)"
    and "in_will (slink s) = None \<or> \<not> on_will (slink s)"
    and "in_gimme (slink s) = [] \<or> \<not> on_subscribe (slink s)"
  shows "\<exists>run. run 0 = s \<and> (\<forall>n. sstep (run n) Ev_process (Cb_empty, []) (run (Suc n))
                                 \<and> slink (run n) = slink s)"
proof -
  define s1 where "s1 = activate (s\<lparr>reg_time := False\<rparr>)"
  have proc: "on_process (t\<lparr>reg_time := False\<rparr>) = (Cb_empty, activate (t\<lparr>reg_time := False\<rparr>))"
    if "slink t = slink s" for t
    using assms(2-7) that by (auto simp: on_process_def Let_def)
  have l1: "slink s1 = slink s" "reg_time s1" by (simp_all add: s1_def)
  have fixp: "activate (s1\<lparr>reg_time := False\<rparr>) = s1"
    using assms(2) by (simp add: s1_def activate_def deactivate_def Let_def)
  have st0: "sstep s Ev_process (Cb_empty, []) s1"
    using assms(1) proc [of s] by (auto simp: s1_def intro: sstep.ev_process)
  have st1: "sstep s1 Ev_process (Cb_empty, []) s1"
    using l1 proc [of s1] fixp by (auto intro: sstep.ev_process)
  define run where "run = (\<lambda>n::nat. if n = 0 then s else s1)"
  have "sstep (run n) Ev_process (Cb_empty, []) (run (Suc n)) \<and> slink (run n) = slink s" for n
    using st0 st1 l1 by (simp add: run_def)
  moreover have "run 0 = s" by (simp add: run_def)
  ultimately show ?thesis by blast
qed

theorem detached_empty_spins_witness:
  "(let s = new_session\<lparr>slink := new_link\<lparr>on_empty := True\<rparr>, reg_time := True\<rparr> in
    \<exists>run. run 0 = s \<and> (\<forall>n. sstep (run n) Ev_process (Cb_empty, []) (run (Suc n))
                            \<and> slink (run n) = slink s))"
  unfolding Let_def
  by (rule detached_empty_spins) (simp_all add: new_session_def new_link_def link_queue_num_def)

text \<open>
  C33 (delivery). A scheduled \<^verbatim>\<open>on_process\<close> with a decoded puff pending and a
  message handler registered calls that handler with the puff, clears
  \<^verbatim>\<open>in_puff\<close> (releasing the input machine's backpressure) and reschedules itself.
\<close>

theorem on_process_delivers_puff:
  assumes "reg_time s" and "in_puff (slink s) = Some p" and "on_message (slink s)"
  shows "\<exists>s'. sstep s Ev_process (Cb_message p, []) s' \<and> in_puff (slink s') = None \<and> reg_time s'"
proof -
  let ?s' = "activate (s\<lparr>reg_time := False, slink := slink s\<lparr>in_puff := None\<rparr>\<rparr>)"
  have "sstep s Ev_process (Cb_message p, []) ?s'"
    by (rule sstep.ev_process) (simp_all add: assms on_process_def)
  then show ?thesis by auto
qed

theorem on_process_delivers_puff_witness:
  "(let p = \<lparr>routing = [65], content = [1]\<rparr>;
        s = new_session\<lparr>slink := new_link\<lparr>in_puff := Some p, on_message := True\<rparr>, reg_time := True\<rparr> in
    \<exists>s'. sstep s Ev_process (Cb_message p, []) s' \<and> in_puff (slink s') = None \<and> reg_time s')"
  unfolding Let_def
  by (rule on_process_delivers_puff) (simp_all add: new_session_def)

text \<open>
  C40 (version handshake between two sessions). On a fresh connection the first
  write callback of one side sends exactly the version word 1 (\<^verbatim>\<open>ofn_version\<close>
  from the state \<^verbatim>\<open>on_write\<close> creates), and the first read callback of the other
  side, fed those bytes, records peer version 1, after which its generation-1
  calls pass their version assertion (specification 4.3 and 8).
\<close>

theorem session_version_handshake:
  assumes "fd (slink a) \<noteq> -1" and "output_buf (slink a) = None"
    and "input_buf (slink b) = None"
  shows "\<exists>a'. on_write a (fd (slink a)) 1 Io_ok = Inr (Cb_none, gale_pack_u32 1, a')
         \<and> (\<exists>b'. on_read b (fd (slink b)) (Rd_data (gale_pack_u32 1)) = Inr (Cb_none, [], b')
                 \<and> in_version (slink b') = 1 \<and> (\<exists>b''. api_step b' (Call_watch c) = Inr b''))"
proof -
  have w: "\<exists>a'. on_write a (fd (slink a)) 1 Io_ok = Inr (Cb_none, gale_pack_u32 1, a')"
    using assms(2)
    by (simp add: on_write_def out_state_def initial_output_def ost_version_def output_ready_def
        output_fire_def ofn_version_def PROTOCOL_VERSION_def Let_def)
  define l1 where "l1 = slink b\<lparr>input_buf := Some initial_input\<rparr>"
  have feed: "input_feed l1 initial_input (gale_pack_u32 1 @ []) =
      Inr (l1\<lparr>in_version := 1, in_length := 0\<rparr>, idle_input, [])"
    by (simp only: input_feed_version input_feed_idle_Nil) (simp add: PROTOCOL_VERSION_def)
  have rdy: "input_ready l1 initial_input"
    by (simp add: ready_defs initial_input_def ist_version_def)
  have "\<exists>b'. on_read b (fd (slink b)) (Rd_data (gale_pack_u32 1)) = Inr (Cb_none, [], b')
            \<and> in_version (slink b') = 1 \<and> (\<exists>b''. api_step b' (Call_watch c) = Inr b'')"
    using feed rdy assms(3)
    by (simp add: on_read_def in_state_def l1_def Let_def ltx_watch_def version_gate_def with_link_def)
  with w show ?thesis by blast
qed

theorem session_version_handshake_witness:
  "fd (slink (new_session\<lparr>slink := new_link\<lparr>fd := 3\<rparr>\<rparr>)) \<noteq> -1
   \<and> output_buf (slink (new_session\<lparr>slink := new_link\<lparr>fd := 3\<rparr>\<rparr>)) = None
   \<and> input_buf (slink (new_session\<lparr>slink := new_link\<lparr>fd := 4\<rparr>\<rparr>)) = None
   \<and> (\<exists>a'. on_write (new_session\<lparr>slink := new_link\<lparr>fd := 3\<rparr>\<rparr>) 3 1 Io_ok
             = Inr (Cb_none, gale_pack_u32 1, a')
        \<and> (\<exists>b'. on_read (new_session\<lparr>slink := new_link\<lparr>fd := 4\<rparr>\<rparr>) 4 (Rd_data (gale_pack_u32 1))
                 = Inr (Cb_none, [], b') \<and> in_version (slink b') = 1
                 \<and> (\<exists>b''. api_step b' (Call_watch [65]) = Inr b'')))"
  using session_version_handshake [of "new_session\<lparr>slink := new_link\<lparr>fd := 3\<rparr>\<rparr>"
          "new_session\<lparr>slink := new_link\<lparr>fd := 4\<rparr>\<rparr>" "[65]"]
  by (simp add: new_session_def new_link_def)

end
