(* ===== verification/Debug.thy ===== *)
theory Debug
  imports Prelude
begin

text \<open>
  The debug printer of \<^verbatim>\<open>src/libgale/misc_debug.c\<close>. \<^verbatim>\<open>debug\<close> keeps the
  indentation in a \<^verbatim>\<open>static int indent\<close>: a negative \<^verbatim>\<open>idelta\<close> is applied before
  the line is printed, a positive one after, and the loop
  \<^verbatim>\<open>for (i = 0; i < indent; ++i)\<close> prints no blank for a negative indentation.
  \<^verbatim>\<open>gale_dprintf\<close> and \<^verbatim>\<open>gale_diprintf\<close> skip the call entirely, indentation
  change included, when \<^verbatim>\<open>level >= gale_global->debug_level\<close>. The model takes the
  text \<^verbatim>\<open>vfprintf\<close> formats as a string and returns what is written to
  \<^verbatim>\<open>stderr\<close> with the new value of \<^verbatim>\<open>indent\<close>; \<^verbatim>\<open>indent\<close> is an unbounded
  integer, so the model agrees with the C \<^verbatim>\<open>int\<close> only while the indentation stays
  below \<open>2^31\<close>: with a step \<open>k\<close> that is about \<open>2^31 / k\<close> open calls, and a
  single call with a huge \<^verbatim>\<open>idelta\<close> can overflow it at once.
\<close>

definition debug :: "int \<Rightarrow> int \<Rightarrow> string \<Rightarrow> int \<Rightarrow> string \<times> int" where
  "debug level idelta msg indent =
     (let ind1 = (if idelta < 0 then indent + idelta else indent) in
      (replicate (nat ind1) CHR '' '' @ msg, if 0 < idelta then ind1 + idelta else ind1))"

definition gale_dprintf :: "int \<Rightarrow> int \<Rightarrow> string \<Rightarrow> int \<Rightarrow> string \<times> int" where
  "gale_dprintf debug_level level msg indent =
     (if debug_level \<le> level then ([], indent) else debug level 0 msg indent)"

definition gale_diprintf :: "int \<Rightarrow> int \<Rightarrow> int \<Rightarrow> string \<Rightarrow> int \<Rightarrow> string \<times> int" where
  "gale_diprintf debug_level level idelta msg indent =
     (if debug_level \<le> level then ([], indent) else debug level idelta msg indent)"

text \<open>A sequence of calls, run from a given indentation.\<close>

datatype dcall = Dprintf int string | Diprintf int int string

fun dcall_step :: "int \<Rightarrow> dcall \<Rightarrow> int \<Rightarrow> string \<times> int" where
  "dcall_step dl (Dprintf lv m) ind = gale_dprintf dl lv m ind"
| "dcall_step dl (Diprintf lv d m) ind = gale_diprintf dl lv d m ind"

fun debug_run :: "int \<Rightarrow> dcall list \<Rightarrow> int \<Rightarrow> string list \<times> int" where
  "debug_run dl [] ind = ([], ind)"
| "debug_run dl (c # cs) ind =
     (let (out, ind') = dcall_step dl c ind; (outs, ind'') = debug_run dl cs ind' in (out # outs, ind''))"

subsection \<open>The intended discipline: nesting\<close>

text \<open>
  How the callers use it: an opening line indents what follows by a fixed step
  \<open>k\<close>, a closing line undoes it and is printed at the outer level. The abstract
  printer keeps the nesting depth and prints each line \<open>k * depth\<close> blanks in.
\<close>

datatype nest = Open string | Close string | Line string

fun nest_call :: "int \<Rightarrow> int \<Rightarrow> nest \<Rightarrow> dcall" where
  "nest_call lv k (Open m) = Diprintf lv k m"
| "nest_call lv k (Close m) = Diprintf lv (- k) m"
| "nest_call lv k (Line m) = Dprintf lv m"

fun nest_ok :: "nat \<Rightarrow> nest list \<Rightarrow> bool" where
  "nest_ok d [] = True"
| "nest_ok d (Open m # es) = nest_ok (Suc d) es"
| "nest_ok d (Close m # es) = (0 < d \<and> nest_ok (d - 1) es)"
| "nest_ok d (Line m # es) = nest_ok d es"

fun nest_print :: "nat \<Rightarrow> nat \<Rightarrow> nest list \<Rightarrow> string list \<times> nat" where
  "nest_print k d [] = ([], d)"
| "nest_print k d (Open m # es) =
     (let (outs, d') = nest_print k (Suc d) es in ((replicate (k * d) CHR '' '' @ m) # outs, d'))"
| "nest_print k d (Close m # es) =
     (let (outs, d') = nest_print k (d - 1) es in ((replicate (k * (d - 1)) CHR '' '' @ m) # outs, d'))"
| "nest_print k d (Line m # es) =
     (let (outs, d') = nest_print k d es in ((replicate (k * d) CHR '' '' @ m) # outs, d'))"

text \<open>
  C34 (refinement of the indentation counter). When every call passes the level
  filter and the opening and closing calls are properly nested, the \<^verbatim>\<open>static int
  indent\<close> of \<^verbatim>\<open>debug\<close> is the step times the nesting depth, and every line is
  printed exactly as the nesting printer prints it: indented by the depth
  outside the opening line, and by the outer depth on the closing line.
\<close>

theorem debug_run_refines_nesting:
  assumes "nest_ok d es" and "lv < dl" and "0 < k"
  shows "debug_run dl (map (nest_call lv (int k)) es) (int (k * d)) =
         (let (outs, d') = nest_print k d es in (outs, int (k * d')))"
  using assms
proof (induction d es rule: nest_ok.induct)
  case (1 d)
  then show ?case by simp
next
  case (2 d m es)
  have e: "int (k * d) + int k = int (k * Suc d)" by simp
  from 2 show ?case
    by (simp add: gale_diprintf_def debug_def Let_def split_def e del: of_nat_mult of_nat_Suc mult_Suc_right)
next
  case (3 d m es)
  then have e: "int (k * d) - int k = int (k * (d - Suc 0))"
    by (simp add: right_diff_distrib')
  from 3 show ?case
    by (simp add: gale_diprintf_def debug_def Let_def split_def e del: of_nat_mult)
next
  case (4 d m es)
  then show ?case
    by (simp add: gale_dprintf_def debug_def Let_def split_def del: of_nat_mult)
qed

text \<open>
  C35 (filtered opening). \<^verbatim>\<open>gale_diprintf\<close> returns before \<^verbatim>\<open>debug\<close> when the
  level is filtered, so an opening call at a filtered level followed by its
  closing call at a printed level leaves the indentation \<open>k\<close> lower than
  before: the counter drifts, and every later line is shifted.
\<close>

theorem debug_filtered_open_drifts:
  assumes "dl \<le> lo" and "lc < dl" and "0 < k"
  shows "debug_run dl [Diprintf lo k m1, Diprintf lc (- k) m2] ind =
           ([[], replicate (nat (ind - k)) CHR '' '' @ m2], ind - k)"
  using assms by (simp add: gale_diprintf_def debug_def Let_def)

theorem debug_run_refines_nesting_witness:
  "nest_ok 0 [Open ''a'', Line ''b'', Close ''c''] \<and>
   debug_run 1 (map (nest_call 0 (int 2)) [Open ''a'', Line ''b'', Close ''c'']) (int (2 * 0)) =
   (let (outs, d') = nest_print 2 0 [Open ''a'', Line ''b'', Close ''c''] in (outs, int (2 * d')))"
  using debug_run_refines_nesting [of 0 "[Open ''a'', Line ''b'', Close ''c'']" 0 1 2] by simp

theorem debug_filtered_open_drifts_witness:
  "(3::int) \<le> 5 \<and> (1::int) < 3 \<and> (0::int) < 2 \<and>
   debug_run 3 [Diprintf 5 2 ''{'', Diprintf 1 (- 2) ''}''] 0 = ([[], ''}''], - 2)"
  using debug_filtered_open_drifts [of 3 5 1 2 "''{''" "''}''" 0] by simp

end
