(* ===== verification/Text.thy ===== *)
theory Text
  imports Wire
begin

text \<open>
  The libgale text helpers the client and server code calls (their C source is
  not under \<^verbatim>\<open>src/\<close>; they are modelled from their use): \<^verbatim>\<open>G_("...")\<close> makes a
  text of an ASCII literal, \<^verbatim>\<open>gale_text_concat\<close> joins texts, and
  \<^verbatim>\<open>gale_text_from_number(n, base, pad)\<close> writes \<open>n\<close> in \<open>base\<close> with lower-case
  digits, padded with zeros on the left to at least \<open>pad\<close> digits. The reader
  \<open>gale_text_to_number\<close> is the inverse the report and id texts are read with.
\<close>

definition gale_text_lit :: "string \<Rightarrow> gtext" where
  "gale_text_lit s = map (\<lambda>c. of_nat (of_char c)) s"

definition gale_text_concat :: "gtext list \<Rightarrow> gtext" where
  "gale_text_concat ts = concat ts"

function num_digits :: "nat \<Rightarrow> nat \<Rightarrow> nat list" where
  "num_digits b n = (if b < 2 \<or> n < b then [n] else num_digits b (n div b) @ [n mod b])"
  by pat_completeness auto
termination
  by (relation "measure (\<lambda>(b, n). n)") auto

declare num_digits.simps [simp del]

definition digit_char :: "nat \<Rightarrow> wch" where
  "digit_char d = of_nat (if d < 10 then 48 + d else 87 + d)"

definition gale_text_from_number :: "nat \<Rightarrow> nat \<Rightarrow> nat \<Rightarrow> gtext" where
  "gale_text_from_number n base pad =
     (let ds = map digit_char (num_digits base n) in
      replicate (pad - length ds) (digit_char 0) @ ds)"

definition digit_val :: "wch \<Rightarrow> nat" where
  "digit_val c = (let v = unat c in if 48 \<le> v \<and> v < 58 then v - 48 else v - 87)"

definition gale_text_to_number :: "nat \<Rightarrow> gtext \<Rightarrow> nat" where
  "gale_text_to_number base t = foldl (\<lambda>acc c. acc * base + digit_val c) 0 t"

lemma num_digits_bound: "2 \<le> b \<Longrightarrow> d \<in> set (num_digits b n) \<Longrightarrow> d < b"
proof (induction b n rule: num_digits.induct)
  case (1 b n)
  then show ?case by (subst (asm) num_digits.simps) (auto split: if_splits)
qed

lemma digit_val_char: "d < 16 \<Longrightarrow> digit_val (digit_char d) = d"
  by (simp add: digit_val_def digit_char_def unat_of_nat)

lemma foldl_digits:
  "foldl (\<lambda>acc c. acc * b + digit_val c) a (map digit_char ds) = foldl (\<lambda>acc d. acc * b + d) a ds"
  if "\<forall>d\<in>set ds. d < 16"
  using that by (induction ds arbitrary: a) (simp_all add: digit_val_char)

lemma num_digits_value:
  "2 \<le> b \<Longrightarrow> foldl (\<lambda>acc d. acc * b + d) 0 (num_digits b n) = n"
proof (induction b n rule: num_digits.induct)
  case (1 b n)
  show ?case
  proof (cases "n < b")
    case True
    then show ?thesis using "1.prems" by (subst num_digits.simps) simp
  next
    case False
    with "1.prems" "1.IH" show ?thesis by (subst num_digits.simps) simp
  qed
qed

lemma foldl_zeros: "foldl (\<lambda>acc d. acc * b + d) 0 (replicate m 0) = (0::nat)"
  by (induction m) simp_all

theorem gale_text_number_roundtrip:
  assumes "2 \<le> base" and "base \<le> 16"
  shows "gale_text_to_number base (gale_text_from_number n base pad) = n"
proof -
  have bd: "\<forall>d\<in>set (replicate (pad - length (num_digits base n)) 0 @ num_digits base n). d < 16"
    using num_digits_bound [OF assms(1)] assms(2) by fastforce
  have "gale_text_from_number n base pad =
        map digit_char (replicate (pad - length (num_digits base n)) 0 @ num_digits base n)"
    by (simp add: gale_text_from_number_def Let_def)
  then show ?thesis
    using foldl_digits [OF bd] num_digits_value [OF assms(1)]
    by (simp add: gale_text_to_number_def foldl_zeros)
qed

lemma num_digits_length:
  "2 \<le> b \<Longrightarrow> n < b ^ k \<Longrightarrow> 0 < k \<Longrightarrow> length (num_digits b n) \<le> k"
proof (induction b n arbitrary: k rule: num_digits.induct)
  case (1 b n)
  show ?case
  proof (cases "n < b")
    case True
    then show ?thesis using "1.prems" by (subst num_digits.simps) simp
  next
    case False
    then obtain j where k: "k = Suc j" using "1.prems"(3) by (cases k) auto
    have "b ^ 1 \<le> n" using False by simp
    then have "0 < j" using "1.prems"(2) k by (cases j) auto
    moreover have "n div b < b ^ j"
      using "1.prems"(1,2) k by (simp add: div_less_iff_less_mult mult.commute)
    ultimately have "length (num_digits b (n div b)) \<le> j"
      using "1.IH" "1.prems"(1) False by simp
    then show ?thesis using False "1.prems"(1) k by (subst num_digits.simps) simp
  qed
qed

lemma from_number_pad_length:
  "2 \<le> b \<Longrightarrow> n < b ^ k \<Longrightarrow> 0 < k \<Longrightarrow> length (gale_text_from_number n b k) = k"
  using num_digits_length [of b n k] by (simp add: gale_text_from_number_def Let_def)

end
