(* ===== verification/Client.thy ===== *)
theory Client
  imports Text Time
begin

text \<open>
  \<^verbatim>\<open>gale_add_id\<close> of \<^verbatim>\<open>src/libgale/client_standard.c\<close>: it appends three
  identifying fragments to a message's group. What it reads from outside is
  an argument of the model: \<^verbatim>\<open>gale_global->error_prefix\<close> and \<^verbatim>\<open>VERSION\<close>, the
  environment variables \<^verbatim>\<open>GALE_DOMAIN\<close>, \<^verbatim>\<open>HOST\<close> and \<^verbatim>\<open>LOGNAME\<close> (through
  \<^verbatim>\<open>gale_var\<close>), \<^verbatim>\<open>getpid()\<close>, and the system clock with the \<^verbatim>\<open>static last\<close> of
  \<^verbatim>\<open>gale_time_now\<close>, which is threaded through. The fragment type and
  \<^verbatim>\<open>gale_group_add\<close> (not under \<^verbatim>\<open>src/\<close>) are modelled from their use: a group is
  the list of its fragments and adding appends.
\<close>

record client_env =
  error_prefix :: gtext
  version :: gtext
  gale_domain :: gtext
  host :: gtext
  logname :: gtext
  pid :: nat

datatype frag_value = Frag_text gtext | Frag_time gale_time

record gale_fragment =
  frag_name :: gtext
  frag_value :: frag_value

type_synonym gale_group = "gale_fragment list"

definition gale_group_add :: "gale_group \<Rightarrow> gale_fragment \<Rightarrow> gale_group" where
  "gale_group_add g f = g @ [f]"

definition id_instance :: "client_env \<Rightarrow> gtext \<Rightarrow> gtext" where
  "id_instance env terminal = gale_text_concat
     [gale_domain env, gale_text_lit ''/'', host env, gale_text_lit ''/'', logname env,
      gale_text_lit ''/'', terminal, gale_text_lit ''/'', gale_text_from_number (pid env) 10 0]"

definition gale_add_id ::
  "client_env \<Rightarrow> gale_time \<Rightarrow> timeval \<Rightarrow> gale_group \<Rightarrow> gtext \<Rightarrow> gale_group \<times> gale_time" where
  "gale_add_id env last_t tv grp terminal =
     (let f1 = \<lparr>frag_name = gale_text_lit ''id/class'',
                frag_value = Frag_text (gale_text_concat [error_prefix env, gale_text_lit ''/'', version env])\<rparr>;
          g1 = gale_group_add grp f1;
          f2 = \<lparr>frag_name = gale_text_lit ''id/instance'', frag_value = Frag_text (id_instance env terminal)\<rparr>;
          g2 = gale_group_add g1 f2;
          (now, last') = gale_time_now last_t tv;
          f3 = \<lparr>frag_name = gale_text_lit ''id/time'', frag_value = Frag_time now\<rparr> in
      (gale_group_add g2 f3, last'))"

text \<open>Reading an \<^verbatim>\<open>id/instance\<close> text back: its fields between the slashes.\<close>

fun split_text :: "wch \<Rightarrow> gtext \<Rightarrow> gtext list" where
  "split_text c [] = [[]]"
| "split_text c (x # xs) =
     (if x = c then [] # split_text c xs
      else (case split_text c xs of f # fs \<Rightarrow> (x # f) # fs | [] \<Rightarrow> [[x]]))"

definition slash :: wch where
  "slash = 47"

lemma gale_text_lit_slash [simp]: "gale_text_lit ''/'' = [slash]"
  by (simp add: gale_text_lit_def slash_def)

lemma split_text_append:
  "c \<notin> set a \<Longrightarrow> split_text c (a @ c # b) = a # split_text c b"
  by (induction a) auto

lemma split_text_nosep:
  "c \<notin> set a \<Longrightarrow> split_text c a = [a]"
  by (induction a) auto

lemma digit_char_not_slash: "d < 16 \<Longrightarrow> digit_char d \<noteq> slash"
proof
  assume d: "d < 16" and eq: "digit_char d = slash"
  have "unat (digit_char d) = (if d < 10 then 48 + d else 87 + d)"
    using d by (simp add: digit_char_def unat_of_nat)
  moreover have "unat slash = 47" by (simp add: slash_def)
  ultimately show False using eq by (simp split: if_splits)
qed

lemma from_number_no_slash:
  assumes "2 \<le> b" "b \<le> 16"
  shows "slash \<notin> set (gale_text_from_number n b pad)"
proof
  assume "slash \<in> set (gale_text_from_number n b pad)"
  then obtain d where "d = 0 \<or> d \<in> set (num_digits b n)" "slash = digit_char d"
    by (auto simp: gale_text_from_number_def Let_def split: if_splits)
  moreover have "d < 16" if "d = 0 \<or> d \<in> set (num_digits b n)" for d
    using that num_digits_bound [OF assms(1)] assms(2) by fastforce
  ultimately show False using digit_char_not_slash by metis
qed

text \<open>
  C36 (identification round trip). Splitting the \<^verbatim>\<open>id/instance\<close> text that
  \<^verbatim>\<open>gale_add_id\<close> builds at its slashes gives back \<^verbatim>\<open>GALE_DOMAIN\<close>, \<^verbatim>\<open>HOST\<close>,
  \<^verbatim>\<open>LOGNAME\<close>, the terminal and, read in decimal, the process id, provided none
  of the four texts contains a slash (\<open>id_instance_ambiguous\<close> shows two
  different identities with the same text when one does).
\<close>

theorem id_instance_roundtrip:
  assumes "slash \<notin> set (gale_domain env)" "slash \<notin> set (host env)"
    "slash \<notin> set (logname env)" "slash \<notin> set terminal"
  shows "map_option (\<lambda>fs. (fs ! 0, fs ! 1, fs ! 2, fs ! 3, gale_text_to_number 10 (fs ! 4)))
           (if length (split_text slash (id_instance env terminal)) = 5
            then Some (split_text slash (id_instance env terminal)) else None)
         = Some (gale_domain env, host env, logname env, terminal, pid env)"
proof -
  have "split_text slash (id_instance env terminal) =
        [gale_domain env, host env, logname env, terminal, gale_text_from_number (pid env) 10 0]"
    using assms from_number_no_slash [of 10 "pid env" 0]
    by (simp add: id_instance_def gale_text_concat_def split_text_append split_text_nosep)
  then show ?thesis by (simp add: gale_text_number_roundtrip)
qed

theorem id_instance_roundtrip_witness:
  "slash \<notin> set [100] \<and> slash \<notin> set [104] \<and> slash \<notin> set [117] \<and> slash \<notin> set [116] \<and>
   map_option (\<lambda>fs. (fs ! 0, fs ! 1, fs ! 2, fs ! 3, gale_text_to_number 10 (fs ! 4)))
     (if length (split_text slash (id_instance \<lparr>error_prefix = [], version = [], gale_domain = [100],
                   host = [104], logname = [117], pid = 4711\<rparr> [116])) = 5
      then Some (split_text slash (id_instance \<lparr>error_prefix = [], version = [], gale_domain = [100],
                   host = [104], logname = [117], pid = 4711\<rparr> [116])) else None)
   = Some ([100], [104], [117], [116], 4711)"
  using id_instance_roundtrip [of "\<lparr>error_prefix = [], version = [], gale_domain = [100],
                   host = [104], logname = [117], pid = 4711\<rparr>" "[116]"]
  by (simp add: slash_def)

lemma id_instance_ambiguous:
  "id_instance \<lparr>error_prefix = [], version = [], gale_domain = [100], host = [104], logname = [117], pid = 7\<rparr> [116, slash, 120]
   = id_instance \<lparr>error_prefix = [], version = [], gale_domain = [100], host = [104, slash, 117], logname = [116], pid = 7\<rparr> [120]"
  by (simp add: id_instance_def gale_text_concat_def)

end
