(* ===== verification/Attach.thy ===== *)
theory Attach
  imports Text Session_Inv
begin

text \<open>
  The server side of a link, \<^verbatim>\<open>src/server/attach.c\<close>: an \<^verbatim>\<open>attach\<close> owns a link
  to another server, the categories it pulls (\<^verbatim>\<open>in_subs\<close>) and pushes
  (\<^verbatim>\<open>out_subs\<close>), and a queue of will notices. The model keeps the link with its
  liboop registrations (a \<open>session\<close>) and the fields of \<^verbatim>\<open>struct attach\<close> that
  the callbacks read or write; the connector (\<^verbatim>\<open>new_connect\<close>,
  \<^verbatim>\<open>gale_make_server\<close>) and the report registry belong to files that are not
  under \<^verbatim>\<open>src/\<close>. \<^verbatim>\<open>gale_queue_error\<close> appends a notice to the will queue and the
  queue hands its oldest notice, packed by \<^verbatim>\<open>gale_pack_message\<close> (a parameter),
  to \<^verbatim>\<open>on_will_packet\<close>. \<^verbatim>\<open>on_disconnect\<close> only raises an alert, which the
  model returns as its level and text.
\<close>

record attach =
  att_session :: session
  att_name :: gtext
  att_in_subs :: gtext
  att_out_subs :: gtext
  att_func :: bool
  att_will :: "gtext list"

definition new_attach :: "gtext \<Rightarrow> gtext \<Rightarrow> gtext \<Rightarrow> attach" where
  "new_attach server in_subs out_subs =
     \<lparr>att_session = new_session, att_name = server, att_in_subs = in_subs, att_out_subs = out_subs,
      att_func = False, att_will = []\<rparr>"

definition attach_report :: "attach \<Rightarrow> nat \<Rightarrow> gtext" where
  "attach_report att addr = gale_text_concat
     [gale_text_lit ''['', gale_text_from_number addr 16 8, gale_text_lit ''] attach: name='',
      att_name att, gale_text_lit '', pull ['', att_in_subs att, gale_text_lit ''], push ['',
      att_out_subs att, gale_text_lit '']'' @ [10]]"

definition on_will_packet :: "attach \<Rightarrow> gale_packet \<Rightarrow> attach result" where
  "on_will_packet att pkt =
     (case api_step (att_session att) (Call_will pkt) of
        Inl e \<Rightarrow> Inl e
      | Inr s \<Rightarrow> Inr (att\<lparr>att_session := s\<rparr>))"

definition gale_queue_error :: "gtext \<Rightarrow> gtext list \<Rightarrow> gtext list" where
  "gale_queue_error t q = q @ [t]"

definition will_queue_fire :: "(gtext \<Rightarrow> gale_packet) \<Rightarrow> attach \<Rightarrow> attach result" where
  "will_queue_fire pack att =
     (case att_will att of
        [] \<Rightarrow> Inr att
      | t # ts \<Rightarrow> on_will_packet (att\<lparr>att_will := ts\<rparr>) (pack t))"

definition on_connect :: "attach \<Rightarrow> gtext \<Rightarrow> gtext \<Rightarrow> attach result" where
  "on_connect att name conn_text =
     (case api_step (att_session att) (Call_subscribe (att_in_subs att)) of
        Inl e \<Rightarrow> Inl e
      | Inr s \<Rightarrow>
          Inr (att\<lparr>att_session := s, att_name := name,
                   att_will := gale_queue_error
                     (gale_text_concat [gale_text_lit ''galed will: disconnected from '', conn_text,
                                        [10]]) (att_will att)\<rparr>))"

text \<open>
  \<^verbatim>\<open>gale_alert\<close> logs a text at a level; the attach callbacks return the alert they
  raise.
\<close>

datatype alert_level = Gale_notice | Gale_warning

definition on_disconnect :: "attach \<Rightarrow> alert_level \<times> gtext" where
  "on_disconnect att =
     (Gale_warning, gale_text_concat [gale_text_lit ''disconnected from '' @ [34], att_name att, [34]])"

definition on_empty_attach :: "attach \<Rightarrow> bool \<Rightarrow> attach" where
  "on_empty_attach att f = att\<lparr>att_session := link_on_empty (att_session att) f, att_func := f\<rparr>"

text \<open>No output is pending on the link but what a subscription adds.\<close>

definition output_quiet :: "gale_link \<Rightarrow> bool" where
  "output_quiet l \<longleftrightarrow> out_msg l = None \<and> out_text l = [] \<and> out_watch l = [] \<and> out_fetch l = []
     \<and> out_publish l = [] \<and> out_supply l = [] \<and> out_assert l = [] \<and> out_complete l = []"

lemma gimme_cycle:
  assumes "output_quiet l" and "out_gimme l \<noteq> []"
  shows "output_run 2 l (ost_idle out) =
           Inr (wire_frame opcode_gimme (gale_pack_text_len (out_gimme l)),
                l\<lparr>out_text := [], out_gimme := []\<rparr>, ost_idle out)"
  using assms
  by (simp add: output_quiet_def numeral_2_eq_2 output_ready_def ofn_idle_ready_def output_fire_def
      ofn_idle_def ofn_idle_supply_def ofn_idle_assert_def ofn_idle_v0_def ofn_text_def ost_idle_def
      frame_header_def wire_frame_def Let_def)

lemma gimme_frame_decoded:
  assumes "2 * length t \<le> SIZE_LIMIT"
  shows "\<exists>l'. input_feed l idle_input (wire_frame opcode_gimme (gale_pack_text_len t)) = Inr (l', idle_input, [])
              \<and> in_gimme l' = t"
proof -
  have "input_feed l idle_input (wire_frame opcode_gimme (gale_pack_text_len t) @ []) =
        input_feed (text_slot_set (l\<lparr>in_opcode := opcode_gimme, in_text := In_gimme, in_length := 0\<rparr>) In_gimme t)
          idle_input []"
    by (rule input_feed_text_frame)
      (simp_all add: assms is_text_opcode_def text_slot_of_def opcode_gimme_def)
  then show ?thesis by simp
qed

text \<open>
  The disconnect warning names the server the link last connected to: \<^verbatim>\<open>on_connect\<close>
  stores the name it is given, and before the first connection the warning names
  the server \<^verbatim>\<open>new_attach\<close> was configured with.
\<close>

lemma disconnect_names_connected:
  assumes "on_connect att name ct = Inr att'"
  shows "on_disconnect att' = (Gale_warning, gale_text_lit ''disconnected from '' @ [34] @ name @ [34])"
  using assms
  by (auto simp: on_connect_def on_disconnect_def gale_text_concat_def split: sum.splits)

lemma disconnect_names_configured:
  "on_disconnect (new_attach server i out) =
     (Gale_warning, gale_text_lit ''disconnected from '' @ [34] @ server @ [34])"
  by (simp add: on_disconnect_def new_attach_def gale_text_concat_def)

text \<open>
  C38 (a connecting server subscribes). When the server link connects and has no
  other output pending, \<^verbatim>\<open>on_connect\<close> registers the writer, the next write
  callback sends one gimme frame carrying the attach's pull categories, and
  the peer's input machine decodes it into its \<^verbatim>\<open>in_gimme\<close> slot unchanged.
\<close>

theorem attach_subscribe_roundtrip:
  assumes conn: "on_connect att name ct = Inr att'"
    and fd: "fd (slink (att_session att)) \<noteq> -1"
    and buf: "output_buf (slink (att_session att)) = Some (ost_idle out)"
    and quiet: "output_quiet (slink (att_session att))"
    and subs: "att_in_subs att \<noteq> []" "2 * length (att_in_subs att) \<le> SIZE_LIMIT"
  shows "fd (slink (att_session att)) \<in> reg_write (att_session att')
         \<and> (\<exists>s''. on_write (att_session att') (fd (slink (att_session att))) 2 Io_ok
                   = Inr (Cb_none, wire_frame opcode_gimme (gale_pack_text_len (att_in_subs att)), s''))
         \<and> (\<forall>l. \<exists>l'. input_feed l idle_input (wire_frame opcode_gimme (gale_pack_text_len (att_in_subs att)))
                       = Inr (l', idle_input, []) \<and> in_gimme l' = att_in_subs att)"
proof -
  define s where "s = att_session att"
  define l1 where "l1 = slink s\<lparr>out_gimme := att_in_subs att\<rparr>"
  have s': "att_session att' = activate (s\<lparr>slink := l1\<rparr>)"
    using conn by (auto simp: on_connect_def link_subscribe_def s_def l1_def)
  have reg: "fd (slink s) \<in> reg_write (att_session att')"
    using fd by (simp add: s' l1_def activate_def deactivate_def Let_def s_def)
  have q1: "output_quiet l1" "out_gimme l1 = att_in_subs att"
    using quiet by (simp_all add: output_quiet_def l1_def s_def)
  have ready: "output_ready l1 (ost_idle out)"
    using subs(1) q1(2) by (simp add: output_ready_def ost_idle_def ofn_idle_ready_def)
  have run: "output_run 2 l1 (ost_idle out) =
      Inr (wire_frame opcode_gimme (gale_pack_text_len (att_in_subs att)),
           l1\<lparr>out_text := [], out_gimme := []\<rparr>, ost_idle out)"
    using gimme_cycle [OF q1(1)] q1(2) subs(1) by simp
  have b1: "output_buf l1 = Some (ost_idle out)" and f1: "fd l1 = fd (slink s)"
    using buf by (simp_all add: l1_def s_def)
  then have ob: "l1\<lparr>output_buf := Some (ost_idle out)\<rparr> = l1"
    by (simp add: b1 [symmetric])
  have "\<exists>s''. on_write (att_session att') (fd (slink s)) 2 Io_ok
           = Inr (Cb_none, wire_frame opcode_gimme (gale_pack_text_len (att_in_subs att)), s'')"
    using ready run by (simp add: s' on_write_def out_state_def Let_def b1 f1 ob)
  then show ?thesis
    using reg gimme_frame_decoded [OF subs(2)] by (simp add: s_def)
qed

text \<open>
  C39 (report format). For every 32-bit link address, \<^verbatim>\<open>attach_report\<close> writes the
  address as exactly eight hexadecimal digits, which read back to the address,
  followed by the name and the pull and push categories.
\<close>

theorem attach_report_address:
  assumes "addr < 2 ^ 32"
  shows "\<exists>h. attach_report att addr =
           gale_text_lit ''['' @ h @ gale_text_lit ''] attach: name='' @ att_name att
           @ gale_text_lit '', pull ['' @ att_in_subs att @ gale_text_lit ''], push [''
           @ att_out_subs att @ gale_text_lit '']'' @ [10]
         \<and> length h = 8 \<and> gale_text_to_number 16 h = addr"
proof -
  have "addr < 16 ^ 8" using assms by simp
  then have "length (gale_text_from_number addr 16 8) = 8"
    by (intro from_number_pad_length) simp_all
  then show ?thesis
    by (auto simp: attach_report_def gale_text_concat_def gale_text_number_roundtrip)
qed

lemma sstep_empty_handler: "sstep s ev (Cb_empty, d) s' \<Longrightarrow> on_empty (slink s)"
  by (erule sstep.cases)
    (auto simp: on_process_def on_read_def read_failed_def on_write_def Let_def
      split: if_splits rd_result.splits sum.splits prod.splits shutdown_phase.splits io_result.splits)

text \<open>
  Removing the empty handler: after \<^verbatim>\<open>on_empty_attach\<close> with a \<^verbatim>\<open>NULL\<close>
  function, no step of the link's event loop calls an empty handler.
\<close>

theorem on_empty_attach_silences:
  "\<not> sstep (att_session (on_empty_attach att False)) ev (Cb_empty, d) s'"
proof
  assume "sstep (att_session (on_empty_attach att False)) ev (Cb_empty, d) s'"
  then have "on_empty (slink (att_session (on_empty_attach att False)))" by (rule sstep_empty_handler)
  then show False by (simp add: on_empty_attach_def link_on_empty_def)
qed

theorem attach_report_address_witness:
  "(4660::nat) < 2 ^ 32 \<and> (\<exists>h. attach_report (new_attach [115] [97] [98]) 4660 =
      gale_text_lit ''['' @ h @ gale_text_lit ''] attach: name='' @ [115]
      @ gale_text_lit '', pull ['' @ [97] @ gale_text_lit ''], push [''
      @ [98] @ gale_text_lit '']'' @ [10] \<and> length h = 8 \<and> gale_text_to_number 16 h = 4660)"
  using attach_report_address [of 4660 "new_attach [115] [97] [98]"] by (simp add: new_attach_def)

theorem attach_subscribe_roundtrip_witness:
  "(let att = (new_attach [115] [97] [98])\<lparr>att_session := new_session\<lparr>slink :=
                new_link\<lparr>fd := 3, output_buf := Some (ost_idle initial_output)\<rparr>\<rparr>\<rparr> in
    \<exists>att'. on_connect att [110] [99] = Inr att' \<and> 3 \<in> reg_write (att_session att')
      \<and> (\<exists>s''. on_write (att_session att') 3 2 Io_ok
                = Inr (Cb_none, wire_frame opcode_gimme (gale_pack_text_len [97]), s'')))"
proof -
  define att where "att = (new_attach [115] [97] [98])\<lparr>att_session := new_session\<lparr>slink :=
                new_link\<lparr>fd := 3, output_buf := Some (ost_idle initial_output)\<rparr>\<rparr>\<rparr>"
  obtain att' where c: "on_connect att [110] [99] = Inr att'"
    by (simp add: on_connect_def att_def)
  have h: "fd (slink (att_session att)) \<noteq> -1"
    "output_buf (slink (att_session att)) = Some (ost_idle initial_output)"
    "output_quiet (slink (att_session att))" "att_in_subs att \<noteq> []"
    "2 * length (att_in_subs att) \<le> SIZE_LIMIT"
    by (simp_all add: att_def new_attach_def new_session_def new_link_def output_quiet_def
        gale_make_map_def SIZE_LIMIT_def)
  have "fd (slink (att_session att)) = 3" "att_in_subs att = [97]"
    by (simp_all add: att_def new_attach_def new_session_def)
  then show ?thesis
    using attach_subscribe_roundtrip [OF c h] c unfolding Let_def att_def [symmetric] by auto
qed

end
