(* ===== verification/Time_Format.thy ===== *)
theory Time_Format
  imports Text Time
begin

text \<open>
  \<^verbatim>\<open>gale_time_format\<close> (\<^verbatim>\<open>src/libgale/misc_time.c\<close>, lines 131-154). It reads
  \<^verbatim>\<open>GALE_TIME_FORMAT\<close> (empty when unset; the model takes its value), replaces
  each \<^verbatim>\<open>%.\<close> by the Swatch beat of the time in three digits, and expands the
  rest with \<^verbatim>\<open>strftime\<close> on the local time into a buffer of \<open>2 * format.l\<close>
  bytes. The beat is computed from \<^verbatim>\<open>gmtime\<close> of the seconds shifted by one hour
  (Biel Mean Time); \<^verbatim>\<open>gmtime\<close> splits a \<^verbatim>\<open>time_t\<close> into hours, minutes and
  seconds of the day by floor division. \<^verbatim>\<open>localtime\<close> with \<^verbatim>\<open>strftime\<close>
  depends on the time zone and the locale and is an argument \<open>strf\<close>: what it
  would write for a format and a \<^verbatim>\<open>time_t\<close>. When that does not fit the buffer
  with its terminating zero, \<^verbatim>\<open>strftime\<close> returns 0 and leaves the buffer
  indeterminate: the model returns \<open>None\<close>. \<^verbatim>\<open>gale_text_replace\<close> (not under
  \<^verbatim>\<open>src/\<close>) replaces every occurrence, left to right; the padding argument
  \<^verbatim>\<open>-3\<close> of \<^verbatim>\<open>gale_text_from_number\<close> is taken as three digits with zeros.
\<close>

fun gale_text_replace :: "gtext \<Rightarrow> gtext \<Rightarrow> gtext \<Rightarrow> gtext" where
  "gale_text_replace [] pat rep = []"
| "gale_text_replace (c # cs) pat rep =
     (if pat \<noteq> [] \<and> take (length pat) (c # cs) = pat
      then rep @ gale_text_replace (drop (length pat - 1) cs) pat rep
      else c # gale_text_replace cs pat rep)"

definition gmtime_hms :: "int \<Rightarrow> int \<times> int \<times> int" where
  "gmtime_hms t = (let s = t mod 86400 in (s div 3600, s mod 3600 div 60, s mod 60))"

definition gale_time_beat :: "gale_time \<Rightarrow> int" where
  "gale_time_beat time =
     (let tv = fst (gale_time_to \<lparr>tv_sec = 0, tv_usec = 0\<rparr> time);
          (h, m, s) = gmtime_hms (tv_sec tv + 3600) in
      1000 * (3600 * h + 60 * m + s) div 864)"

definition gale_time_format :: "gtext \<Rightarrow> (gtext \<Rightarrow> int \<Rightarrow> gtext) \<Rightarrow> gale_time \<Rightarrow> gtext option" where
  "gale_time_format var strf time =
     (let format0 = (if var = [] then gale_text_lit ''%Y-%m-%d %H:%M:%S'' else var);
          format = gale_text_replace format0 (gale_text_lit ''%.'')
                     (gale_text_from_number (nat (gale_time_beat time div 100)) 10 3);
          tv = fst (gale_time_to \<lparr>tv_sec = 0, tv_usec = 0\<rparr> time);
          date = strf format (tv_sec tv) in
      if length date < 2 * length format then Some date else None)"

text \<open>The seconds since midnight Biel Mean Time (UTC+1) of a time.\<close>

abbreviation bmt_seconds :: "gale_time \<Rightarrow> int" where
  "bmt_seconds time \<equiv> (tv_sec (fst (gale_time_to \<lparr>tv_sec = 0, tv_usec = 0\<rparr> time)) + 3600) mod 86400"

lemma gmtime_hms_day: "(\<lambda>(h, m, s). 3600 * h + 60 * m + s) (gmtime_hms t) = t mod 86400"
proof -
  define x where "x = t mod 86400"
  have a: "x mod 3600 mod 60 = x mod 60" by (simp add: mod_mod_cancel)
  have "3600 * (x div 3600) + x mod 3600 = x" by simp
  moreover have "60 * (x mod 3600 div 60) + x mod 3600 mod 60 = x mod 3600" by simp
  ultimately have "3600 * (x div 3600) + 60 * (x mod 3600 div 60) + x mod 60 = x"
    using a by linarith
  then show ?thesis by (simp add: gmtime_hms_def Let_def x_def)
qed

lemma gale_time_beat_day: "gale_time_beat time = 1000 * bmt_seconds time div 864"
proof -
  obtain h m s where e: "gmtime_hms (tv_sec (fst (gale_time_to \<lparr>tv_sec = 0, tv_usec = 0\<rparr> time)) + 3600) = (h, m, s)"
    by (cases "gmtime_hms (tv_sec (fst (gale_time_to \<lparr>tv_sec = 0, tv_usec = 0\<rparr> time)) + 3600)") auto
  then have "3600 * h + 60 * m + s = bmt_seconds time"
    using gmtime_hms_day [of "tv_sec (fst (gale_time_to \<lparr>tv_sec = 0, tv_usec = 0\<rparr> time)) + 3600"] by simp
  with e show ?thesis by (simp add: gale_time_beat_def)
qed

lemma gale_time_beat_bounds: "0 \<le> gale_time_beat time \<and> gale_time_beat time < 100000"
proof -
  define r where "r = bmt_seconds time"
  have r: "0 \<le> r" "r < 86400" by (simp_all add: r_def)
  have "864 * (1000 * r div 864) \<le> 1000 * r" "1000 * r < 864 * (1000 * r div 864) + 864"
    using int_div_bounds [of 864 "1000 * r"] by simp_all
  with r show ?thesis by (simp add: gale_time_beat_day r_def [symmetric])
qed

lemma gale_time_beat_text_length:
  "length (gale_text_from_number (nat (gale_time_beat time div 100)) 10 3) = 3"
proof -
  have "100 * (gale_time_beat time div 100) \<le> gale_time_beat time"
    "gale_time_beat time < 100 * (gale_time_beat time div 100) + 100"
    using int_div_bounds [of 100 "gale_time_beat time"] by simp_all
  then have "gale_time_beat time div 100 < 1000"
    using gale_time_beat_bounds [of time] by linarith
  then have "nat (gale_time_beat time div 100) < 10 ^ 3" by simp
  then show ?thesis by (intro from_number_pad_length) simp_all
qed

lemma gale_time_format_default:
  "gale_time_format [] strf time =
     (let date = strf (gale_text_lit ''%Y-%m-%d %H:%M:%S'')
                   (tv_sec (fst (gale_time_to \<lparr>tv_sec = 0, tv_usec = 0\<rparr> time))) in
      if length date < 34 then Some date else None)"
  by (simp add: gale_time_format_def gale_text_lit_def)

lemma gale_time_format_short:
  assumes "\<And>x. 4 \<le> length (strf (gale_text_lit ''%c'') x)"
  shows "gale_time_format (gale_text_lit ''%c'') strf time = None"
proof -
  have l: "gale_text_lit ''%c'' = [37, 99]" by (simp add: gale_text_lit_def)
  have "\<not> length (strf [37, 99] x) < 4" for x
    using assms [of x] unfolding l by simp
  moreover have "gale_text_lit ''%.'' = [37, 46]" by (simp add: gale_text_lit_def)
  ultimately show ?thesis by (simp add: gale_time_format_def l Let_def)
qed

lemma gale_text_replace_whole: "pat \<noteq> [] \<Longrightarrow> gale_text_replace pat pat rep = rep"
  by (cases pat) simp_all

text \<open>
  C37 (Swatch beat). With \<^verbatim>\<open>GALE_TIME_FORMAT\<close> set to \<^verbatim>\<open>%.\<close>, \<^verbatim>\<open>gale_time_format\<close>
  hands \<^verbatim>\<open>strftime\<close> exactly three decimal digits, in a buffer of six bytes, and
  those digits read back to the beat: the thousandths of the Biel Mean Time day
  elapsed at the time, \<open>\<lfloor>1000 * bmt_seconds / 86400\<rfloor>\<close>, between 000 and 999.
\<close>

theorem gale_time_format_beat:
  "\<exists>b. gale_time_format (gale_text_lit ''%.'') strf time =
         (let d = strf b (tv_sec (fst (gale_time_to \<lparr>tv_sec = 0, tv_usec = 0\<rparr> time))) in
          if length d < 6 then Some d else None)
       \<and> length b = 3 \<and> gale_text_to_number 10 b = nat (1000 * bmt_seconds time div 86400)"
proof -
  define b where "b = gale_text_from_number (nat (gale_time_beat time div 100)) 10 3"
  have lit: "gale_text_lit ''%.'' = [37, 46]" by (simp add: gale_text_lit_def)
  have len: "length b = 3" using gale_time_beat_text_length by (simp add: b_def)
  have "gale_time_beat time div 100 = 1000 * bmt_seconds time div 86400"
    by (simp add: gale_time_beat_day zdiv_zmult2_eq [symmetric])
  then have num: "gale_text_to_number 10 b = nat (1000 * bmt_seconds time div 86400)"
    by (simp add: b_def gale_text_number_roundtrip)
  have "gale_time_format (gale_text_lit ''%.'') strf time =
         (let d = strf b (tv_sec (fst (gale_time_to \<lparr>tv_sec = 0, tv_usec = 0\<rparr> time))) in
          if length d < 6 then Some d else None)"
    using len by (simp add: gale_time_format_def lit b_def [symmetric] Let_def)
  with len num show ?thesis by blast
qed

end
