(* ===== verification/Spec2Isabelle.thy ===== *)
theory Spec2Isabelle
  imports Input_Props Queue Output Api Session_Props Debug Client Attach Time_Format
begin

text \<open>
  \<^bold>\<open>The Gale link protocol engine.\<close>
  This development models \<^verbatim>\<open>src/libgale/core_link.c\<close>, the engine that speaks the
  Gale client/server protocol over one byte stream, together with the parts of
  \<^verbatim>\<open>src/libgale/misc_time.c\<close> it uses. A link (\<^verbatim>\<open>struct gale_link\<close>) owns an input state
  machine that decodes frames into pending slots, an output state machine that
  encodes pending facts into frames, an outgoing queue of messages, and the caller's
  API that fills the pending output (\<^verbatim>\<open>link_put\<close>, \<^verbatim>\<open>link_subscribe\<close>, \<^verbatim>\<open>ltx_*\<close>) and
  drains the pending input (\<^verbatim>\<open>lrx_*\<close>).

  \<^bold>\<open>Theories.\<close>
  \<^item> \<open>Prelude\<close>: machine types (\<open>u32\<close> is \<open>32 word\<close>, bytes and wide characters are
    \<open>8 word\<close> and \<open>16 word\<close>), the error type (\<open>Assert_fail f\<close> for a failed C
    \<^verbatim>\<open>assert\<close> in \<open>f\<close>, \<open>Bad_pointer f\<close> for a dereference of a dangling pointer) and
    \<open>'a result = error + 'a\<close>; shared byte arithmetic.
  \<^item> \<open>Wire\<close>: the libgale codec (\<^verbatim>\<open>gale_pack_u32\<close> and friends). Its C source is not
    under \<^verbatim>\<open>src/\<close>; it is modelled from section 4.1 of the specification, with the
    round trips \<open>gale_unpack_pack_u32\<close>, \<open>gale_unpack_pack_text_len\<close>,
    \<open>gale_text_from_as_data\<close>.
  \<^item> \<open>Time\<close>: every function of \<^verbatim>\<open>misc_time.c\<close> but \<^verbatim>\<open>gale_time_format\<close>:
    \<^verbatim>\<open>struct gale_time\<close>, \<^verbatim>\<open>gale_time_compare\<close>, \<^verbatim>\<open>gale_time_now\<close> (its static
    \<^verbatim>\<open>last\<close> passed in and returned), \<^verbatim>\<open>gale_time_seconds\<close>, the carry chains
    \<^verbatim>\<open>add\<close>/\<^verbatim>\<open>gale_time_add\<close> and \<^verbatim>\<open>subtract\<close>/\<^verbatim>\<open>gale_time_diff\<close>, the
    \<^verbatim>\<open>struct timeval\<close> conversions \<^verbatim>\<open>gale_time_to\<close>/\<^verbatim>\<open>gale_time_from\<close> (C division
    as \<open>trunc_div\<close> of \<open>Prelude\<close>), and \<^verbatim>\<open>gale_pack_time\<close>/\<^verbatim>\<open>gale_unpack_time\<close>.
    The reference values \<open>time_val\<close> and \<open>time_sval\<close> read a time as a 128-bit
    unsigned or signed integer. Claims C15-C23. \<open>Time_Format\<close>:
    \<^verbatim>\<open>gale_time_format\<close>, with \<^verbatim>\<open>GALE_TIME_FORMAT\<close> and \<^verbatim>\<open>localtime\<close>/\<^verbatim>\<open>strftime\<close>
    as arguments, the Swatch beat \<open>gale_time_beat\<close> (bounded by
    \<open>gale_time_beat_bounds\<close>, so always three digits) and the \<open>2 * format.l\<close>
    buffer, which a short format overflows (\<open>gale_time_format_short\<close>). Claim
    C37: the \<^verbatim>\<open>%.\<close> expansion is the three-digit beat, the thousandths of the
    Biel Mean Time day (\<open>bmt_seconds\<close>).
  \<^item> \<open>Link\<close>: the protocol constants (\<^verbatim>\<open>opcode_*\<close>, \<^verbatim>\<open>SIZE_LIMIT\<close>,
    \<^verbatim>\<open>CID_LENGTH\<close>), \<^verbatim>\<open>struct gale_link\<close> as the record \<open>gale_link\<close>, \<^verbatim>\<open>new_link\<close>,
    the map \<^verbatim>\<open>gale_map\<close> (an association list, modelled from its use), and the
    function pointers of the two machines as the datatypes \<open>ifn\<close>, \<open>iready\<close>,
    \<open>ofn\<close>, \<open>oready\<close>. The queue's nodes (\<^verbatim>\<open>struct link\<close>) live in the explicit heap
    \<open>qheap\<close> with allocator \<open>qalloc\<close>.
  \<^item> \<open>Input\<close>: every \<^verbatim>\<open>ist_*\<close> and \<^verbatim>\<open>ifn_*\<close> function and the three readiness
    functions (lines 115-406). \<open>Input_Buffer\<close>: the input buffer of \<^verbatim>\<open>io.c\<close>
    (not under \<^verbatim>\<open>src/\<close>, from section 4.3): \<open>input_settle\<close> fires complete states,
    \<open>input_feed\<close> offers bytes one at a time and returns what was refused.
    \<open>Input_Wf\<close>: the well-formedness invariant \<open>input_wf\<close> of a link and its input
    state, and its preservation by every \<^verbatim>\<open>ifn_*\<close>. \<open>Input_Props\<close>: claims C1-C5.
  \<^item> \<open>Queue\<close>: \<^verbatim>\<open>link_put\<close>, \<^verbatim>\<open>dequeue\<close>, \<^verbatim>\<open>link_queue_num\<close>, \<^verbatim>\<open>link_queue_mem\<close>,
    \<^verbatim>\<open>link_queue_time\<close>, \<^verbatim>\<open>link_queue_drop\<close> on the circular list; \<open>queue_rep\<close>
    relates the heap to the list of node addresses, and \<open>link_put_rep\<close>,
    \<open>dequeue_rep\<close> refine the two operations to appending and taking the head of a
    list of packets. Claims C6, C7.
  \<^item> \<open>Output\<close>: every \<^verbatim>\<open>ost_*\<close> and \<^verbatim>\<open>ofn_*\<close> function (lines 408-580);
    \<^verbatim>\<open>ofn_idle\<close>'s priority chain is split along its branches into \<open>ofn_idle\<close>,
    \<open>ofn_idle_supply\<close>, \<open>ofn_idle_assert\<close> and \<open>ofn_idle_v0\<close>. The output buffer of
    \<^verbatim>\<open>io.c\<close> (from section 4.4) is \<open>output_run\<close>. Claims C8-C10.
  \<^item> \<open>Api\<close>: \<^verbatim>\<open>link_subscribe\<close>, \<^verbatim>\<open>link_will\<close>, \<^verbatim>\<open>link_shutdown\<close>, \<^verbatim>\<open>combine\<close>, every
    \<^verbatim>\<open>ltx_*\<close> and \<^verbatim>\<open>lrx_*\<close> function, \<^verbatim>\<open>get_text\<close>, \<^verbatim>\<open>get_data\<close>.
  \<^item> \<open>Session\<close>: the reactor integration (lines 602-625, 673-963). A \<open>session\<close> is
    the link with what liboop holds for it (the \<^verbatim>\<open>OOP_TIME_NOW\<close> registration of
    \<^verbatim>\<open>on_process\<close>, the descriptors \<^verbatim>\<open>on_read\<close> and \<^verbatim>\<open>on_write\<close> are registered
    on) and the \<^verbatim>\<open>static last\<close> of \<^verbatim>\<open>gale_time_now\<close>; \<open>activate\<close>, \<open>deactivate\<close>,
    \<open>on_process\<close>, \<open>on_read\<close>, \<open>on_write\<close> (the results of \<^verbatim>\<open>input_buffer_read\<close>,
    \<^verbatim>\<open>output_buffer_write\<close> and \<^verbatim>\<open>shutdown\<close> are arguments), \<open>link_set_fd\<close>,
    \<open>delete_link\<close>, the \<^verbatim>\<open>link_on_*\<close> registrations and every API call as \<open>api_step\<close>.
    The inductive \<open>sstep\<close> is the event loop (a callback runs only while it is
    registered; the time callback is one-shot) and \<open>reachable\<close> its reachable
    states. The caller's handlers are not run inside a step: the step's label says
    which handler the C code calls, and what the handler does is a later API step.
    \<open>Session_Inv\<close>: the frame lemmas (the input machine writes only input fields,
    the output machine and the queue only output fields) and the invariant
    \<open>session_inv\<close>, proved for every reachable session by rule induction.
    \<open>Session_Props\<close>: claims C24-C33 and C40.
  \<^item> \<open>Text\<close>: the libgale text helpers the client and server code calls (not under
    \<^verbatim>\<open>src/\<close>, modelled from their use): \<open>gale_text_lit\<close> for \<^verbatim>\<open>G_\<close>,
    \<open>gale_text_concat\<close>, \<open>gale_text_from_number\<close> (digits by \<open>num_digits\<close>, whose
    termination is by the measure of the number), and its reader, with the round
    trip \<open>gale_text_number_roundtrip\<close> and the padding bound
    \<open>from_number_pad_length\<close>.
  \<^item> \<open>Debug\<close>: \<^verbatim>\<open>misc_debug.c\<close>; \<open>debug\<close> threads the \<^verbatim>\<open>static int indent\<close> and
    takes the formatted text; \<open>gale_dprintf\<close>, \<open>gale_diprintf\<close>; runs of calls
    (\<open>debug_run\<close>) and the nesting printer \<open>nest_print\<close> they refine. Claims
    C34, C35.
  \<^item> \<open>Client\<close>: \<^verbatim>\<open>client_standard.c\<close>; \<open>gale_add_id\<close> with the environment,
    version and pid as the record \<open>client_env\<close> and the clock threaded through
    \<open>gale_time_now\<close>. Claim C36.
  \<^item> \<open>Attach\<close>: \<^verbatim>\<open>server/attach.c\<close> over the session model: \<open>attach\<close>,
    \<open>new_attach\<close>, \<open>attach_report\<close>, \<open>on_will_packet\<close>, \<open>will_queue_fire\<close>
    (\<^verbatim>\<open>on_will_message\<close>), \<open>on_connect\<close>, \<open>on_disconnect\<close> (its warning as a
    value; \<open>disconnect_names_connected\<close>: it names the server last connected to),
    \<open>on_empty_attach\<close>. Claims C38, C39.
  \<^item> This theory: the properties that span components (C11-C14), built from the
    frame lemmas of \<open>Input_Buffer\<close> (\<open>input_feed_assert_cid\<close>,
    \<open>input_feed_assert_cat\<close>, \<open>input_feed_puff_frame\<close>), of \<open>Output\<close>
    (\<open>assert_cycle\<close>, \<open>puff_cycle\<close>) and of \<open>Queue\<close> (\<open>queue_run_rep\<close>,
    \<open>queue_run_pending\<close>).

  \<^bold>\<open>State and effects.\<close>
  Every C function that mutates the link takes the link record and returns the
  updated one; the two machine states (\<^verbatim>\<open>struct input_state\<close>,
  \<^verbatim>\<open>struct output_state\<close>) are passed beside it. Failed assertions and bad
  dereferences are \<open>Inl\<close> values, so every early return and abort of the source is a
  branch of the model. Functions pointers become constructors dispatched by
  \<open>input_fire\<close> and \<open>output_fire\<close>.

  \<^bold>\<open>Termination and fuel.\<close>
  \<open>input_settle\<close> terminates by the measure \<open>settle_rank\<close>: every firing of a full
  state either leaves a state that waits for bytes or moves to a state of lower
  rank. \<open>input_feed\<close> recurses on the byte list. \<open>output_run n\<close> calls the output
  machine at most \<open>n\<close> times: the output buffer of the C code writes as long as the
  socket has room, so the fuel is that room, and the claims quantify over every
  \<open>n\<close> (C8 is stated for \<open>3 * n\<close> steps, C9 and C10 for all runs). Queue runs
  (\<open>queue_run\<close>) recurse on the list of operations.

  \<^bold>\<open>What the claims show.\<close>
  C1: from any well-formed input state only the assertion of \<^verbatim>\<open>ist_idle\<close> can
  fail. C2: a pending puff is never overwritten. C3: an over-long fetch frame
  aborts the process (a defect). C4, C5: publish coalesces, watch waits for the
  caller. C6, C7: the queue counters agree with a FIFO list and messages leave in
  order. C8, C10: the output machine never removes pending fetch, supply and
  assert entries, so a pending fetch is sent forever and starves every other
  output (a defect). C9: no complete notice is sent while an assert is pending.
  C11-C13 (in this theory) compose the components: the version gate of the
  generation-1 API opens exactly when the input machine has read a peer version
  of at least 1; a category sent with \<^verbatim>\<open>ltx_assert\<close> through the output machine
  is decoded by the input machine with two extra characters (a defect); and
  \<^verbatim>\<open>lrx_assert\<close> called between the id and the category of an assert frame loses
  the id (a defect). C14 is the round trip of the specification: the oldest
  queued packet, framed by the output machine, is decoded by the input machine to
  the same packet, and the queue count drops by one.
  C15-C17: the four-word carry and borrow chains are 128-bit addition and
  subtraction modulo \<open>2^128\<close>, and \<^verbatim>\<open>gale_time_compare\<close> is the order of the signed
  128-bit value. C18: \<^verbatim>\<open>gale_time_now\<close> goes backwards exactly when its
  monotonicity bump of \<^verbatim>\<open>frac_low\<close> wraps (a defect). C19: a \<^verbatim>\<open>timeval\<close> survives
  \<^verbatim>\<open>gale_time_from\<close>/\<^verbatim>\<open>gale_time_to\<close> to within 4 microseconds. C20: the
  \<^verbatim>\<open>UINT_MAX\<close> clamp of \<^verbatim>\<open>gale_time_to\<close> is overwritten (a defect). C21:
  \<^verbatim>\<open>gale_time_seconds\<close> is right to the second whatever its uninitialised
  fraction words hold. C22, C23: the 16-byte time codec round-trips and fails
  exactly on short buffers.
  C24, C25: in every reachable session the callbacks are registered only on the
  link's own descriptor, so their \<^verbatim>\<open>fd == l->fd\<close> assertions hold, and a read
  callback aborts at most on \<^verbatim>\<open>ist_idle\<close>'s assertion. C26: \<^verbatim>\<open>link_set_fd\<close>
  keeps the old peer's version (a divergence from the specification). C27, C28:
  the graceful shutdown half-closes only on idle output and never calls the empty
  handler early. C29, C30: a read error leaves the link attached, and after the
  half-close a second end of file is reported as an error with \<^verbatim>\<open>errno\<close> 0. C31:
  the \<^verbatim>\<open>ltx_*\<close> calls do not wake a cancelled writer (a defect). C32: a detached
  link with an empty queue and an empty handler spins: \<^verbatim>\<open>on_process\<close> calls
  \<^verbatim>\<open>on_empty\<close> and reschedules itself on every turn, an infinite run of the
  event loop (the empty-callback is not a one-shot event). C33: \<^verbatim>\<open>on_process\<close>
  delivers a pending puff and clears it.
  C34, C35: the debug indentation is the nesting depth for nested calls, and
  drifts when a filtered opening call is closed at a printed level (a defect).
  C36: the \<^verbatim>\<open>id/instance\<close> text reads back into its parts when they contain
  no slash. C37: with \<^verbatim>\<open>GALE_TIME_FORMAT=%.\<close> the time is formatted as the
  three-digit Swatch beat, \<open>\<lfloor>1000 * s / 86400\<rfloor>\<close> for the seconds \<open>s\<close> of the Biel
  Mean Time day. C38, C39: a connecting server link sends its pull categories as a gimme
  frame the peer decodes, and the report prints the link address in eight hex
  digits. C40: two fresh sessions complete the version handshake through
  \<^verbatim>\<open>on_write\<close> and \<^verbatim>\<open>on_read\<close>, after which generation-1 calls are allowed.

  \<^bold>\<open>Not modelled.\<close>
  The byte buffers of \<^verbatim>\<open>io.c\<close> (not under \<^verbatim>\<open>src/\<close>) are folded into the machines:
  bytes the input machine refuses stay in the socket, bytes the output machine
  produces are written at once. liboop is modelled only through the registrations
  of one link; the handlers' return values to liboop are not modelled.
  The libc calls \<^verbatim>\<open>localtime\<close>/\<^verbatim>\<open>strftime\<close> of \<^verbatim>\<open>gale_time_format\<close> and the
  \<^verbatim>\<open>vfprintf\<close> formatting of \<^verbatim>\<open>misc_debug.c\<close> are arguments of the model. In \<^verbatim>\<open>attach.c\<close> the connector
  and server objects (\<^verbatim>\<open>new_connect\<close>, \<^verbatim>\<open>gale_make_server\<close>, \<^verbatim>\<open>gale_close\<close>,
  \<^verbatim>\<open>close_connect\<close>) have no source in the repository, so \<^verbatim>\<open>close_attach\<close>,
  which only calls them and the report registry, is not modelled; \<^verbatim>\<open>gale_alert\<close>
  is the log sink, so an alert is a returned value; the attach-level
  \<^verbatim>\<open>on_empty\<close> only calls the caller's function (its registration is
  \<open>on_empty_attach\<close>). \<^verbatim>\<open>server/subscr.h\<close> only declares functions whose bodies
  are not in the repository, so it has nothing to model.
\<close>


subsection \<open>Properties across components\<close>

lemma frame_header_wire_frame: "frame_header op (length b) @ b = wire_frame op b"
  by (simp add: frame_header_def wire_frame_def)

text \<open>
  C11 (version gate, specification 4.3 and 8). On a fresh link \<^verbatim>\<open>ltx_watch\<close>
  fails its assertion \<^verbatim>\<open>in_version > 0\<close>; once the input machine has read a peer
  version of at least 1 (\<^verbatim>\<open>ifn_version\<close>), the same call succeeds.
\<close>

theorem watch_needs_peer_version:
  assumes "0 < unat v"
  shows "ltx_watch new_link c = Inl (Assert_fail ''ltx_watch'')
         \<and> (\<exists>l'. input_feed new_link initial_input (gale_pack_u32 v) = Inr (l', idle_input, [])
                 \<and> (\<exists>l''. ltx_watch l' c = Inr l''))"
proof -
  have "input_feed new_link initial_input (gale_pack_u32 v @ []) =
        Inr (new_link\<lparr>in_version := (if unat v > PROTOCOL_VERSION then int PROTOCOL_VERSION
                                      else int (unat v)), in_length := 0\<rparr>, idle_input, [])"
    by (simp only: input_feed_version input_feed_idle_Nil)
  moreover have "0 < (if unat v > PROTOCOL_VERSION then int PROTOCOL_VERSION else int (unat v))"
    using assms by (simp add: PROTOCOL_VERSION_def del: of_nat_unat)
  ultimately show ?thesis
    by (simp add: ltx_watch_def version_gate_def new_link_def)
qed

theorem watch_needs_peer_version_witness:
  "0 < unat (1 :: u32)
   \<and> ltx_watch new_link [] = Inl (Assert_fail ''ltx_watch'')
   \<and> (\<exists>l'. input_feed new_link initial_input (gale_pack_u32 1) = Inr (l', idle_input, [])
           \<and> (\<exists>l''. ltx_watch l' [] = Inr l''))"
  using watch_needs_peer_version [of 1 "[]"] by simp

text \<open>
  C12. A category asserted with \<^verbatim>\<open>ltx_assert\<close> does not arrive intact at a peer
  running the same code: \<^verbatim>\<open>combine\<close> packs the category with
  \<^verbatim>\<open>gale_pack_text\<close>, which puts its character count in front, and the output
  machine sends that key as the frame body, while the receiver (\<^verbatim>\<open>ifn_cid\<close>,
  \<^verbatim>\<open>ist_text\<close>) reads every byte after the content id as characters. The peer's
  \<^verbatim>\<open>in_assert_cat\<close> holds the two halves of the count followed by the category.
\<close>

theorem assert_category_garbled:
  assumes "0 < in_version l" and "out_msg l = None" "out_text l = []" "out_watch l = []"
    and "out_fetch l = []" "out_publish l = []" "out_supply l = []" "out_assert l = []"
    and c: "length c = CID_LENGTH" and bound: "CID_LENGTH + 2 * (length t + 2) \<le> SIZE_LIMIT"
    and "in_assert_cid r = []" "in_assert_cat r = []"
  shows "\<exists>l1 d l2 out2 r'. ltx_assert l t c = Inr l1
           \<and> output_run 3 l1 (ost_idle out) = Inr (d, l2, out2)
           \<and> input_feed r idle_input d = Inr (r', idle_input, [])
           \<and> in_assert_cid r' = c
           \<and> in_assert_cat r' = word_of_nat (length t div 65536) # word_of_nat (length t mod 65536) # t"
proof -
  let ?t' = "word_of_nat (length t div 65536) # word_of_nat (length t mod 65536) # t :: gtext"
  let ?k = "combine t c"
  let ?l1 = "l\<lparr>out_assert := gale_map_add (out_assert l) ?k (Some St_yes)\<rparr>"
  have lt: "length t < 4294967296"
    using bound by (simp add: SIZE_LIMIT_def)
  have k: "?k = c @ gale_pack_text_len ?t'"
    by (rule combine_as_text [OF lt])
  have l1: "ltx_assert l t c = Inr ?l1"
    using assms(1) by (simp add: ltx_assert_def version_gate_def)
  have walk: "gale_map_walk (gale_map_add (out_assert l) ?k (Some St_yes)) = Some (?k, St_yes)"
    using assms(8) by (simp add: gale_map_add_def gale_map_walk_def Let_def)
  have run0: "output_run 3 ?l1 (ost_idle out) =
      Inr (wire_frame opcode_assert ?k, ?l1\<lparr>out_cid := ?k, out_data := []\<rparr>, ost_idle out)"
    unfolding frame_header_wire_frame [symmetric]
    by (rule assert_cycle) (simp_all add: assms(2-7) walk)
  have run: "output_run 3 ?l1 (ost_idle out) =
      Inr (wire_frame opcode_assert (c @ gale_pack_text_len ?t'), ?l1\<lparr>out_cid := ?k, out_data := []\<rparr>,
           ost_idle out)"
    by (subst k [symmetric]) (rule run0)
  have feed: "input_feed r idle_input (wire_frame opcode_assert (c @ gale_pack_text_len ?t') @ []) =
      Inr (r\<lparr>in_opcode := opcode_assert, in_length := 0, in_cid := In_assert_cid,
             in_assert_cid := c, in_text := In_assert_cat, in_assert_cat := ?t'\<rparr>, idle_input, [])"
    using input_feed_assert_frame [of c ?t' r "[]"] assms(11,12) c bound by simp
  show ?thesis
    using l1 run feed by simp
qed

theorem assert_category_garbled_witness:
  "0 < in_version (new_link\<lparr>in_version := 1\<rparr>)
   \<and> (\<exists>l1 d l2 out2 r'. ltx_assert (new_link\<lparr>in_version := 1\<rparr>) [65] (replicate 20 0) = Inr l1
        \<and> output_run 3 l1 (ost_idle initial_output) = Inr (d, l2, out2)
        \<and> input_feed new_link idle_input d = Inr (r', idle_input, [])
        \<and> in_assert_cid r' = replicate 20 0
        \<and> in_assert_cat r' = [0, 1, 65])"
  using assert_category_garbled [where l = "new_link\<lparr>in_version := 1\<rparr>" and c = "replicate 20 0"
      and t = "[65]" and r = new_link and out = initial_output]
  by (simp add: new_link_def gale_make_map_def CID_LENGTH_def SIZE_LIMIT_def)

text \<open>
  C13. \<^verbatim>\<open>lrx_assert\<close> clears the content id before it looks at the category
  slot (lines 1038-1043). If the caller drains after the id of an assert frame has
  been decoded and before its category has arrived, the call reports nothing
  but the id is gone; once the category arrives, the next call returns it with an
  empty id.
\<close>

theorem lrx_assert_loses_cid:
  assumes c: "length c = CID_LENGTH" and t: "t \<noteq> []"
    and bound: "CID_LENGTH + 2 * length t \<le> SIZE_LIMIT"
    and slots: "in_assert_cid r = []" "in_assert_cat r = []"
  shows "\<exists>r1 inp1 r2.
           input_feed r idle_input
             (gale_pack_u32 opcode_assert @ gale_pack_u32 (of_nat (CID_LENGTH + 2 * length t)) @ c)
             = Inr (r1, inp1, [])
         \<and> fst (lrx_assert r1) = (None, c)
         \<and> input_feed (snd (lrx_assert r1)) inp1 (gale_pack_text_len t) = Inr (r2, idle_input, [])
         \<and> fst (lrx_assert r2) = (Some t, [])"
proof -
  let ?r1 = "r\<lparr>in_opcode := opcode_assert, in_length := of_nat (2 * length t), in_cid := In_assert_cid,
               in_assert_cid := c, in_text := In_assert_cat\<rparr>"
  let ?T = "idle_input\<lparr>inext := Ifn_text, iready := Ifn_text_ready, idata_len := 2 * length t\<rparr>"
  have "input_feed ?r1 ?T [] = Inr (?r1, ?T, [])"
    using t by (simp add: input_settle_stop input_full_def idle_input_def)
  then have feed1: "input_feed r idle_input
      (gale_pack_u32 opcode_assert @ gale_pack_u32 (of_nat (CID_LENGTH + 2 * length t)) @ c) =
      Inr (?r1, ?T, [])"
    using input_feed_assert_cid [OF c _ slots(1), of "length t" "[]"] bound by simp
  have drain1: "lrx_assert ?r1 = ((None, c), ?r1\<lparr>in_assert_cid := []\<rparr>)"
    using slots(2) by (simp add: lrx_assert_def get_text_def)
  have feed2: "input_feed (?r1\<lparr>in_assert_cid := []\<rparr>) ?T (gale_pack_text_len t @ []) =
      Inr (?r1\<lparr>in_assert_cid := [], in_length := 0, in_assert_cat := t\<rparr>, idle_input, [])"
    using input_feed_assert_cat [of t "?r1\<lparr>in_assert_cid := []\<rparr>" "[]"] bound slots(2) by simp
  have drain2: "fst (lrx_assert (?r1\<lparr>in_assert_cid := [], in_length := 0, in_assert_cat := t\<rparr>)) =
      (Some t, [])"
    using t by (simp add: lrx_assert_def get_text_def)
  show ?thesis
    using feed1 drain1 feed2 drain2 by auto
qed

theorem lrx_assert_loses_cid_witness:
  "\<exists>r1 inp1 r2.
     input_feed new_link idle_input
       (gale_pack_u32 opcode_assert @ gale_pack_u32 (of_nat (CID_LENGTH + 2 * length [65 :: wch]))
        @ replicate 20 0)
       = Inr (r1, inp1, [])
   \<and> fst (lrx_assert r1) = (None, replicate 20 0)
   \<and> input_feed (snd (lrx_assert r1)) inp1 (gale_pack_text_len [65]) = Inr (r2, idle_input, [])
   \<and> fst (lrx_assert r2) = (Some [65], [])"
  using lrx_assert_loses_cid [where c = "replicate 20 0" and t = "[65]" and r = new_link]
  by (simp add: new_link_def CID_LENGTH_def SIZE_LIMIT_def)

text \<open>
  C14 (round trip and queue order, specification 4.4 and 8). After any sequence
  of \<^verbatim>\<open>link_put\<close> and \<^verbatim>\<open>link_queue_drop\<close> on a fresh link whose queue holds
  \<open>m # ms\<close>, one idle visit of the output machine writes a puff frame; a peer running
  the input machine decodes those bytes to exactly \<open>m\<close> (same routing, same content),
  and \<^verbatim>\<open>link_queue_num\<close> then counts the packets \<open>ms\<close> still queued.
\<close>

theorem puff_roundtrip:
  assumes q: "fifo_run [] ops = m # ms" and bound: "packet_frame_len m \<le> SIZE_LIMIT"
    and r: "in_puff r = None" "in_msg r = None"
  shows "\<exists>l d l' r'. queue_run new_link ops = Inr l
           \<and> output_run 3 l (ost_idle out) = Inr (d, l', ost_idle out)
           \<and> input_feed r idle_input d = Inr (r', idle_input, [])
           \<and> in_puff r' = Some m \<and> link_queue_num l' = int (length ms)"
proof -
  obtain l ys where run: "queue_run new_link ops = Inr l" and rep: "queue_rep l ys"
    and msgs: "queue_msgs l ys = fifo_run (queue_msgs new_link []) ops"
    using queue_run_rep [OF queue_rep_new_link] by blast
  have msgs': "queue_msgs l ys = m # ms"
    using msgs q by (simp add: queue_msgs_def)
  then obtain y ys' where ys: "ys = y # ys'"
    by (cases ys) (auto simp: queue_msgs_def)
  have pend: "out_pending_same new_link l"
    using queue_run_pending [OF run] .
  have hd: "hd (queue_msgs l (y # ys')) = m" and tl: "tl (queue_msgs l (y # ys')) = ms"
    using msgs' ys by simp_all
  obtain l' where out: "output_run 3 l (ost_idle out) =
           Inr (frame_header opcode_puff (packet_frame_len m)
                @ gale_pack_u32 (of_nat (gale_text_len_size (routing m)))
                @ gale_pack_text_len (routing m) @ gale_pack_u32 0 @ content m, l', ost_idle out)"
    and rep': "queue_rep l' ys'" and msgs'': "queue_msgs l' ys' = ms"
    using puff_cycle [of l y ys' out] rep ys pend hd tl
    by (auto simp: out_pending_same_def new_link_def gale_make_map_def)
  let ?b = "gale_pack_u32 (of_nat (2 * length (routing m))) @ gale_pack_text_len (routing m)
            @ gale_pack_u32 0 @ content m"
  have frame: "frame_header opcode_puff (packet_frame_len m)
                @ gale_pack_u32 (of_nat (gale_text_len_size (routing m)))
                @ gale_pack_text_len (routing m) @ gale_pack_u32 0 @ content m
               = wire_frame opcode_puff ?b @ []"
  proof -
    have "packet_frame_len m = length ?b"
      by (simp add: packet_frame_len_def)
    then show ?thesis
      using frame_header_wire_frame [of opcode_puff ?b] by simp
  qed
  have feed: "input_feed r idle_input (wire_frame opcode_puff ?b @ []) =
      Inr (r\<lparr>in_opcode := opcode_puff, in_length := 0, in_puff := Some m, in_msg := None\<rparr>, idle_input, [])"
    using input_feed_puff_frame [OF r, of m "[]"] bound by (simp add: packet_frame_len_def)
  have "length ys' = length ms"
    using arg_cong [OF msgs'', of length] by (simp add: queue_msgs_def)
  then have "link_queue_num l' = int (length ms)"
    using rep' by (simp add: queue_rep_def link_queue_num_def)
  then show ?thesis
    using run out frame feed by auto
qed

theorem puff_roundtrip_witness:
  "\<exists>l d l' r'. queue_run new_link [Put \<lparr>routing = [], content = []\<rparr> gale_time_zero] = Inr l
     \<and> output_run 3 l (ost_idle initial_output) = Inr (d, l', ost_idle initial_output)
     \<and> input_feed new_link idle_input d = Inr (r', idle_input, [])
     \<and> in_puff r' = Some \<lparr>routing = [], content = []\<rparr> \<and> link_queue_num l' = 0"
  using puff_roundtrip [where ops = "[Put \<lparr>routing = [], content = []\<rparr> gale_time_zero]"
      and m = "\<lparr>routing = [], content = []\<rparr>" and ms = "[]" and r = new_link and out = initial_output]
  by (simp add: new_link_def packet_frame_len_def SIZE_LIMIT_def)

end
